(* ===== verification/Prelude.thy ===== *)
theory Prelude
  imports Main "HOL-Library.AList" "HOL-Library.Char_ord" "HOL-Library.List_Lexorder"
    "HOL-Library.Sublist"
begin

text \<open>
  What the other theories share: the types that stand for Go's own (maps, times, durations,
  the result of a fallible call), the fact collections, generic lemmas on association lists,
  and the generic object locales.

  A Go map is an association list with distinct keys. Reading is \<open>map_of\<close>, storing is
  \<open>AList.update\<close>, deleting is \<open>AList.delete\<close>. Where the code ranges over a map the
  order of the keys is unspecified in Go, so the model takes it as an argument: a function that
  permutes the list of keys (\<open>range_order\<close>).

  A time is a number of nanoseconds since the zero time, which is 0; a duration is a number of
  nanoseconds.
\<close>

section \<open>Types of the language\<close>

type_synonym 'v gomap = "(string \<times> 'v) list"

type_synonym gotime = int

type_synonym duration = int

type_synonym range_order = "string list \<Rightarrow> string list"

abbreviation keys :: "'v gomap \<Rightarrow> string list" where
  "keys m \<equiv> map fst m"

abbreviation wf_map :: "'v gomap \<Rightarrow> bool" where
  "wf_map m \<equiv> distinct (keys m)"

text \<open>The order in which one execution ranges over a map: some permutation of its keys.\<close>

definition is_range_order :: "range_order \<Rightarrow> bool" where
  "is_range_order ord \<longleftrightarrow> (\<forall>ks. set (ord ks) = set ks)"

definition millisecond :: duration where "millisecond = 1000000"
definition second :: duration where "second = 1000000000"
definition minute :: duration where "minute = 60000000000"
definition hour :: duration where "hour = 3600000000000"

text \<open>A signed 64-bit result, wrapped around as the machine wraps it.\<close>

definition wrap64 :: "int \<Rightarrow> int" where
  "wrap64 x = (x + 2 ^ 63) mod 2 ^ 64 - 2 ^ 63"

named_theorems time_defs "the named durations"
named_theorems go_simps "evaluation of the modelled standard library"

declare millisecond_def [time_defs] second_def [time_defs] minute_def [time_defs] hour_def [time_defs]

lemma if_Some_None: "(if P then Some x else y) = None \<longleftrightarrow> \<not> P \<and> y = None"
  by simp

lemma wrap64_id: "- (2 ^ 63) \<le> x \<Longrightarrow> x < 2 ^ 63 \<Longrightarrow> wrap64 x = x"
  by (simp add: wrap64_def)

section \<open>Association lists\<close>

declare map_of_eq_Some_iff [simp del] Some_eq_map_of_iff [simp del]

lemma map_of_eq_None_keys: "map_of m k = None \<longleftrightarrow> k \<notin> set (keys m)"
  by (simp add: map_of_eq_None_iff)

lemma map_of_SomeD_keys: "map_of m k = Some v \<Longrightarrow> k \<in> set (keys m)"
  by (metis map_of_eq_None_keys option.distinct(1))

lemma keys_map_of: "k \<in> set (keys m) \<Longrightarrow> \<exists>v. map_of m k = Some v"
  by (metis map_of_eq_None_keys not_None_eq)

lemma wf_update [simp, intro]: "wf_map m \<Longrightarrow> wf_map (AList.update k v m)"
  by (rule distinct_update)

lemma wf_delete [simp, intro]: "wf_map m \<Longrightarrow> wf_map (AList.delete k m)"
  by (rule distinct_delete)

lemma length_update: "length (AList.update k v m) = (if k \<in> set (keys m) then length m else Suc (length m))"
  by (induction m) auto

lemma length_delete_le: "length (AList.delete k m) \<le> length m"
  by (simp add: AList.delete_eq)

lemma length_delete_less: "k \<in> set (keys m) \<Longrightarrow> length (AList.delete k m) < length m"
proof -
  assume "k \<in> set (keys m)"
  then obtain p where "p \<in> set m" "fst p = k" by auto
  then show ?thesis
    unfolding AList.delete_eq by (intro length_filter_less [of p]) auto
qed

lemma map_of_update_if: "map_of (AList.update k v m) k' = (if k' = k then Some v else map_of m k')"
  by (simp add: update_conv')

lemma map_of_delete_if: "map_of (AList.delete k m) k' = (if k' = k then None else map_of m k')"
  by (simp add: delete_conv')

lemmas alist_simps = map_of_update_if map_of_delete_if length_update

lemma mem_set_map_of: "wf_map m \<Longrightarrow> (k, v) \<in> set m \<longleftrightarrow> map_of m k = Some v"
  by (simp add: map_of_eq_Some_iff)

section \<open>Objects: operations that keep an invariant\<close>

text \<open>
  A stateful component of the program is an initial state and a step that performs one operation
  and returns the new state with the operation's result. \<open>run_ops\<close> performs a sequence.
\<close>

fun run_ops :: "('s \<Rightarrow> 'op \<Rightarrow> 's \<times> 'out) \<Rightarrow> 's \<Rightarrow> 'op list \<Rightarrow> 's \<times> 'out list" where
  "run_ops step s [] = (s, [])"
| "run_ops step s (x # xs) =
     (fst (run_ops step (fst (step s x)) xs), snd (step s x) # snd (run_ops step (fst (step s x)) xs))"

lemma run_ops_append:
  "run_ops step s (xs @ ys) =
     (fst (run_ops step (fst (run_ops step s xs)) ys),
      snd (run_ops step s xs) @ snd (run_ops step (fst (run_ops step s xs)) ys))"
  by (induction xs arbitrary: s) auto

lemma run_ops_length: "length (snd (run_ops step s xs)) = length xs"
  by (induction xs arbitrary: s) auto

locale object_invariant =
  fixes step :: "'s \<Rightarrow> 'op \<Rightarrow> 's \<times> 'out"
    and inv :: "'s \<Rightarrow> bool"
    and legal :: "'op \<Rightarrow> bool"
  assumes step_inv: "inv s \<Longrightarrow> legal x \<Longrightarrow> inv (fst (step s x))"
begin

lemma run_inv: "inv s \<Longrightarrow> list_all legal xs \<Longrightarrow> inv (fst (run_ops step s xs))"
proof (induction xs arbitrary: s)
  case Nil
  then show ?case by simp
next
  case (Cons x xs)
  then have "inv (fst (step s x))" by (simp add: step_inv)
  with Cons.IH [OF this] Cons.prems show ?case
    by simp
qed

end

text \<open>
  An object that implements an abstract one: the abstraction of a step is the abstract step of
  the abstraction, with the same result. A whole run of the object is then a run of its
  specification.
\<close>

locale object_refinement = object_invariant +
  fixes abs :: "'s \<Rightarrow> 'a"
    and astep :: "'a \<Rightarrow> 'op \<Rightarrow> 'a \<times> 'out"
  assumes step_abs: "inv s \<Longrightarrow> legal x \<Longrightarrow> astep (abs s) x = (abs (fst (step s x)), snd (step s x))"
begin

lemma run_abs:
  "inv s \<Longrightarrow> list_all legal xs \<Longrightarrow>
     run_ops astep (abs s) xs = (abs (fst (run_ops step s xs)), snd (run_ops step s xs))"
proof (induction xs arbitrary: s)
  case Nil
  then show ?case by simp
next
  case (Cons x xs)
  then have i: "inv (fst (step s x))" and l: "list_all legal xs" and x: "legal x"
    by (simp_all add: step_inv)
  show ?case
    using Cons.IH [OF i l] step_abs [OF Cons.prems(1) x]
    by simp
qed

end

end
