(* ===== verification/GoStrings.thy ===== *)
theory GoStrings
  imports Prelude
begin

text \<open>
  The parts of Go's \<open>strings\<close>, \<open>unicode/utf8\<close>, \<open>strconv\<close>, \<open>encoding/hex\<close> and \<open>net/textproto\<close>
  packages that the plugin calls, on byte strings. A Go string is a sequence of bytes, as is an
  Isabelle \<open>string\<close> (a \<open>char\<close> is 8 bits wide), so \<open>length\<close> is Go's \<open>len\<close>.

  Case mapping and folding are those of Go on every string as far as an ASCII result can tell:
  the only non-ASCII code points that \<open>unicode.ToLower\<close>, \<open>unicode.ToUpper\<close> or simple folding send
  to an ASCII letter are U+0130 and U+212A (lower), U+0131 and U+017F (upper), U+017F and U+212A
  (folding), and they are written out below. Any other non-ASCII byte is left as it is, where Go
  would map it to another non-ASCII sequence; the program only compares the result with ASCII
  text or checks it to be ASCII.
\<close>

section \<open>Searching and splitting\<close>

definition has_prefix :: "string \<Rightarrow> string \<Rightarrow> bool" where
  "has_prefix s p \<longleftrightarrow> take (length p) s = p"

definition has_suffix :: "string \<Rightarrow> string \<Rightarrow> bool" where
  "has_suffix s p \<longleftrightarrow> length p \<le> length s \<and> drop (length s - length p) s = p"

definition trim_suffix :: "string \<Rightarrow> string \<Rightarrow> string" where
  "trim_suffix s p = (if has_suffix s p then take (length s - length p) s else s)"

text \<open>\<open>strings.ContainsAny(s, cs)\<close> for a set \<open>cs\<close> of ASCII characters.\<close>

definition contains_any :: "string \<Rightarrow> string \<Rightarrow> bool" where
  "contains_any s cs \<longleftrightarrow> list_ex (\<lambda>c. c \<in> set cs) s"

text \<open>\<open>strings.Contains(s, t)\<close> for a one-character \<open>t\<close>.\<close>

definition contains_char :: "string \<Rightarrow> char \<Rightarrow> bool" where
  "contains_char s c \<longleftrightarrow> c \<in> set s"

text \<open>\<open>strings.Split\<close> with a one-character separator: never the empty list.\<close>

fun split :: "char \<Rightarrow> string \<Rightarrow> string list" where
  "split c [] = [[]]"
| "split c (x # s) =
     (if x = c then [] # split c s
      else (case split c s of [] \<Rightarrow> [[x]] | w # ws \<Rightarrow> (x # w) # ws))"

text \<open>\<open>strings.Cut\<close> with a one-character separator: before, after, found.\<close>

fun cut :: "char \<Rightarrow> string \<Rightarrow> string \<times> string \<times> bool" where
  "cut c [] = ([], [], False)"
| "cut c (x # s) =
     (if x = c then ([], s, True) else (case cut c s of (a, b, f) \<Rightarrow> (x # a, b, f)))"

fun join :: "string list \<Rightarrow> string \<Rightarrow> string" where
  "join [] sep = []"
| "join [x] sep = x"
| "join (x # y # xs) sep = x @ sep @ join (y # xs) sep"

lemma split_not_Nil [simp]: "split c s \<noteq> []"
  by (cases s) (auto split: list.split)

lemma split_no_sep: "\<forall>w \<in> set (split c s). c \<notin> set w"
proof (induction s)
  case (Cons x s)
  then show ?case by (auto split: list.splits)
qed simp

text \<open>Splitting loses nothing: joining the parts with the separator gives the string back.\<close>

lemma join_split: "join (split c s) [c] = s"
proof (induction s)
  case (Cons x s)
  obtain w ws where w: "split c s = w # ws"
    by (cases "split c s") auto
  with Cons.IH show ?case by (cases ws) auto
qed simp

lemma split_join:
  assumes "ws \<noteq> []" "\<forall>w \<in> set ws. c \<notin> set w"
  shows "split c (join ws [c]) = ws"
  using assms
proof (induction ws rule: induct_list012)
  case (2 w)
  then have "split c w = [w]" if "c \<notin> set w" for w
    using that by (induction w) auto
  with 2 show ?case by simp
next
  case (3 w v ws)
  have app: "c \<notin> set w \<Longrightarrow> split c (w @ c # r) = w # split c r" for w r
    by (induction w) auto
  from 3 show ?case by (simp add: app)
qed simp

lemma contains_any_simps [simp]:
  "contains_any [] cs \<longleftrightarrow> False"
  "contains_any (c # s) cs \<longleftrightarrow> c \<in> set cs \<or> contains_any s cs"
  "contains_any (s @ t) cs \<longleftrightarrow> contains_any s cs \<or> contains_any t cs"
  by (auto simp: contains_any_def)

lemma contains_any_iff: "contains_any s cs \<longleftrightarrow> set s \<inter> set cs \<noteq> {}"
  by (auto simp: contains_any_def list_ex_iff)

lemma has_prefix_iff: "has_prefix s p \<longleftrightarrow> (\<exists>t. s = p @ t)"
  unfolding has_prefix_def by (metis append_eq_conv_conj append_take_drop_id)

lemma has_prefix_Cons [simp]:
  "has_prefix s []"
  "\<not> has_prefix [] (c # p)"
  "has_prefix (x # s) (c # p) \<longleftrightarrow> x = c \<and> has_prefix s p"
  by (auto simp: has_prefix_def)

lemma has_prefix_append [simp]: "has_prefix (p @ t) p"
  by (simp add: has_prefix_def)

section \<open>Trimming\<close>

text \<open>The encodings of the code points of Go's \<open>unicode.White_Space\<close>.\<close>

definition white_space :: "string list" where
  "white_space =
     [[CHR 0x20], [CHR 0x09], [CHR 0x0A], [CHR 0x0B], [CHR 0x0C], [CHR 0x0D],
      [CHR 0xC2, CHR 0x85], [CHR 0xC2, CHR 0xA0], [CHR 0xE1, CHR 0x9A, CHR 0x80],
      [CHR 0xE2, CHR 0x80, CHR 0x80], [CHR 0xE2, CHR 0x80, CHR 0x81],
      [CHR 0xE2, CHR 0x80, CHR 0x82], [CHR 0xE2, CHR 0x80, CHR 0x83],
      [CHR 0xE2, CHR 0x80, CHR 0x84], [CHR 0xE2, CHR 0x80, CHR 0x85],
      [CHR 0xE2, CHR 0x80, CHR 0x86], [CHR 0xE2, CHR 0x80, CHR 0x87],
      [CHR 0xE2, CHR 0x80, CHR 0x88], [CHR 0xE2, CHR 0x80, CHR 0x89],
      [CHR 0xE2, CHR 0x80, CHR 0x8A], [CHR 0xE2, CHR 0x80, CHR 0xA8],
      [CHR 0xE2, CHR 0x80, CHR 0xA9], [CHR 0xE2, CHR 0x80, CHR 0xAF],
      [CHR 0xE2, CHR 0x81, CHR 0x9F], [CHR 0xE3, CHR 0x80, CHR 0x80]]"

text \<open>Drop, from the front, every word of \<open>ws\<close> that the string starts with.\<close>

function drop_words :: "string list \<Rightarrow> string \<Rightarrow> string" where
  "drop_words ws [] = []"
| "drop_words ws (c # s) =
     (case find (\<lambda>w. w \<noteq> [] \<and> has_prefix (c # s) w) ws of
        None \<Rightarrow> c # s
      | Some w \<Rightarrow> drop_words ws (drop (length w - 1) s))"
  by pat_completeness auto
termination
  by (relation "measure (\<lambda>(ws, s). length s)") auto

definition trim_left_space :: "string \<Rightarrow> string" where
  "trim_left_space s = drop_words white_space s"

definition trim_right_space :: "string \<Rightarrow> string" where
  "trim_right_space s = rev (drop_words (map rev white_space) (rev s))"

definition trim_space :: "string \<Rightarrow> string" where
  "trim_space s = trim_right_space (trim_left_space s)"

text \<open>\<open>strings.Trim(s, cs)\<close> for ASCII characters \<open>cs\<close>, and \<open>textproto.TrimString\<close>.\<close>

definition trim_chars :: "string \<Rightarrow> string \<Rightarrow> string" where
  "trim_chars s cs = rev (dropWhile (\<lambda>c. c \<in> set cs) (rev (dropWhile (\<lambda>c. c \<in> set cs) s)))"

definition trim_string :: "string \<Rightarrow> string" where
  "trim_string s = trim_chars s [CHR 0x20, CHR 0x09, CHR 0x0A, CHR 0x0D]"

lemma drop_words_suffix: "suffix (drop_words ws s) s"
proof (induction ws s rule: drop_words.induct)
  case (2 ws c s)
  have "suffix (drop_words ws (drop (length w - 1) s)) (c # s)"
    if "find (\<lambda>w. w \<noteq> [] \<and> has_prefix (c # s) w) ws = Some w" for w
    using 2 [OF that] by (meson suffix_ConsI suffix_drop suffix_order.order_trans)
  then show ?case by (simp split: option.split)
qed simp

lemma trim_space_sublist: "sublist (trim_space s) s"
proof -
  have "suffix (trim_left_space s) s"
    by (simp add: trim_left_space_def drop_words_suffix)
  moreover have "prefix (trim_right_space t) t" for t
    using drop_words_suffix [of "map rev white_space" "rev t"]
    by (simp add: trim_right_space_def suffix_to_prefix)
  ultimately show ?thesis
    unfolding trim_space_def sublist_def suffix_def prefix_def by (metis append.assoc)
qed

lemma trim_space_length: "length (trim_space s) \<le> length s"
  by (rule sublist_length_le [OF trim_space_sublist])

lemma trim_space_set: "set (trim_space s) \<subseteq> set s"
  by (rule set_mono_sublist [OF trim_space_sublist])

section \<open>Case\<close>

text \<open>Map every character with \<open>f\<close>, except for the listed encodings.\<close>

function map_runes :: "(string \<times> char) list \<Rightarrow> (char \<Rightarrow> char) \<Rightarrow> string \<Rightarrow> string" where
  "map_runes sp f [] = []"
| "map_runes sp f (c # s) =
     (case find (\<lambda>(w, r). w \<noteq> [] \<and> has_prefix (c # s) w) sp of
        None \<Rightarrow> f c # map_runes sp f s
      | Some (w, r) \<Rightarrow> r # map_runes sp f (drop (length w - 1) s))"
  by pat_completeness auto
termination
  by (relation "measure (\<lambda>(sp, f, s). length s)") auto

definition lower_char :: "char \<Rightarrow> char" where
  "lower_char c = (if CHR ''A'' \<le> c \<and> c \<le> CHR ''Z'' then char_of ((of_char c :: nat) + 32) else c)"

definition upper_char :: "char \<Rightarrow> char" where
  "upper_char c = (if CHR ''a'' \<le> c \<and> c \<le> CHR ''z'' then char_of ((of_char c :: nat) - 32) else c)"

definition to_lower :: "string \<Rightarrow> string" where
  "to_lower = map_runes
     [([CHR 0xC4, CHR 0xB0], CHR ''i''), ([CHR 0xE2, CHR 0x84, CHR 0xAA], CHR ''k'')] lower_char"

definition to_upper :: "string \<Rightarrow> string" where
  "to_upper = map_runes
     [([CHR 0xC4, CHR 0xB1], CHR ''I''), ([CHR 0xC5, CHR 0xBF], CHR ''S'')] upper_char"

definition fold_case :: "string \<Rightarrow> string" where
  "fold_case = map_runes
     [([CHR 0xC5, CHR 0xBF], CHR ''s''), ([CHR 0xE2, CHR 0x84, CHR 0xAA], CHR ''k'')] lower_char"

definition equal_fold :: "string \<Rightarrow> string \<Rightarrow> bool" where
  "equal_fold s t \<longleftrightarrow> fold_case s = fold_case t"

definition ascii :: "string \<Rightarrow> bool" where
  "ascii s \<longleftrightarrow> list_all (\<lambda>c. c < CHR 0x80) s"

lemma lower_char_nat:
  "of_char (lower_char c) = (let n = of_char c :: nat in if 65 \<le> n \<and> n \<le> 90 then n + 32 else n)"
  by (simp add: lower_char_def less_eq_char_def Let_def)

lemma upper_char_nat:
  "of_char (upper_char c) = (let n = of_char c :: nat in if 97 \<le> n \<and> n \<le> 122 then n - 32 else n)"
  by (auto simp: upper_char_def less_eq_char_def Let_def)

lemma char_eq_nat: "c = d \<longleftrightarrow> (of_char c :: nat) = of_char d"
  by simp

lemma case_char [simp]:
  "lower_char (upper_char c) = lower_char c" "lower_char (lower_char c) = lower_char c"
  "upper_char (lower_char c) = upper_char c" "upper_char (upper_char c) = upper_char c"
  "lower_char c = CHR ''-'' \<longleftrightarrow> c = CHR ''-''" "upper_char c = CHR ''-'' \<longleftrightarrow> c = CHR ''-''"
  by (simp_all only: char_eq_nat lower_char_nat upper_char_nat Let_def) auto

lemma map_runes_ascii:
  assumes "ascii s" "\<forall>(w, r) \<in> set sp. w \<noteq> [] \<and> CHR 0x80 \<le> hd w"
  shows "map_runes sp f s = map f s"
  using assms
proof (induction s)
  case (Cons c s)
  have "find (\<lambda>(w, r). w \<noteq> [] \<and> has_prefix (c # s) w) sp = None"
  proof -
    have "\<not> has_prefix (c # s) w" if "(w, r) \<in> set sp" for w r
      using Cons.prems that by (cases w) (auto simp: ascii_def)
    then show ?thesis by (auto simp: find_None_iff)
  qed
  with Cons show ?case by (simp add: ascii_def)
qed simp

lemma to_lower_ascii: "ascii s \<Longrightarrow> to_lower s = map lower_char s"
  unfolding to_lower_def by (rule map_runes_ascii) auto

lemma to_upper_ascii: "ascii s \<Longrightarrow> to_upper s = map upper_char s"
  unfolding to_upper_def by (rule map_runes_ascii) auto

lemma fold_case_ascii: "ascii s \<Longrightarrow> fold_case s = map lower_char s"
  unfolding fold_case_def by (rule map_runes_ascii) auto

section \<open>Numbers and hexadecimal\<close>

definition hex_digits :: string where
  "hex_digits = ''0123456789abcdef''"

definition digit_char :: "nat \<Rightarrow> char" where
  "digit_char d = hex_digits ! d"

fun dec_of_nat :: "nat \<Rightarrow> string" where
  "dec_of_nat n = (if n < 10 then [digit_char n] else dec_of_nat (n div 10) @ [digit_char (n mod 10)])"

declare dec_of_nat.simps [simp del]

definition dec_of_int :: "int \<Rightarrow> string" where
  "dec_of_int i = (if i < 0 then CHR ''-'' # dec_of_nat (nat (- i)) else dec_of_nat (nat i))"

definition hex_encode :: "string \<Rightarrow> string" where
  "hex_encode s = concat (map (\<lambda>c. [digit_char (of_char c div 16), digit_char (of_char c mod 16)]) s)"

lemma digit_char_inj: "a < 16 \<Longrightarrow> b < 16 \<Longrightarrow> digit_char a = digit_char b \<Longrightarrow> a = b"
proof -
  have "distinct hex_digits" "length hex_digits = 16" by (simp_all add: hex_digits_def)
  then show "a < 16 \<Longrightarrow> b < 16 \<Longrightarrow> digit_char a = digit_char b \<Longrightarrow> a = b"
    by (simp add: digit_char_def nth_eq_iff_index_eq)
qed

lemma digit_char_mem: "d < 16 \<Longrightarrow> digit_char d \<in> set hex_digits"
  unfolding digit_char_def by (rule nth_mem) (simp add: hex_digits_def)

lemma hex_encode_simps [simp]:
  "hex_encode [] = []"
  "hex_encode (c # s) =
     digit_char (of_char c div 16) # digit_char (of_char c mod 16) # hex_encode s"
  by (simp_all add: hex_encode_def)

lemma of_char_less: "(of_char c :: nat) < 256"
  using of_char_of [of "of_char c :: nat"] by (metis char_of_eq_iff mod_less_divisor of_char_mod_256 zero_less_numeral)

lemma hex_encode_inj: "hex_encode s = hex_encode t \<Longrightarrow> s = t"
proof (induction s arbitrary: t)
  case Nil
  then show ?case by (cases t) auto
next
  case (Cons c s)
  then obtain d t' where t: "t = d # t'" by (cases t) auto
  have lt: "(of_char x :: nat) div 16 < 16" "(of_char x :: nat) mod 16 < 16" for x :: char
    using of_char_less [of x] by (auto simp: div_less_iff_less_mult)
  from Cons.prems t have
    "(of_char c :: nat) div 16 = of_char d div 16" "(of_char c :: nat) mod 16 = of_char d mod 16"
    by (auto intro: digit_char_inj lt)
  then have "(of_char c :: nat) = of_char d" by (metis div_mult_mod_eq)
  then have "c = d" by simp
  with Cons t show ?case by simp
qed

lemma hex_encode_chars: "set (hex_encode s) \<subseteq> set hex_digits"
proof (induction s)
  case (Cons c s)
  have "(of_char c :: nat) div 16 < 16" "(of_char c :: nat) mod 16 < 16"
    using of_char_less [of c] by (auto simp: div_less_iff_less_mult)
  with Cons digit_char_mem show ?case by simp
qed simp

section \<open>UTF-8\<close>

text \<open>
  The byte length of the code point a string starts with, as \<open>utf8.DecodeRune\<close> finds it; 0 where
  the bytes are no valid encoding (Go then yields the replacement character and advances by one).
\<close>

definition continuation :: "nat \<Rightarrow> nat \<Rightarrow> char \<Rightarrow> bool" where
  "continuation lo hi c \<longleftrightarrow> lo \<le> of_char c \<and> (of_char c :: nat) \<le> hi"

definition rune_width :: "string \<Rightarrow> nat" where
  "rune_width s = (case s of [] \<Rightarrow> 0 | c # t \<Rightarrow>
     let b = (of_char c :: nat);
         more = (\<lambda>lo hi n. length t \<ge> n \<and> continuation lo hi (t ! 0)
                  \<and> list_all (continuation 0x80 0xBF) (take (n - 1) (drop 1 t)))
     in if b < 0x80 then 1
        else if b < 0xC2 then 0
        else if b < 0xE0 then (if more 0x80 0xBF 1 then 2 else 0)
        else if b = 0xE0 then (if more 0xA0 0xBF 2 then 3 else 0)
        else if b = 0xED then (if more 0x80 0x9F 2 then 3 else 0)
        else if b < 0xF0 then (if more 0x80 0xBF 2 then 3 else 0)
        else if b = 0xF0 then (if more 0x90 0xBF 3 then 4 else 0)
        else if b < 0xF4 then (if more 0x80 0xBF 3 then 4 else 0)
        else if b = 0xF4 then (if more 0x80 0x8F 3 then 4 else 0)
        else 0)"

function valid_utf8 :: "string \<Rightarrow> bool" where
  "valid_utf8 [] = True"
| "valid_utf8 (c # s) =
     (let w = rune_width (c # s) in w \<noteq> 0 \<and> valid_utf8 (drop (w - 1) s))"
  by pat_completeness auto
termination
  by (relation "measure length") auto

lemma rune_width_ascii: "c < CHR 0x80 \<Longrightarrow> rune_width (c # s) = 1"
  by (simp add: rune_width_def less_char_def Let_def)

lemma valid_utf8_ascii: "ascii s \<Longrightarrow> valid_utf8 s"
  by (induction s) (auto simp: ascii_def rune_width_ascii Let_def)

section \<open>Header names\<close>

text \<open>The characters of an HTTP token, in the order the plugin's \<open>validHeaderName\<close> lists them.\<close>

definition token_chars :: string where
  "token_chars = [CHR ''!'', CHR 0x23, CHR ''$'', CHR ''%'', CHR ''&'', CHR 0x27, CHR ''*'',
     CHR ''+'', CHR ''-'', CHR ''.'', CHR ''^'', CHR ''_'', CHR 0x60, CHR ''|'', CHR ''~'']
     @ ''0123456789abcdefghijklmnopqrstuvwxyzABCDEFGHIJKLMNOPQRSTUVWXYZ''"

definition token_char :: "char \<Rightarrow> bool" where
  "token_char c \<longleftrightarrow> c \<in> set token_chars"

fun canonical_case :: "bool \<Rightarrow> string \<Rightarrow> string" where
  "canonical_case up [] = []"
| "canonical_case up (c # s) =
     (if up then upper_char c else lower_char c) # canonical_case (c = CHR ''-'') s"

text \<open>\<open>http.CanonicalHeaderKey\<close>: a name with a character that is no token character is unchanged.\<close>

definition canonical_header_key :: "string \<Rightarrow> string" where
  "canonical_header_key s = (if list_all token_char s then canonical_case True s else s)"


section \<open>Text without white space\<close>

lemma find_white_None:
  assumes "CHR 0x20 < c" "c < CHR 0x7F"
  shows "find (\<lambda>w. w \<noteq> [] \<and> has_prefix (c # s) w) white_space = None"
    "find (\<lambda>w. w \<noteq> [] \<and> has_prefix (c # s) w) (map rev white_space) = None"
proof -
  have "list_all (\<lambda>w. w = [] \<or> hd w \<le> CHR 0x20 \<or> CHR 0x7F \<le> hd w) white_space"
    "list_all (\<lambda>w. w = [] \<or> hd w \<le> CHR 0x20 \<or> CHR 0x7F \<le> hd w) (map rev white_space)"
    by code_simp+
  moreover have "\<not> (w \<noteq> [] \<and> has_prefix (c # s) w)"
    if "w = [] \<or> hd w \<le> CHR 0x20 \<or> CHR 0x7F \<le> hd w" for w
    using that assms by (cases w) (auto dest: leD)
  ultimately show "find (\<lambda>w. w \<noteq> [] \<and> has_prefix (c # s) w) white_space = None"
    "find (\<lambda>w. w \<noteq> [] \<and> has_prefix (c # s) w) (map rev white_space) = None"
    unfolding find_None_iff list_all_iff by blast+
qed

lemma trim_space_plain:
  assumes "\<And>c. c \<in> set s \<Longrightarrow> CHR 0x20 < c \<and> c < CHR 0x7F"
  shows "trim_space s = s"
proof (cases s)
  case (Cons c t)
  obtain d u where r: "rev s = d # u" using Cons by (cases "rev s") auto
  then have "d \<in> set s" by (metis list.set_intros(1) set_rev)
  have "trim_left_space s = s"
    using assms [of c] Cons find_white_None(1) [of c t] by (simp add: trim_left_space_def)
  moreover have "trim_right_space s = s"
    using assms [OF \<open>d \<in> set s\<close>] find_white_None(2) [of d u] r
    by (simp add: trim_right_space_def)
  ultimately show ?thesis by (simp add: trim_space_def)
qed (simp add: trim_space_def trim_left_space_def trim_right_space_def)

end
