(* ===== verification/GoHttp.thy ===== *)
theory GoHttp
  imports GoStrings
begin

text \<open>
  The parts of Go's \<open>net/http\<close> that the plugin reads a request with: the request itself, header
  lookup, the cookie parser, and a request body as a reader that yields bytes and then ends or
  fails.
\<close>

text \<open>A reader: the bytes it still yields, and whether it then fails instead of ending.\<close>

record bodyReader =
  b_bytes :: string
  b_fails :: bool

record httpRequest =
  h_method :: string
  h_host :: string
  h_path :: string
  h_rawPath :: string
  h_rawQuery :: string
  h_header :: "string list gomap"
  h_remoteAddr :: string
  h_tls :: bool
  h_proto :: string
  h_contentLength :: int
  h_transferEncoding :: "string list"
  h_body :: "bodyReader option"

definition header_values :: "string list gomap \<Rightarrow> string \<Rightarrow> string list" where
  "header_values h name =
     (case map_of h (canonical_header_key name) of None \<Rightarrow> [] | Some vs \<Rightarrow> vs)"

definition header_get :: "string list gomap \<Rightarrow> string \<Rightarrow> string" where
  "header_get h name = (case header_values h name of [] \<Rightarrow> [] | v # _ \<Rightarrow> v)"

section \<open>Cookies\<close>

text \<open>\<open>validCookieValueByte\<close> and \<open>parseCookieValue\<close>, \<open>None\<close> where it reports failure.\<close>

definition cookie_value_byte :: "char \<Rightarrow> bool" where
  "cookie_value_byte c \<longleftrightarrow>
     CHR 0x20 \<le> c \<and> c < CHR 0x7F \<and> c \<noteq> CHR 0x22 \<and> c \<noteq> CHR '';'' \<and> c \<noteq> CHR 0x5C"

definition parse_cookie_value :: "string \<Rightarrow> string option" where
  "parse_cookie_value raw =
     (let quoted = 1 < length raw \<and> hd raw = CHR 0x22 \<and> last raw = CHR 0x22;
          v = (if quoted then butlast (tl raw) else raw)
      in if list_all cookie_value_byte v then Some v else None)"

definition is_token :: "string \<Rightarrow> bool" where
  "is_token s \<longleftrightarrow> s \<noteq> [] \<and> list_all token_char s"

text \<open>One part of a \<open>Cookie\<close> header: the cookies it contributes.\<close>

definition read_cookie_part :: "string \<Rightarrow> (string \<times> string) list" where
  "read_cookie_part part0 =
     (let part = trim_string part0 in
      if part = [] then []
      else case cut CHR ''='' part of (name0, raw, found) \<Rightarrow>
        let name = trim_string name0 in
        if \<not> is_token name then []
        else (case parse_cookie_value raw of None \<Rightarrow> [] | Some v \<Rightarrow> [(name, v)]))"

text \<open>\<open>Request.Cookies\<close>: names and values in the order they arrive.\<close>

definition request_cookies :: "httpRequest \<Rightarrow> (string \<times> string) list" where
  "request_cookies r =
     concat (map (\<lambda>line. concat (map read_cookie_part (split CHR '';'' (trim_string line))))
       (case map_of (h_header r) ''Cookie'' of None \<Rightarrow> [] | Some ls \<Rightarrow> ls))"

lemma read_cookie_part_valid:
  "(n, v) \<in> set (read_cookie_part p) \<Longrightarrow> is_token n \<and> list_all cookie_value_byte v"
  by (auto simp: read_cookie_part_def parse_cookie_value_def Let_def
      split: if_splits prod.splits option.splits)

text \<open>Every cookie the parser yields has a token as its name and only plain bytes in its value.\<close>

lemma request_cookies_valid:
  "(n, v) \<in> set (request_cookies r) \<Longrightarrow> is_token n \<and> list_all cookie_value_byte v"
  by (auto simp: request_cookies_def dest: read_cookie_part_valid)

end
