(* ===== verification/GoNet.thy ===== *)
theory GoNet
  imports GoStrings "HOL-Library.Word"
begin

text \<open>
  The parts of Go's \<open>net\<close> and \<open>net/netip\<close> packages that the plugin calls: addresses and networks
  as byte slices, their text forms, masks, membership and the address classes. A Go \<open>net.IP\<close> is a
  slice of 4 or 16 bytes, or \<open>nil\<close>, the empty list here; calls that return \<open>nil\<close> for a failure
  return \<open>None\<close>.
\<close>

unbundle bit_operations_syntax

section \<open>Addresses and networks\<close>

type_synonym ip = "8 word list"

record ipNet =
  net_ip :: ip
  net_mask :: ip

definition v4InV6Prefix :: ip where
  "v4InV6Prefix = [0, 0, 0, 0, 0, 0, 0, 0, 0, 0, 0xFF, 0xFF]"

definition to4 :: "ip \<Rightarrow> ip option" where
  "to4 ip = (if length ip = 4 then Some ip
             else if length ip = 16 \<and> take 12 ip = v4InV6Prefix then Some (drop 12 ip)
             else None)"

definition to16 :: "ip \<Rightarrow> ip option" where
  "to16 ip = (if length ip = 4 then Some (v4InV6Prefix @ ip)
              else if length ip = 16 then Some ip else None)"

definition ip_equal :: "ip \<Rightarrow> ip \<Rightarrow> bool" where
  "ip_equal x y \<longleftrightarrow>
     (if length x = length y then x = y
      else if length x = 4 \<and> length y = 16 then take 12 y = v4InV6Prefix \<and> x = drop 12 y
      else if length x = 16 \<and> length y = 4 then take 12 x = v4InV6Prefix \<and> drop 12 x = y
      else False)"

definition and_bytes :: "ip \<Rightarrow> ip \<Rightarrow> ip" where
  "and_bytes x m = map2 (AND) x m"

text \<open>\<open>IP.Mask\<close>, \<open>None\<close> where it returns \<open>nil\<close>.\<close>

definition ip_mask :: "ip \<Rightarrow> ip \<Rightarrow> ip option" where
  "ip_mask ip m =
     (let m' = (if length m = 16 \<and> length ip = 4 \<and> list_all (\<lambda>b. b = 0xFF) (take 12 m)
                then drop 12 m else m);
          ip' = (if length m' = 4 \<and> length ip = 16 \<and> take 12 ip = v4InV6Prefix
                 then drop 12 ip else ip)
      in if length ip' = length m' then Some (and_bytes ip' m') else None)"

text \<open>\<open>networkNumberAndMask\<close> and \<open>IPNet.Contains\<close>.\<close>

definition network_number_and_mask :: "ipNet \<Rightarrow> (ip \<times> ip) option" where
  "network_number_and_mask n =
     (let ip = (case to4 (net_ip n) of Some x \<Rightarrow> x | None \<Rightarrow> net_ip n); m = net_mask n in
      if length ip \<noteq> 4 \<and> length ip \<noteq> 16 then None
      else if length m = 4 then (if length ip = 4 then Some (ip, m) else None)
      else if length m = 16 then Some (ip, if length ip = 4 then drop 12 m else m)
      else None)"

definition net_contains :: "ipNet \<Rightarrow> ip \<Rightarrow> bool" where
  "net_contains n ip =
     (case network_number_and_mask n of
        None \<Rightarrow> ip = [] \<and> to4 ip = None
      | Some (nn, m) \<Rightarrow>
          let x = (case to4 ip of Some y \<Rightarrow> y | None \<Rightarrow> ip)
          in length x = length nn \<and> and_bytes nn m = and_bytes x m)"

section \<open>Classes of addresses\<close>

definition ipv6loopback :: ip where
  "ipv6loopback = [0, 0, 0, 0, 0, 0, 0, 0, 0, 0, 0, 0, 0, 0, 0, 1]"

definition is_unspecified :: "ip \<Rightarrow> bool" where
  "is_unspecified ip \<longleftrightarrow> ip_equal ip (v4InV6Prefix @ [0, 0, 0, 0]) \<or> ip_equal ip (replicate 16 0)"

definition is_loopback :: "ip \<Rightarrow> bool" where
  "is_loopback ip = (case to4 ip of Some x \<Rightarrow> x ! 0 = 127 | None \<Rightarrow> ip_equal ip ipv6loopback)"

definition is_private :: "ip \<Rightarrow> bool" where
  "is_private ip =
     (case to4 ip of
        Some x \<Rightarrow> x ! 0 = 10 \<or> (x ! 0 = 172 \<and> x ! 1 AND 0xF0 = 16) \<or> (x ! 0 = 192 \<and> x ! 1 = 168)
      | None \<Rightarrow> length ip = 16 \<and> ip ! 0 AND 0xFE = 0xFC)"

definition is_multicast :: "ip \<Rightarrow> bool" where
  "is_multicast ip =
     (case to4 ip of
        Some x \<Rightarrow> x ! 0 AND 0xF0 = 0xE0
      | None \<Rightarrow> length ip = 16 \<and> ip ! 0 = 0xFF)"

definition is_link_local_multicast :: "ip \<Rightarrow> bool" where
  "is_link_local_multicast ip =
     (case to4 ip of
        Some x \<Rightarrow> x ! 0 = 224 \<and> x ! 1 = 0 \<and> x ! 2 = 0
      | None \<Rightarrow> length ip = 16 \<and> ip ! 0 = 0xFF \<and> ip ! 1 AND 0x0F = 0x02)"

definition is_link_local_unicast :: "ip \<Rightarrow> bool" where
  "is_link_local_unicast ip =
     (case to4 ip of
        Some x \<Rightarrow> x ! 0 = 169 \<and> x ! 1 = 254
      | None \<Rightarrow> length ip = 16 \<and> ip ! 0 = 0xFE \<and> ip ! 1 AND 0xC0 = 0x80)"

definition is_global_unicast :: "ip \<Rightarrow> bool" where
  "is_global_unicast ip \<longleftrightarrow>
     (length ip = 4 \<or> length ip = 16) \<and> \<not> ip_equal ip (v4InV6Prefix @ [255, 255, 255, 255])
     \<and> \<not> is_unspecified ip \<and> \<not> is_loopback ip \<and> \<not> is_multicast ip \<and> \<not> is_link_local_unicast ip"

section \<open>Text forms\<close>

definition is_digit :: "char \<Rightarrow> bool" where
  "is_digit c \<longleftrightarrow> CHR ''0'' \<le> c \<and> c \<le> CHR ''9''"

definition digit_value :: "char \<Rightarrow> nat" where
  "digit_value c = of_char c - 48"

definition is_hex :: "char \<Rightarrow> bool" where
  "is_hex c \<longleftrightarrow> is_digit c \<or> (CHR ''a'' \<le> c \<and> c \<le> CHR ''f'') \<or> (CHR ''A'' \<le> c \<and> c \<le> CHR ''F'')"

definition hex_value :: "char \<Rightarrow> nat" where
  "hex_value c = (if is_digit c then of_char c - 48
                  else if CHR ''a'' \<le> c then of_char c - 87 else of_char c - 55)"

text \<open>
  \<open>parseIPv4Fields\<close>: \<open>start\<close> holds at the first character and after a dot, \<open>val\<close> and \<open>n\<close> are the
  value and the number of digits of the current field, \<open>acc\<close> the finished fields.
\<close>

fun ipv4_fields :: "string \<Rightarrow> bool \<Rightarrow> nat \<Rightarrow> nat \<Rightarrow> nat list \<Rightarrow> nat list option" where
  "ipv4_fields [] start val n acc = (if length acc < 3 then None else Some (acc @ [val]))"
| "ipv4_fields (c # s) start val n acc =
     (if is_digit c then
        (if n = 1 \<and> val = 0 then None
         else if 255 < val * 10 + digit_value c then None
         else ipv4_fields s False (val * 10 + digit_value c) (n + 1) acc)
      else if c = CHR ''.'' then
        (if start \<or> s = [] then None
         else if length acc = 3 then None
         else ipv4_fields s True 0 0 (acc @ [val]))
      else None)"

definition bytes_of :: "nat list \<Rightarrow> ip" where
  "bytes_of ns = map word_of_nat ns"

definition parse_ipv4 :: "string \<Rightarrow> ip option" where
  "parse_ipv4 s = map_option bytes_of (ipv4_fields s True 0 0 [])"

text \<open>
  The loop of \<open>parseIPv6\<close>: the rest of the text, the bytes so far, the position of the ellipsis.
\<close>

function ipv6_groups :: "string \<Rightarrow> nat list \<Rightarrow> nat option \<Rightarrow> (string \<times> nat list \<times> nat option) option"
where
  "ipv6_groups s acc ell =
     (if 16 \<le> length acc then Some (s, acc, ell)
      else let ds = takeWhile is_hex s; rest = dropWhile is_hex s;
               v = foldl (\<lambda>a c. a * 16 + hex_value c) 0 ds;
               acc' = acc @ [v div 256, v mod 256] in
        if 4 < length ds \<or> ds = [] then None
        else (case rest of
          [] \<Rightarrow> Some ([], acc', ell)
        | c # r \<Rightarrow>
            if c = CHR ''.'' then
              (if ell = None \<and> length acc \<noteq> 12 then None
               else if 16 < length acc + 4 then None
               else (case ipv4_fields s True 0 0 [] of
                       None \<Rightarrow> None | Some fs \<Rightarrow> Some ([], acc @ fs, ell)))
            else if c \<noteq> CHR '':'' then None
            else (case r of
              [] \<Rightarrow> None
            | c2 # r2 \<Rightarrow>
                if c2 = CHR '':'' then
                  (if ell \<noteq> None then None
                   else if r2 = [] then Some ([], acc', Some (length acc'))
                   else ipv6_groups r2 acc' (Some (length acc')))
                else ipv6_groups r acc' ell)))"
  by pat_completeness auto
termination
proof (relation "measure (\<lambda>(s, acc, ell). length s)", goal_cases)
  case (2 s acc ell ds rest v acc' c r c2 r2)
  then have "length (c # c2 # r2) \<le> length s"
    using length_dropWhile_le [of is_hex s] by metis
  then show ?case by simp
next
  case (3 s acc ell ds rest v acc' c r c2 r2)
  then have "length (c # r) \<le> length s"
    using length_dropWhile_le [of is_hex s] by metis
  then show ?case by simp
qed simp

declare ipv6_groups.simps [simp del]

definition parse_ipv6_bytes :: "string \<Rightarrow> nat list option" where
  "parse_ipv6_bytes s =
     (let ell0 = (if has_prefix s ''::'' then Some 0 else None);
          s0 = (if has_prefix s ''::'' then drop 2 s else s)
      in if ell0 \<noteq> None \<and> s0 = [] then Some (replicate 16 0)
         else (case ipv6_groups s0 [] ell0 of
           None \<Rightarrow> None
         | Some (rest, acc, ell) \<Rightarrow>
             if rest \<noteq> [] then None
             else if length acc < 16 then
               (case ell of
                  None \<Rightarrow> None
                | Some e \<Rightarrow> Some (take e acc @ replicate (16 - length acc) 0 @ drop e acc))
             else if ell \<noteq> None then None
             else Some acc))"

text \<open>\<open>netip.ParseAddr\<close>: an IPv4 address, or an IPv6 address with its zone.\<close>

datatype addr = AddrV4 ip | AddrV6 ip string

definition parse_addr :: "string \<Rightarrow> addr option" where
  "parse_addr s =
     (case find (\<lambda>c. c = CHR ''.'' \<or> c = CHR '':'' \<or> c = CHR ''%'') s of
        None \<Rightarrow> None
      | Some c \<Rightarrow>
          if c = CHR ''.'' then map_option AddrV4 (parse_ipv4 s)
          else if c = CHR '':'' then
            (case cut CHR ''%'' s of (body, zone, found) \<Rightarrow>
               if found \<and> zone = [] then None
               else map_option (\<lambda>ns. AddrV6 (bytes_of ns) zone) (parse_ipv6_bytes body))
          else None)"

text \<open>\<open>net.ParseIP\<close>: always the 16-byte form; addresses with a zone are refused.\<close>

definition parse_ip :: "string \<Rightarrow> ip option" where
  "parse_ip s =
     (case parse_addr s of
        Some (AddrV4 b) \<Rightarrow> Some (v4InV6Prefix @ b)
      | Some (AddrV6 b zone) \<Rightarrow> (if zone = [] then Some b else None)
      | None \<Rightarrow> None)"

text \<open>\<open>net.CIDRMask\<close>, for \<open>n\<close> leading one bits in \<open>k\<close> bytes.\<close>

fun cidr_mask :: "nat \<Rightarrow> nat \<Rightarrow> ip" where
  "cidr_mask n 0 = []"
| "cidr_mask n (Suc k) =
     (if 8 \<le> n then 0xFF # cidr_mask (n - 8) k
      else NOT (drop_bit n 0xFF) # cidr_mask 0 k)"

text \<open>\<open>net.ParseCIDR\<close>: the address in its 16-byte form and the network.\<close>

definition parse_cidr :: "string \<Rightarrow> (ip \<times> ipNet) option" where
  "parse_cidr s =
     (case cut CHR ''/'' s of (a, m, found) \<Rightarrow>
        if \<not> found then None
        else let n = foldl (\<lambda>v c. v * 10 + int (digit_value c)) 0 m in
          if m = [] \<or> \<not> list_all is_digit m \<or> 0xFFFFFF \<le> n then None
          else (case parse_addr a of
            Some (AddrV4 b) \<Rightarrow>
              (if 32 < n then None
               else let ip = v4InV6Prefix @ b; mask = cidr_mask (nat n) 4
                    in Some (ip, \<lparr>net_ip = (case ip_mask ip mask of Some x \<Rightarrow> x | None \<Rightarrow> []),
                                  net_mask = mask\<rparr>))
          | Some (AddrV6 b zone) \<Rightarrow>
              (if zone \<noteq> [] \<or> 128 < n then None
               else let mask = cidr_mask (nat n) 16
                    in Some (b, \<lparr>net_ip = (case ip_mask b mask of Some x \<Rightarrow> x | None \<Rightarrow> []),
                                 net_mask = mask\<rparr>))
          | None \<Rightarrow> None))"

text \<open>\<open>IP.String\<close>, with the longest run of zero groups of an IPv6 address compressed.\<close>

definition hex_of_group :: "int \<Rightarrow> string" where
  "hex_of_group n =
     (let ds = map (\<lambda>d. digit_char (nat (d mod 16))) [n div 4096, n div 256, n div 16]
      in dropWhile (\<lambda>c. c = CHR ''0'') ds @ [digit_char (nat (n mod 16))])"

definition groups_of :: "ip \<Rightarrow> int list" where
  "groups_of ip = map (\<lambda>i. uint (ip ! (2 * i)) * 256 + uint (ip ! (2 * i + 1))) [0..<8]"

definition zero_run :: "int list \<Rightarrow> nat \<Rightarrow> nat" where
  "zero_run gs i = length (takeWhile (\<lambda>g. g = 0) (drop i gs))"

definition longest_zero_run :: "int list \<Rightarrow> (nat \<times> nat) option" where
  "longest_zero_run gs =
     foldl (\<lambda>best i. let l = zero_run gs i in
        if 2 \<le> l \<and> (case best of None \<Rightarrow> True | Some (a, b) \<Rightarrow> b - a < l) then Some (i, i + l)
        else best) None [0..<8]"

definition ip_string :: "ip \<Rightarrow> string" where
  "ip_string ip =
     (if ip = [] then ''<nil>''
      else case to4 ip of
        Some b \<Rightarrow> join (map (\<lambda>x. dec_of_nat (unat x)) b) ''.''
      | None \<Rightarrow>
          if length ip \<noteq> 16
          then CHR ''?'' # hex_encode (map (\<lambda>b. char_of (unat b)) ip)
          else let gs = groups_of ip in
            (case longest_zero_run gs of
               None \<Rightarrow> join (map hex_of_group gs) '':''
             | Some (i, j) \<Rightarrow>
                 join (map hex_of_group (take i gs)) '':'' @ ''::''
                 @ join (map hex_of_group (drop j gs)) '':''))"

definition mask_length :: "ip \<Rightarrow> nat option" where
  "mask_length m = find (\<lambda>n. cidr_mask n (length m) = m) [0..<8 * length m + 1]"

text \<open>\<open>IPNet.String\<close>; a mask that is no prefix mask prints in hexadecimal.\<close>

definition net_string :: "ipNet \<Rightarrow> string" where
  "net_string n =
     (case network_number_and_mask n of
        None \<Rightarrow> ''<nil>''
      | Some (nn, m) \<Rightarrow>
          ip_string nn @ ''/'' @
          (case mask_length m of
             Some l \<Rightarrow> dec_of_nat l
           | None \<Rightarrow> hex_encode (map (\<lambda>b. char_of (unat b)) m)))"

section \<open>Host and port\<close>

fun index_of :: "char \<Rightarrow> string \<Rightarrow> nat option" where
  "index_of c [] = None"
| "index_of c (x # s) = (if x = c then Some 0 else map_option Suc (index_of c s))"

definition last_index_of :: "char \<Rightarrow> string \<Rightarrow> nat option" where
  "last_index_of c s = map_option (\<lambda>i. length s - 1 - i) (index_of c (rev s))"

text \<open>\<open>net.SplitHostPort\<close>.\<close>

definition split_host_port :: "string \<Rightarrow> (string \<times> string) option" where
  "split_host_port hp =
     (case last_index_of CHR '':'' hp of
        None \<Rightarrow> None
      | Some i \<Rightarrow>
          let port = drop (i + 1) hp in
          if has_prefix hp ''[''
          then (case index_of CHR '']'' hp of
                  None \<Rightarrow> None
                | Some e \<Rightarrow>
                    if e + 1 \<noteq> i then None
                    else if contains_char (drop 1 hp) CHR ''['' \<or> contains_char (drop (e + 1) hp) CHR '']''
                    then None
                    else Some (take (e - 1) (drop 1 hp), port))
          else if contains_char (take i hp) CHR '':'' then None
          else if contains_char hp CHR ''['' \<or> contains_char hp CHR '']'' then None
          else Some (take i hp, port))"

section \<open>Shapes of parsed addresses\<close>

lemma ipv4_fields_length:
  "ipv4_fields s start val n acc = Some fs \<Longrightarrow> length acc \<le> 3 \<Longrightarrow> length fs = 4"
  by (induction s start val n acc rule: ipv4_fields.induct) (auto split: if_splits)

lemma parse_ipv4_length: "parse_ipv4 s = Some b \<Longrightarrow> length b = 4"
  by (auto simp: parse_ipv4_def bytes_of_def dest: ipv4_fields_length)

lemma ipv6_groups_length:
  "ipv6_groups s acc ell = Some (rest, acc', ell') \<Longrightarrow> even (length acc) \<Longrightarrow> length acc \<le> 16 \<Longrightarrow>
     (\<forall>e. ell = Some e \<longrightarrow> e \<le> length acc) \<Longrightarrow>
     length acc' \<le> 16 \<and> (\<forall>e. ell' = Some e \<longrightarrow> e \<le> length acc')"
proof (induction s acc ell rule: ipv6_groups.induct)
  case (1 s acc ell)
  let ?ds = "takeWhile is_hex s"
  let ?v = "foldl (\<lambda>a c. a * 16 + hex_value c) 0 ?ds"
  let ?acc = "acc @ [?v div 256, ?v mod 256]"
  show ?case
  proof (cases "16 \<le> length acc")
    case True
    with "1.prems" show ?thesis by (simp add: ipv6_groups.simps [of s acc ell])
  next
    case False
    then have grow: "length ?acc \<le> 16" "even (length ?acc)"
      using "1.prems"(2) by (simp_all, presburger)
    have ds: "\<not> (4 < length ?ds \<or> ?ds = [])"
      using "1.prems"(1) False by (auto simp: ipv6_groups.simps [of s acc ell] Let_def)
    note eq = "1.prems"(1) [unfolded ipv6_groups.simps [of s acc ell] Let_def,
        unfolded if_not_P [OF False] if_not_P [OF ds]]
    show ?thesis
    proof (cases "dropWhile is_hex s")
      case Nil
      with eq grow "1.prems"(4) show ?thesis by auto
    next
      case r: (Cons c r)
      note eq' = eq [unfolded r list.case]
      consider (dot) "c = CHR ''.''" | (colon) "c = CHR '':''" | (other) "c \<noteq> CHR ''.''" "c \<noteq> CHR '':''"
        by blast
      then show ?thesis
      proof cases
        case dot
        with eq' "1.prems"(4) show ?thesis
          by (auto split: if_splits option.splits dest!: ipv4_fields_length)
      next
        case colon
        show ?thesis
        proof (cases r)
          case Nil
          with eq' colon show ?thesis by simp
        next
          case r2: (Cons c2 r2)
          show ?thesis
          proof (cases "c2 = CHR '':''")
            case True
            with eq' colon r2 grow show ?thesis
              using "1.IH"(1) [OF False refl refl refl refl ds r _ _ r2]
              by (auto split: if_splits)
          next
            case c2: False
            with eq' colon r2 have "ipv6_groups r ?acc ell = Some (rest, acc', ell')" by simp
            moreover have "\<forall>e. ell = Some e \<longrightarrow> e \<le> length ?acc"
              using "1.prems"(4) by auto
            ultimately show ?thesis
              using "1.IH"(2) [OF False refl refl refl refl ds r _ _ r2] colon c2 grow
              by blast
          qed
        qed
      next
        case other
        with eq' show ?thesis by simp
      qed
    qed
  qed
qed

lemma parse_ipv6_bytes_length: "parse_ipv6_bytes s = Some ns \<Longrightarrow> length ns = 16"
  unfolding parse_ipv6_bytes_def Let_def
  by (auto split: if_splits option.splits dest!: ipv6_groups_length)

lemma parse_ip_length: "parse_ip s = Some ip \<Longrightarrow> length ip = 16"
  by (auto simp: parse_ip_def parse_addr_def bytes_of_def v4InV6Prefix_def
      split: if_splits option.splits addr.splits prod.splits
      dest!: parse_ipv4_length parse_ipv6_bytes_length)

lemma to4_length: "to4 ip = Some x \<Longrightarrow> length x = 4"
  by (auto simp: to4_def split: if_splits)

lemma digit_char_is_digit: "n < 10 \<Longrightarrow> is_digit (digit_char n)"
proof -
  have "list_all (\<lambda>n. is_digit (digit_char n)) [0..<10]" by code_simp
  then show "n < 10 \<Longrightarrow> is_digit (digit_char n)" by (simp add: list_all_iff)
qed

lemma dec_of_nat_digits: "list_all is_digit (dec_of_nat n)"
proof (induction n rule: dec_of_nat.induct)
  case (1 n)
  then show ?case using digit_char_is_digit [of n] digit_char_is_digit [of "n mod 10"]
    by (subst dec_of_nat.simps) auto
qed

end
