(* ===== verification/GoPath.thy ===== *)
theory GoPath
  imports GoStrings
begin

text \<open>
  The parts of Go's \<open>path/filepath\<close> on Unix that the plugin calls: \<open>IsAbs\<close>, \<open>Clean\<close>, \<open>Join\<close> and
  \<open>Rel\<close>, over the slash-separated elements of a path. The key fact is \<open>rel_escapes\<close>: between
  absolute paths the relative path leaves the base exactly when the elements of the base do not
  begin those of the target.
\<close>

definition is_abs :: "string \<Rightarrow> bool" where
  "is_abs path = has_prefix path ''/''"

text \<open>One element after the other, with the elements kept so far in reverse.\<close>

fun clean_elements :: "bool \<Rightarrow> string list \<Rightarrow> string list \<Rightarrow> string list" where
  "clean_elements rooted kept [] = rev kept"
| "clean_elements rooted kept (s # ss) =
     (if s = [] \<or> s = ''.'' then clean_elements rooted kept ss
      else if s = ''..'' then
        (case kept of
           k # ks \<Rightarrow> if k \<noteq> ''..'' then clean_elements rooted ks ss
                     else clean_elements rooted (s # kept) ss
         | [] \<Rightarrow> if rooted then clean_elements rooted [] ss else clean_elements rooted [s] ss)
      else clean_elements rooted (s # kept) ss)"

definition elements :: "string \<Rightarrow> string list" where
  "elements path = clean_elements (is_abs path) [] (split CHR ''/'' path)"

definition path_clean :: "string \<Rightarrow> string" where
  "path_clean path =
     (if is_abs path then CHR ''/'' # join (elements path) ''/''
      else if elements path = [] then ''.'' else join (elements path) ''/'')"

definition path_join :: "string \<Rightarrow> string \<Rightarrow> string" where
  "path_join a b =
     (if a \<noteq> [] then path_clean (a @ ''/'' @ b) else if b \<noteq> [] then path_clean b else [])"

text \<open>The elements that are left of two lists after their common beginning.\<close>

fun drop_common :: "string list \<Rightarrow> string list \<Rightarrow> string list \<times> string list" where
  "drop_common (b # bs) (t # ts) = (if b = t then drop_common bs ts else (b # bs, t # ts))"
| "drop_common bs ts = (bs, ts)"

definition path_rel :: "string \<Rightarrow> string \<Rightarrow> string option" where
  "path_rel base targ =
     (if path_clean targ = path_clean base then Some ''.''
      else if is_abs base \<noteq> is_abs targ then None
      else let ts0 = (if path_clean targ = ''.'' then [''.''] else elements targ) in
        case drop_common (elements base) ts0 of
          (bs, ts) \<Rightarrow>
            if bs \<noteq> [] \<and> ts \<noteq> [] \<and> hd bs = ''..'' then None
            else Some (join (replicate (length bs) ''..'' @ ts) ''/''))"

text \<open>Whether a relative path leaves its base: it is \<open>..\<close> or begins with \<open>../\<close>.\<close>

definition escapes :: "string \<Rightarrow> bool" where
  "escapes relative = (relative = ''..'' \<or> has_prefix relative ''../'')"

section \<open>Elements of a clean path\<close>

definition plain_element :: "string \<Rightarrow> bool" where
  "plain_element s \<longleftrightarrow> s \<noteq> [] \<and> s \<noteq> ''.'' \<and> s \<noteq> ''..'' \<and> CHR ''/'' \<notin> set s"

lemma clean_elements_rooted:
  "list_all plain_element kept \<Longrightarrow> list_all (\<lambda>s. CHR ''/'' \<notin> set s) ss \<Longrightarrow>
     list_all plain_element (clean_elements True kept ss)"
proof (induction True kept ss rule: clean_elements.induct)
  case (1 kept)
  then show ?case by (simp add: list_all_iff)
next
  case (2 kept s ss)
  then show ?case by (auto simp: plain_element_def split: list.split)
qed

lemma elements_plain: "is_abs path \<Longrightarrow> list_all plain_element (elements path)"
proof -
  assume a: "is_abs path"
  have "list_all (\<lambda>s. CHR ''/'' \<notin> set s) (split CHR ''/'' path)"
    using split_no_sep [of "CHR ''/''" path] by (simp only: list_all_iff)
  with a show ?thesis by (simp add: elements_def clean_elements_rooted)
qed

lemma clean_elements_plain:
  "list_all plain_element ss \<Longrightarrow> clean_elements rooted kept ss = rev kept @ ss"
  by (induction ss arbitrary: kept) (auto simp: plain_element_def)

lemma join_Nil_iff: "join ws sep = [] \<longleftrightarrow> ws = [] \<or> ws = [[]] \<or> (length ws > 1 \<and> concat ws = [] \<and> sep = [])"
  by (induction ws sep rule: join.induct) auto

lemma split_join_elements:
  "list_all plain_element es \<Longrightarrow> es \<noteq> [] \<Longrightarrow> split CHR ''/'' (join es ''/'') = es"
  by (rule split_join) (auto simp: list_all_iff plain_element_def)

text \<open>Cleaning an absolute path keeps its elements, and elements determine the clean path.\<close>

lemma elements_clean:
  assumes "is_abs path"
  shows "is_abs (path_clean path)" "elements (path_clean path) = elements path"
proof -
  show "is_abs (path_clean path)" using assms by (simp add: path_clean_def is_abs_def)
  show "elements (path_clean path) = elements path"
  proof (cases "elements path = []")
    case True
    with assms show ?thesis by (simp add: path_clean_def elements_def is_abs_def)
  next
    case False
    note plain = elements_plain [OF assms]
    have "elements (CHR ''/'' # join (elements path) ''/'')
        = clean_elements True [] ([] # elements path)"
      using split_join_elements [OF plain False] by (subst elements_def) (simp add: is_abs_def)
    with assms plain show ?thesis by (simp add: path_clean_def clean_elements_plain)
  qed
qed

lemma path_join_abs: "is_abs root \<Longrightarrow> is_abs (path_join root name)"
  by (cases root) (auto simp: path_join_def is_abs_def path_clean_def has_prefix_def)

lemma clean_eq_iff: "is_abs a \<Longrightarrow> is_abs b \<Longrightarrow> path_clean a = path_clean b \<longleftrightarrow> elements a = elements b"
proof
  assume "is_abs a" "is_abs b" "path_clean a = path_clean b"
  then show "elements a = elements b" using elements_clean(2) by metis
next
  assume "is_abs a" "is_abs b" "elements a = elements b"
  then show "path_clean a = path_clean b" by (simp only: path_clean_def if_True)
qed

lemma path_clean_idem [simp]: "is_abs path \<Longrightarrow> path_clean (path_clean path) = path_clean path"
  using elements_clean [of path] by (simp add: clean_eq_iff)

lemma drop_common_prefix:
  "drop_common bs ts = (bs', ts') \<Longrightarrow> (bs' = [] \<longleftrightarrow> prefix bs ts) \<and> (bs' = [] \<longrightarrow> ts = bs @ ts')"
  by (induction bs ts arbitrary: bs' ts' rule: drop_common.induct) (auto split: if_splits)

lemma drop_common_sets:
  "drop_common bs ts = (bs', ts') \<Longrightarrow> set bs' \<subseteq> set bs \<and> set ts' \<subseteq> set ts"
  by (induction bs ts arbitrary: bs' ts' rule: drop_common.induct) (auto split: if_splits)

lemma join_up: "0 < n \<Longrightarrow> escapes (join (replicate n ''..'' @ ts) ''/'')"
proof (cases n)
  case (Suc m)
  then show ?thesis by (cases "replicate m ''..'' @ ts") (auto simp: escapes_def)
qed simp

lemma plain_no_escape:
  assumes "list_all plain_element ts" "ts \<noteq> []"
  shows "\<not> escapes (join ts ''/'')"
proof
  assume e: "escapes (join ts ''/'')"
  have "split CHR ''/'' (join ts ''/'') = ts" using assms by (rule split_join_elements)
  moreover have "hd (split CHR ''/'' s) = ''..''" if "escapes s" for s
    using that by (auto simp: escapes_def has_prefix_iff)
  ultimately have "hd ts = ''..''" using e by metis
  with assms show False by (cases ts) (auto simp: plain_element_def)
qed

text \<open>The relative path between absolute paths leaves the base exactly when it should.\<close>

lemma rel_escapes:
  assumes "is_abs base" "is_abs targ"
  shows "\<exists>r. path_rel base targ = Some r \<and> (escapes r \<longleftrightarrow> \<not> prefix (elements base) (elements targ))"
proof (cases "path_clean targ = path_clean base")
  case True
  then have "elements targ = elements base" using assms clean_eq_iff by simp
  with True show ?thesis by (simp add: path_rel_def escapes_def)
next
  case False
  have dot: "path_clean targ \<noteq> ''.''" using assms(2) by (simp add: path_clean_def)
  obtain bs ts where d: "drop_common (elements base) (elements targ) = (bs, ts)" by fastforce
  have "hd bs \<noteq> ''..''" if "bs \<noteq> []"
    using that drop_common_sets [OF d] elements_plain [OF assms(1)]
    by (cases bs) (auto simp: list_all_iff plain_element_def)
  with False dot d assms have r: "path_rel base targ = Some (join (replicate (length bs) ''..'' @ ts) ''/'')"
    by (auto simp: path_rel_def)
  show ?thesis
  proof (cases "bs = []")
    case True
    then have p: "prefix (elements base) (elements targ)" "elements targ = elements base @ ts"
      using drop_common_prefix [OF d] by auto
    with False assms clean_eq_iff have "ts \<noteq> []" by auto
    moreover have "list_all plain_element ts"
      using drop_common_sets [OF d] elements_plain [OF assms(2)] by (auto simp: list_all_iff)
    ultimately show ?thesis using r True p plain_no_escape by simp
  next
    case False
    then have "\<not> prefix (elements base) (elements targ)" using drop_common_prefix [OF d] by blast
    with False r join_up [of "length bs" ts] show ?thesis by simp
  qed
qed

end
