(* ===== verification/Config.thy ===== *)
theory Config
  imports GoStrings
begin

text \<open>
  The configuration of the middleware (\<open>plugin.go\<close>): one record per configuration struct, with
  the fields in the order of the code, and the defaults \<open>CreateConfig\<close> builds. The field names
  carry a prefix for the struct, as Isabelle's record fields share one name space.
\<close>

record agentConfig =
  ac_endpoint :: string
  ac_tokenFile :: string
  ac_connectTimeout :: string
  ac_requestTimeout :: string

record failureModeConfig =
  fm_agentUnavailable :: string
  fm_malformedResponse :: string
  fm_explicitLocalDeny :: string

record clientIPConfig =
  ci_strategy :: string
  ci_cloudflareHeader :: string
  ci_cloudflareCIDRs :: "string list"
  ci_bunnyHeader :: string
  ci_bunnyCIDRs :: "string list"

record requestBodyConfig =
  rb_enabled :: bool
  rb_maximumBytes :: int
  rb_oversizeAction :: string
  rb_contentTypes :: "string list"
  rb_bypassPathPrefix :: "string list"

record requestConfig =
  rq_headerMode :: string
  rq_headers :: "string list"
  rq_cookieMode :: string
  rq_cookies :: "string list"

record responsesConfig =
  rs_root :: string
  rs_blockFile :: string
  rs_challengeFile :: string
  rs_rateLimitFile :: string
  rs_unavailableFile :: string
  rs_maximumFileBytes :: int
  rs_reloadInterval :: string
  rs_defaultFormat :: string
  rs_allowSymlinks :: bool

record cacheConfig =
  cc_maximumEntries :: int
  cc_maximumTTL :: string

record circuitBreakerConfig =
  cb_failureThreshold :: int
  cb_openDuration :: string

record challengeConfig =
  ch_pathPrefix :: string
  ch_maximumBodyBytes :: int
  ch_requestTimeout :: string

record config =
  agentC :: agentConfig
  failureMode :: failureModeConfig
  clientIPC :: clientIPConfig
  trustedProxies :: "string list"
  requestBodyC :: requestBodyConfig
  requestC :: requestConfig
  responsesC :: responsesConfig
  cacheC :: cacheConfig
  circuitBreakerC :: circuitBreakerConfig
  challengeC :: challengeConfig
  resourceHint :: string

section \<open>Constants\<close>

definition maximumAgentTimeout :: duration where "maximumAgentTimeout = 2 * second"
definition maximumChallengeTimeout :: duration where "maximumChallengeTimeout = 5 * second"
definition maximumBodyBytes :: int where "maximumBodyBytes = 1048576"
definition maximumCacheTTL :: duration where "maximumCacheTTL = 5 * second"

definition forwardAll :: string where "forwardAll = ''all''"
definition forwardAllowlist :: string where "forwardAllowlist = ''allowlist''"

definition defaultTrustCookieName :: string where
  "defaultTrustCookieName = ''__Host-sokol_trust''"

definition cookieHeaderKey :: string where "cookieHeaderKey = ''cookie''"

definition legacyDefaultHeaders :: "string list" where
  "legacyDefaultHeaders =
     [''Accept'', ''Content-Type'', ''User-Agent'', ''Origin'', ''Sec-Fetch-Dest'',
      ''Sec-Fetch-Mode'', ''Sec-Fetch-Site'', ''Upgrade'', ''Connection'',
      ''Sec-WebSocket-Protocol'', ''Sec-WebSocket-Version'']"

section \<open>Defaults\<close>

definition createConfig :: config where
  "createConfig = \<lparr>
     agentC = \<lparr>ac_endpoint = ''http://sokol-edge-agent:8080'',
       ac_tokenFile = ''/run/secrets/sokol-plugin-token'',
       ac_connectTimeout = ''100ms'', ac_requestTimeout = ''500ms''\<rparr>,
     failureMode = \<lparr>fm_agentUnavailable = ''allow'', fm_malformedResponse = ''allow'',
       fm_explicitLocalDeny = ''deny''\<rparr>,
     clientIPC = \<lparr>ci_strategy = ''forwarded'', ci_cloudflareHeader = ''CF-Connecting-IP'',
       ci_cloudflareCIDRs = [], ci_bunnyHeader = ''X-Real-IP'', ci_bunnyCIDRs = []\<rparr>,
     trustedProxies = [],
     requestBodyC = \<lparr>rb_enabled = False, rb_maximumBytes = 1048576,
       rb_oversizeAction = ''headers_only'',
       rb_contentTypes = [''application/json'', ''application/x-www-form-urlencoded'',
         ''application/xml'', ''text/xml''],
       rb_bypassPathPrefix = []\<rparr>,
     requestC = \<lparr>rq_headerMode = forwardAll, rq_headers = legacyDefaultHeaders,
       rq_cookieMode = forwardAll, rq_cookies = [defaultTrustCookieName]\<rparr>,
     responsesC = \<lparr>rs_root = ''/etc/traefik/sokol'', rs_blockFile = ''block.html'',
       rs_challengeFile = ''challenge.html'', rs_rateLimitFile = ''rate-limit.html'',
       rs_unavailableFile = ''unavailable.html'', rs_maximumFileBytes = 524288,
       rs_reloadInterval = ''30s'', rs_defaultFormat = ''html'', rs_allowSymlinks = False\<rparr>,
     cacheC = \<lparr>cc_maximumEntries = 4096, cc_maximumTTL = ''1s''\<rparr>,
     circuitBreakerC = \<lparr>cb_failureThreshold = 3, cb_openDuration = ''5s''\<rparr>,
     challengeC = \<lparr>ch_pathPrefix = ''/.sokol'', ch_maximumBodyBytes = 65536,
       ch_requestTimeout = ''2s''\<rparr>,
     resourceHint = ''''\<rparr>"

end
