(* ===== verification/Validation.thy ===== *)
theory Validation
  imports GoHttp GoNet GoPath Config
begin

text \<open>
  The checks on single values at the end of \<open>plugin.go\<close>: header and cookie names, content type
  patterns, path prefixes and page paths.
\<close>

section \<open>Operations\<close>

text \<open>
  The code ranges over the runes of the name and looks each up in a list of ASCII characters; a
  byte outside ASCII belongs to a rune, or to a decoding error, that is not in the list.
\<close>

definition validHeaderName :: "string \<Rightarrow> bool" where
  "validHeaderName value = (value \<noteq> [] \<and> list_all (\<lambda>c. c \<in> set token_chars) value)"

definition cookieRequestHeader :: "string \<Rightarrow> bool" where
  "cookieRequestHeader value = (to_lower value \<in> {''cookie'', ''set-cookie''})"

definition validCookieName :: "string \<Rightarrow> bool" where
  "validCookieName value = (validHeaderName value \<and> length value \<le> 128)"

definition validContentTypePattern :: "string \<Rightarrow> bool" where
  "validContentTypePattern value0 =
     (let value = trim_space (to_lower value0);
          parts = split CHR ''/'' value
      in length parts = 2 \<and> parts ! 0 \<noteq> [] \<and> parts ! 1 \<noteq> []
         \<and> \<not> contains_any value [CHR 0x20, CHR 0x09, CHR 0x0D, CHR 0x0A, CHR '';'']
         \<and> (parts ! 1 = ''*'' \<or> \<not> contains_char (parts ! 1) CHR ''*''))"

definition validPathPrefix :: "string \<Rightarrow> bool" where
  "validPathPrefix value =
     (has_prefix value ''/'' \<and> int (length value) \<le> 8192
      \<and> \<not> contains_any value [CHR 0x00, CHR 0x0D, CHR 0x0A])"

text \<open>Whether a page name stays inside the root; the code returns an error where it does not.\<close>

definition validateRelativePagePath :: "string \<Rightarrow> string \<Rightarrow> bool" where
  "validateRelativePagePath root name =
     (if root = [] \<or> name = [] \<or> is_abs name then False
      else let candidate = path_clean (path_join root name) in
        case path_rel root candidate of
          None \<Rightarrow> False
        | Some relative \<Rightarrow> \<not> (relative = ''..'' \<or> has_prefix relative ''../''))"

section \<open>Lemmas\<close>

lemma validHeaderName_token: "validHeaderName s \<longleftrightarrow> is_token s"
  by (simp add: validHeaderName_def is_token_def token_char_def list_all_iff)

lemma token_char_less: "token_char c \<Longrightarrow> c < CHR 0x80"
proof -
  have "list_all (\<lambda>c. c < CHR 0x80) token_chars" by (simp add: token_chars_def less_char_def)
  then show "token_char c \<Longrightarrow> c < CHR 0x80" by (simp add: token_char_def list_all_iff)
qed

lemma token_ascii: "list_all token_char s \<Longrightarrow> ascii s"
  by (auto simp: ascii_def list_all_iff intro: token_char_less)

lemma token_case:
  assumes "token_char c"
  shows "token_char (lower_char c)" "token_char (upper_char c)"
proof -
  have "list_all (\<lambda>c. token_char (lower_char c)) token_chars" by code_simp
  moreover have "list_all (\<lambda>c. token_char (upper_char c)) token_chars" by code_simp
  ultimately show "token_char (lower_char c)" "token_char (upper_char c)"
    using assms unfolding token_char_def list_all_iff by blast+
qed

lemma canonical_case_lower:
  "list_all token_char s \<Longrightarrow> map lower_char (canonical_case up s) = map lower_char s"
  by (induction s arbitrary: up) (auto simp: token_case)

lemma canonical_case_token: "list_all token_char s \<Longrightarrow> list_all token_char (canonical_case up s)"
  by (induction s arbitrary: up) (auto simp: token_case)

lemma canonical_case_of_lower:
  "list_all token_char s \<Longrightarrow> canonical_case up (map lower_char s) = canonical_case up s"
  by (induction s arbitrary: up) (auto simp: token_case)

lemma canonical_case_idem:
  "list_all token_char s \<Longrightarrow> canonical_case up (canonical_case up s) = canonical_case up s"
  by (induction s arbitrary: up) (auto simp: token_case)

lemma canonical_idem [simp]: "canonical_header_key (canonical_header_key s) = canonical_header_key s"
  by (simp add: canonical_header_key_def canonical_case_token canonical_case_idem)

lemma canonical_token: "is_token s \<Longrightarrow> is_token (canonical_header_key s)"
  by (cases s) (auto simp: is_token_def canonical_header_key_def canonical_case_token token_case)

lemma lower_canonical: "list_all token_char s \<Longrightarrow> to_lower (canonical_header_key s) = to_lower s"
  by (simp add: canonical_header_key_def to_lower_ascii token_ascii canonical_case_token
      canonical_case_lower)

text \<open>Canonical token names that agree in lower case are the same name.\<close>

lemma canonical_lower_inj:
  assumes "list_all token_char s" "list_all token_char t" "to_lower s = to_lower t"
  shows "canonical_header_key s = canonical_header_key t"
  using assms
  by (simp add: canonical_header_key_def to_lower_ascii token_ascii)
    (metis canonical_case_of_lower)

lemma to_lower_token: "is_token s \<Longrightarrow> is_token (to_lower s) \<and> length (to_lower s) = length s"
  by (auto simp: is_token_def to_lower_ascii token_ascii token_case list_all_iff)

end
