(* ===== verification/Messages.thy ===== *)
theory Messages
  imports GoStrings
begin

text \<open>
  The messages exchanged with the local Agent (\<open>agent.go\<close>): the evaluation request and response
  and the challenge messages. \<open>q_\<close>, \<open>r_\<close> and \<open>v_\<close> prefix the fields of a request, a response and
  a challenge verification response. A Go \<open>map[string]string\<close> is a \<open>string gomap\<close>. The policy
  revision is a \<open>uint64\<close> that the code compares and prints, never computes with: a \<open>nat\<close>.
\<close>

record evaluationRequest =
  q_requestID :: string
  q_clientIP :: string
  q_clientIPSource :: string
  q_method :: string
  q_scheme :: string
  q_host :: string
  q_path :: string
  q_query :: string
  q_headers :: "string gomap"
  q_cookies :: "string gomap"
  q_headerMode :: string
  q_cookieMode :: string
  q_allowlistedHeaders :: "string list"
  q_allowlistedCookies :: "string list"
  q_headersTruncated :: bool
  q_cookiesTruncated :: bool
  q_protocolType :: string
  q_httpVersion :: string
  q_body :: string
  q_bodyTruncated :: bool
  q_resourceHint :: string

record evaluationResponse =
  r_decision :: string
  r_status :: int
  r_requestID :: string
  r_publicReason :: string
  r_cacheTTLMS :: int
  r_resourceID :: string
  r_siteID :: string
  r_challengeURL :: string
  r_challengeToken :: string
  r_challengeAutoStart :: bool
  r_cacheable :: bool
  r_cacheKey :: string
  r_cacheKeyScope :: string
  r_decisionScope :: string
  r_policyRevision :: nat
  r_retryAfterSeconds :: int

text \<open>The zero value \<open>evaluationResponse{}\<close>.\<close>

definition emptyResponse :: evaluationResponse where
  "emptyResponse = \<lparr>r_decision = [], r_status = 0, r_requestID = [], r_publicReason = [],
     r_cacheTTLMS = 0, r_resourceID = [], r_siteID = [], r_challengeURL = [],
     r_challengeToken = [], r_challengeAutoStart = False, r_cacheable = False, r_cacheKey = [],
     r_cacheKeyScope = [], r_decisionScope = [], r_policyRevision = 0, r_retryAfterSeconds = 0\<rparr>"

datatype agentErrorKind = AgentUnavailable | AgentMalformed

text \<open>The error type \<open>agentError\<close>: a kind and a message.\<close>

record agentError =
  ae_kind :: agentErrorKind
  ae_err :: string

record challengeContext =
  cx_resourceID :: string
  cx_siteID :: string
  cx_clientIP :: string
  cx_userAgent :: string
  cx_path :: string

record challengeCreateRequest =
  cr_challengeToken :: string
  cr_context :: challengeContext

record challengeVerifyRequest =
  cv_token :: string
  cv_payload :: string
  cv_context :: challengeContext

record challengeVerifyResponse =
  v_verified :: bool
  v_publicReason :: string
  v_cookieName :: string
  v_cookieValue :: string
  v_cookieMaxAge :: int

end
