(* ===== verification/Cache.thy ===== *)
theory Cache
  imports Config Messages "HOL-Library.Multiset"
begin

text \<open>
  The decision cache (\<open>cache.go\<close>): the request fingerprint and the composite key, lookup,
  insertion with revision reset, sweep and eviction. SHA-256 is an argument \<open>H\<close> of the model, a
  function on byte strings: nothing the cache does depends on which one, and where a property
  needs that different inputs have different digests this is its hypothesis.
\<close>

section \<open>Keys\<close>

text \<open>The bytes that \<open>writeHashPart\<close> and \<open>writeStringMap\<close> write into the hash.\<close>

definition writeHashPart :: "string \<Rightarrow> string" where
  "writeHashPart value = value @ [CHR 0x00]"

definition writeStringMap :: "string gomap \<Rightarrow> string" where
  "writeStringMap values =
     concat (map (\<lambda>key. writeHashPart (to_lower key) @ writeHashPart (the (map_of values key)))
       (sort (keys values)))"

definition evaluationCacheKey :: "(string \<Rightarrow> string) \<Rightarrow> evaluationRequest \<Rightarrow> string" where
  "evaluationCacheKey H request = hex_encode (H (
       writeHashPart (q_clientIP request)
     @ writeHashPart (q_method request)
     @ writeHashPart (q_scheme request)
     @ writeHashPart (q_host request)
     @ writeHashPart (q_path request)
     @ writeHashPart (q_query request)
     @ writeHashPart (q_protocolType request)
     @ writeHashPart (q_httpVersion request)
     @ writeHashPart (q_resourceHint request)
     @ (if q_bodyTruncated request then writeHashPart ''body-truncated'' else [])
     @ (if q_headersTruncated request then writeHashPart ''headers-truncated'' else [])
     @ (if q_cookiesTruncated request then writeHashPart ''cookies-truncated'' else [])
     @ writeStringMap (q_headers request)
     @ writeStringMap (q_cookies request)
     @ (if length (q_body request) \<noteq> 0
        then writeHashPart (hex_encode (H (q_body request))) else [])))"

definition cacheCompositeKey ::
    "(string \<Rightarrow> string) \<Rightarrow> evaluationRequest \<Rightarrow> evaluationResponse \<Rightarrow> string" where
  "cacheCompositeKey H request response = hex_encode (H (
       writeHashPart (evaluationCacheKey H request)
     @ writeHashPart (q_clientIP request)
     @ writeHashPart (r_resourceID response)
     @ writeHashPart (r_decisionScope response)
     @ writeHashPart (dec_of_nat (r_policyRevision response))
     @ writeHashPart (r_cacheKey response)))"

section \<open>State and operations\<close>

record decisionCacheEntry =
  e_response :: evaluationResponse
  e_requestFingerprint :: string
  e_compositeKey :: string
  e_expiresAt :: gotime
  e_createdAt :: gotime

record decisionCache =
  entries :: "decisionCacheEntry gomap"
  requestIndex :: "string gomap"
  maximumEntries :: int
  maximumTTL :: duration
  latestRevision :: nat

definition newDecisionCache :: "int \<Rightarrow> duration \<Rightarrow> decisionCache" where
  "newDecisionCache n ttl =
     \<lparr>entries = [], requestIndex = [], maximumEntries = n, maximumTTL = ttl, latestRevision = 0\<rparr>"

text \<open>A missing index entry reads as the empty string, as a Go map does.\<close>

definition deleteEntry :: "decisionCache \<Rightarrow> string \<Rightarrow> decisionCacheEntry \<Rightarrow> decisionCache" where
  "deleteEntry c key entry =
     (let c1 = c\<lparr>entries := AList.delete key (entries c)\<rparr>;
          indexed = (case map_of (requestIndex c1) (e_requestFingerprint entry) of
                       None \<Rightarrow> [] | Some k \<Rightarrow> k)
      in if indexed = key
         then c1\<lparr>requestIndex := AList.delete (e_requestFingerprint entry) (requestIndex c1)\<rparr>
         else c1)"

definition cache_get ::
    "(string \<Rightarrow> string) \<Rightarrow> decisionCache \<Rightarrow> evaluationRequest \<Rightarrow> string \<Rightarrow> gotime
       \<Rightarrow> decisionCache \<times> evaluationResponse option" where
  "cache_get H c request requestID now =
     (if maximumEntries c = 0 \<or> maximumTTL c = 0 then (c, None)
      else let fingerprint = evaluationCacheKey H request in
        case map_of (requestIndex c) fingerprint of
          None \<Rightarrow> (c, None)
        | Some composite \<Rightarrow>
           (case map_of (entries c) composite of
              None \<Rightarrow> (c\<lparr>requestIndex := AList.delete fingerprint (requestIndex c)\<rparr>, None)
            | Some entry \<Rightarrow>
                if \<not> now < e_expiresAt entry then (deleteEntry c composite entry, None)
                else if e_requestFingerprint entry \<noteq> fingerprint
                     \<or> r_policyRevision (e_response entry) \<noteq> latestRevision c
                then (deleteEntry c composite entry, None)
                else (c, Some ((e_response entry)\<lparr>r_requestID := requestID\<rparr>))))"

text \<open>The loop of \<open>put\<close> that deletes expired entries, over the keys in the given order.\<close>

fun sweep_expired :: "gotime \<Rightarrow> string list \<Rightarrow> decisionCache \<Rightarrow> decisionCache" where
  "sweep_expired now [] c = c"
| "sweep_expired now (cacheKey # ks) c =
     (case map_of (entries c) cacheKey of
        None \<Rightarrow> sweep_expired now ks c
      | Some entry \<Rightarrow>
          sweep_expired now ks
            (if \<not> now < e_expiresAt entry then deleteEntry c cacheKey entry else c))"

text \<open>
  The loop that looks for the oldest entry, over the keys in the given order: \<open>None\<close> is the
  initial state, in which the code's \<open>oldestKey\<close> is the empty string.
\<close>

fun find_oldest :: "decisionCacheEntry gomap \<Rightarrow> string list \<Rightarrow> string \<Rightarrow> gotime \<Rightarrow> string" where
  "find_oldest es [] oldestKey oldest = oldestKey"
| "find_oldest es (cacheKey # ks) oldestKey oldest =
     (case map_of es cacheKey of
        None \<Rightarrow> find_oldest es ks oldestKey oldest
      | Some entry \<Rightarrow>
          if oldestKey = [] \<or> e_createdAt entry < oldest
          then find_oldest es ks cacheKey (e_createdAt entry)
          else find_oldest es ks oldestKey oldest)"

definition evict_oldest :: "range_order \<Rightarrow> decisionCache \<Rightarrow> decisionCache" where
  "evict_oldest ord c =
     (let oldestKey = find_oldest (entries c) (ord (keys (entries c))) [] 0 in
      case map_of (entries c) oldestKey of
        None \<Rightarrow> c
      | Some oldestEntry \<Rightarrow> deleteEntry c oldestKey oldestEntry)"

text \<open>The early return of \<open>put\<close>: what is never stored.\<close>

definition put_refused :: "decisionCache \<Rightarrow> evaluationResponse \<Rightarrow> bool" where
  "put_refused c response \<longleftrightarrow>
     maximumEntries c = 0 \<or> maximumTTL c = 0 \<or> r_cacheTTLMS response \<le> 0
     \<or> \<not> r_cacheable response \<or> r_cacheKeyScope response \<noteq> ''request''
     \<or> r_cacheKey response = [] \<or> r_policyRevision response = 0
     \<or> r_decisionScope response = []
     \<or> (r_decision response \<noteq> ''block'' \<and> r_decision response \<noteq> ''rate_limit'')
     \<or> r_challengeToken response \<noteq> []"

definition entry_ttl :: "decisionCache \<Rightarrow> evaluationResponse \<Rightarrow> duration" where
  "entry_ttl c response =
     (let ttl = wrap64 (r_cacheTTLMS response * millisecond)
      in if maximumTTL c < ttl then maximumTTL c else ttl)"

text \<open>A newer policy revision empties the cache.\<close>

definition reset_revision :: "decisionCache \<Rightarrow> nat \<Rightarrow> decisionCache" where
  "reset_revision c revision =
     (if latestRevision c < revision
      then c\<lparr>entries := [], requestIndex := [], latestRevision := revision\<rparr>
      else c)"

text \<open>The entry the request was indexed to under another composite key is deleted.\<close>

definition unlink_previous :: "decisionCache \<Rightarrow> string \<Rightarrow> string \<Rightarrow> decisionCache" where
  "unlink_previous c fingerprint composite =
     (case map_of (requestIndex c) fingerprint of
        Some previous \<Rightarrow>
          (if previous \<noteq> composite
           then (case map_of (entries c) previous of
                   Some entry \<Rightarrow> deleteEntry c previous entry
                 | None \<Rightarrow> c)
           else c)
      | None \<Rightarrow> c)"

definition make_room :: "range_order \<Rightarrow> decisionCache \<Rightarrow> string \<Rightarrow> decisionCache" where
  "make_room ord c composite =
     (if map_of (entries c) composite = None \<and> maximumEntries c \<le> int (length (entries c))
      then evict_oldest ord c else c)"

definition new_entry ::
    "decisionCache \<Rightarrow> evaluationResponse \<Rightarrow> string \<Rightarrow> string \<Rightarrow> gotime \<Rightarrow> decisionCacheEntry" where
  "new_entry c response fingerprint composite now =
     \<lparr>e_response = response, e_requestFingerprint = fingerprint, e_compositeKey = composite,
      e_expiresAt = now + entry_ttl c response, e_createdAt = now\<rparr>"

definition store_entry ::
    "decisionCache \<Rightarrow> string \<Rightarrow> string \<Rightarrow> decisionCacheEntry \<Rightarrow> decisionCache" where
  "store_entry c fingerprint composite entry =
     c\<lparr>entries := AList.update composite entry (entries c),
       requestIndex := AList.update fingerprint composite (requestIndex c)\<rparr>"

text \<open>
  \<open>put\<close>: the early returns, then its steps in the code's order. The two map loops range in the
  orders \<open>ord1\<close> and \<open>ord2\<close>.
\<close>

definition cache_put ::
    "(string \<Rightarrow> string) \<Rightarrow> range_order \<Rightarrow> range_order \<Rightarrow> decisionCache \<Rightarrow> evaluationRequest
       \<Rightarrow> evaluationResponse \<Rightarrow> gotime \<Rightarrow> decisionCache" where
  "cache_put H ord1 ord2 c request response now =
     (if put_refused c response then c
      else if entry_ttl c response \<le> 0 then c
      else if r_policyRevision response < latestRevision c then c
      else let
        c0 = reset_revision c (r_policyRevision response);
        c1 = sweep_expired now (ord1 (keys (entries c0))) c0;
        fingerprint = evaluationCacheKey H request;
        composite = cacheCompositeKey H request response;
        c2 = unlink_previous c1 fingerprint composite;
        c3 = make_room ord2 c2 composite
      in store_entry c3 fingerprint composite (new_entry c response fingerprint composite now))"

section \<open>Deletion, sweep and eviction\<close>

named_theorems cache_simps "effect of the cache's internal operations on its fields"

lemma deleteEntry_fields [simp, cache_simps]:
  "entries (deleteEntry c k e) = AList.delete k (entries c)"
  "maximumEntries (deleteEntry c k e) = maximumEntries c"
  "maximumTTL (deleteEntry c k e) = maximumTTL c"
  "latestRevision (deleteEntry c k e) = latestRevision c"
  by (simp_all add: deleteEntry_def Let_def)

lemma map_of_index_deleteEntry [cache_simps]:
  "map_of (requestIndex (deleteEntry c k e)) f =
     (if f = e_requestFingerprint e \<and> map_of (requestIndex c) f = Some k then None
      else map_of (requestIndex c) f)"
  by (auto simp: deleteEntry_def Let_def map_of_delete_if split: option.splits)

lemma wf_index_deleteEntry: "wf_map (requestIndex c) \<Longrightarrow> wf_map (requestIndex (deleteEntry c k e))"
  by (simp add: deleteEntry_def Let_def)

text \<open>What an entry of the cache always satisfies.\<close>

definition entry_ok :: "decisionCache \<Rightarrow> string \<Rightarrow> decisionCacheEntry \<Rightarrow> bool" where
  "entry_ok c k e \<longleftrightarrow>
     e_compositeKey e = k
     \<and> map_of (requestIndex c) (e_requestFingerprint e) = Some k
     \<and> r_policyRevision (e_response e) = latestRevision c
     \<and> \<not> put_refused c (e_response e)
     \<and> e_expiresAt e = e_createdAt e + entry_ttl c (e_response e)
     \<and> 0 < entry_ttl c (e_response e)"

definition cache_inv :: "decisionCache \<Rightarrow> bool" where
  "cache_inv c \<longleftrightarrow>
     wf_map (entries c) \<and> wf_map (requestIndex c)
     \<and> (\<forall>k e. map_of (entries c) k = Some e \<longrightarrow> entry_ok c k e)
     \<and> (0 \<le> maximumEntries c \<longrightarrow> int (length (entries c)) \<le> maximumEntries c)"

lemma cache_invI:
  assumes "wf_map (entries c)" "wf_map (requestIndex c)"
    and "\<And>k e. map_of (entries c) k = Some e \<Longrightarrow> entry_ok c k e"
    and "0 \<le> maximumEntries c \<Longrightarrow> int (length (entries c)) \<le> maximumEntries c"
  shows "cache_inv c"
  using assms by (simp add: cache_inv_def)

lemma cache_invD:
  assumes "cache_inv c"
  shows "wf_map (entries c)" "wf_map (requestIndex c)"
    and "\<And>k e. map_of (entries c) k = Some e \<Longrightarrow> entry_ok c k e"
    and "0 \<le> maximumEntries c \<Longrightarrow> int (length (entries c)) \<le> maximumEntries c"
  using assms by (auto simp: cache_inv_def)

lemma put_refused_cong:
  "maximumEntries c' = maximumEntries c \<Longrightarrow> maximumTTL c' = maximumTTL c \<Longrightarrow>
     put_refused c' r = put_refused c r"
  by (simp add: put_refused_def)

lemma entry_ttl_cong: "maximumTTL c' = maximumTTL c \<Longrightarrow> entry_ttl c' r = entry_ttl c r"
  by (simp add: entry_ttl_def Let_def)

lemma entry_ok_cong:
  assumes "entry_ok c k e"
    and "maximumEntries c' = maximumEntries c" "maximumTTL c' = maximumTTL c"
    and "latestRevision c' = latestRevision c"
    and "map_of (requestIndex c') (e_requestFingerprint e) = Some k"
  shows "entry_ok c' k e"
  using assms put_refused_cong [of c' c] entry_ttl_cong [of c' c] by (simp add: entry_ok_def)

lemma new_inv: "cache_inv (newDecisionCache n ttl)"
  by (simp add: newDecisionCache_def cache_inv_def)

lemma deleteEntry_inv: "cache_inv c \<Longrightarrow> cache_inv (deleteEntry c k e)"
proof (rule cache_invI)
  assume inv: "cache_inv c"
  note d = cache_invD [OF inv]
  show "wf_map (entries (deleteEntry c k e))" "wf_map (requestIndex (deleteEntry c k e))"
    using d(1,2) by (simp_all add: wf_index_deleteEntry)
  fix k' e' assume e': "map_of (entries (deleteEntry c k e)) k' = Some e'"
  then have k': "k' \<noteq> k" and ok: "entry_ok c k' e'"
    using d(3) by (auto simp: map_of_delete_if split: if_splits)
  from k' ok have "map_of (requestIndex (deleteEntry c k e)) (e_requestFingerprint e') = Some k'"
    by (auto simp: entry_ok_def map_of_index_deleteEntry)
  with ok show "entry_ok (deleteEntry c k e) k' e'"
    by (simp add: entry_ok_cong)
next
  assume inv: "cache_inv c" and "0 \<le> maximumEntries (deleteEntry c k e)"
  then show "int (length (entries (deleteEntry c k e))) \<le> maximumEntries (deleteEntry c k e)"
    using cache_invD(4) [OF inv] length_delete_le [of k "entries c"] by simp
qed

lemma sweep_fields [simp, cache_simps]:
  "maximumEntries (sweep_expired now ks c) = maximumEntries c"
  "maximumTTL (sweep_expired now ks c) = maximumTTL c"
  "latestRevision (sweep_expired now ks c) = latestRevision c"
  by (induction ks arbitrary: c) (auto split: option.splits)

lemma sweep_inv: "cache_inv c \<Longrightarrow> cache_inv (sweep_expired now ks c)"
  by (induction ks arbitrary: c) (auto simp: deleteEntry_inv split: option.splits)

text \<open>The sweep deletes exactly the expired entries of the keys it visits.\<close>

lemma map_of_sweep:
  "map_of (entries (sweep_expired now ks c)) k =
     (case map_of (entries c) k of
        None \<Rightarrow> None
      | Some e \<Rightarrow> if k \<in> set ks \<and> e_expiresAt e \<le> now then None else Some e)"
proof (induction ks arbitrary: c)
  case Nil
  then show ?case by (simp split: option.split)
next
  case (Cons x ks)
  then show ?case
    by (cases "map_of (entries c) x") (auto simp: map_of_delete_if split: option.splits)
qed

lemma evict_fields [simp, cache_simps]:
  "maximumEntries (evict_oldest ord c) = maximumEntries c"
  "maximumTTL (evict_oldest ord c) = maximumTTL c"
  "latestRevision (evict_oldest ord c) = latestRevision c"
  by (simp_all add: evict_oldest_def Let_def split: option.split)

lemma evict_inv: "cache_inv c \<Longrightarrow> cache_inv (evict_oldest ord c)"
  by (simp add: evict_oldest_def Let_def deleteEntry_inv split: option.split)

lemma find_oldest_mem:
  "set ks \<subseteq> set (keys es) \<Longrightarrow> ks \<noteq> [] \<and> k0 = [] \<or> k0 \<in> set (keys es) \<Longrightarrow>
     find_oldest es ks k0 t0 \<in> set (keys es)"
proof (induction ks arbitrary: k0 t0)
  case (Cons k ks)
  then have k: "k \<in> set (keys es)" by simp
  then obtain e where "map_of es k = Some e" using keys_map_of by fastforce
  with Cons k show ?case by (auto simp del: in_set_conv_nth set_map)
qed auto

lemma range_order_set: "is_range_order ord \<Longrightarrow> set (ord ks) = set ks"
  by (simp add: is_range_order_def)

text \<open>Eviction deletes one entry of a cache that holds any.\<close>

lemma evict_deletes:
  assumes "is_range_order ord" "entries c \<noteq> []"
  obtains k e where "map_of (entries c) k = Some e" "evict_oldest ord c = deleteEntry c k e"
    "k = find_oldest (entries c) (ord (keys (entries c))) [] 0"
proof -
  let ?k = "find_oldest (entries c) (ord (keys (entries c))) [] 0"
  have "set (ord (keys (entries c))) = set (keys (entries c))"
    using assms(1) by (rule range_order_set)
  moreover from this assms(2) have "ord (keys (entries c)) \<noteq> []"
    by (cases "entries c") auto
  ultimately have "?k \<in> set (keys (entries c))"
    by (intro find_oldest_mem) auto
  then obtain e where "map_of (entries c) ?k = Some e"
    using keys_map_of by fastforce
  then show ?thesis
    using that by (simp add: evict_oldest_def Let_def)
qed

lemma evict_length:
  assumes "is_range_order ord" "entries c \<noteq> []"
  shows "length (entries (evict_oldest ord c)) < length (entries c)"
proof -
  obtain k e where "map_of (entries c) k = Some e" and e: "evict_oldest ord c = deleteEntry c k e"
    using evict_deletes [OF assms] by metis
  then have "k \<in> set (keys (entries c))" by (simp only: map_of_SomeD_keys)
  with e show ?thesis by (simp add: length_delete_less)
qed

lemma find_oldest_min:
  assumes "set ks \<subseteq> set (keys es)" "[] \<notin> set (keys es)"
    and "k0 \<noteq> [] \<Longrightarrow> \<exists>e. map_of es k0 = Some e \<and> e_createdAt e = t0"
    and "map_of es k = Some e" "k \<in> set ks \<or> (k0 \<noteq> [] \<and> t0 \<le> e_createdAt e)"
  shows "\<exists>e'. map_of es (find_oldest es ks k0 t0) = Some e' \<and> e_createdAt e' \<le> e_createdAt e"
  using assms
proof (induction ks arbitrary: k0 t0)
  case Nil
  then show ?case by auto
next
  case (Cons x ks)
  then have "x \<in> set (keys es)" by simp
  then obtain ex where x: "map_of es x = Some ex" using keys_map_of by fastforce
  have "x \<noteq> []" using Cons.prems(2) \<open>x \<in> set (keys es)\<close> by blast
  show ?case
  proof (cases "k0 = [] \<or> e_createdAt ex < t0")
    case True
    then have "k \<in> set ks \<or> x \<noteq> [] \<and> e_createdAt ex \<le> e_createdAt e"
      using Cons.prems(4,5) x \<open>x \<noteq> []\<close> by auto
    with True show ?thesis
      using Cons.IH [of x "e_createdAt ex"] Cons.prems x by simp
  next
    case False
    then have "k \<in> set ks \<or> k0 \<noteq> [] \<and> t0 \<le> e_createdAt e"
      using Cons.prems(4,5) x by auto
    with False show ?thesis
      using Cons.IH [of k0 t0] Cons.prems x by simp
  qed
qed

section \<open>The invariant is kept\<close>

lemma reset_fields [simp, cache_simps]:
  "maximumEntries (reset_revision c n) = maximumEntries c"
  "maximumTTL (reset_revision c n) = maximumTTL c"
  "latestRevision (reset_revision c n) = max (latestRevision c) n"
  by (simp_all add: reset_revision_def)

lemma reset_inv: "cache_inv c \<Longrightarrow> cache_inv (reset_revision c n)"
  by (auto simp: reset_revision_def cache_inv_def)

lemma unlink_fields [simp, cache_simps]:
  "maximumEntries (unlink_previous c f k) = maximumEntries c"
  "maximumTTL (unlink_previous c f k) = maximumTTL c"
  "latestRevision (unlink_previous c f k) = latestRevision c"
  by (auto simp: unlink_previous_def split: option.splits)

lemma unlink_inv: "cache_inv c \<Longrightarrow> cache_inv (unlink_previous c f k)"
  by (auto simp: unlink_previous_def deleteEntry_inv split: option.splits)

text \<open>After it, an entry of the request can only be stored under the new composite key.\<close>

lemma unlink_fingerprint:
  assumes "cache_inv c" "map_of (entries (unlink_previous c f k)) k' = Some e"
    and "e_requestFingerprint e = f"
  shows "k' = k"
proof (rule ccontr)
  assume ne: "k' \<noteq> k"
  have e: "map_of (entries c) k' = Some e"
    using assms(2)
    by (auto simp: unlink_previous_def map_of_delete_if split: option.splits if_splits)
  then have "map_of (requestIndex c) f = Some k'"
    using cache_invD(3) [OF assms(1) e] assms(3) by (simp add: entry_ok_def)
  with e ne have "map_of (entries (unlink_previous c f k)) k' = None"
    by (simp add: unlink_previous_def map_of_delete_if)
  with assms(2) show False by simp
qed

lemma make_room_fields [simp, cache_simps]:
  "maximumEntries (make_room ord c k) = maximumEntries c"
  "maximumTTL (make_room ord c k) = maximumTTL c"
  "latestRevision (make_room ord c k) = latestRevision c"
  by (simp_all add: make_room_def)

lemma make_room_inv: "cache_inv c \<Longrightarrow> cache_inv (make_room ord c k)"
  by (simp add: make_room_def evict_inv)

lemma evict_sub: "map_of (entries (evict_oldest ord c)) k = Some e \<Longrightarrow> map_of (entries c) k = Some e"
  by (auto simp: evict_oldest_def Let_def map_of_delete_if split: option.splits if_splits)

lemma make_room_sub: "map_of (entries (make_room ord c x)) k = Some e \<Longrightarrow> map_of (entries c) k = Some e"
  by (auto simp: make_room_def dest: evict_sub split: if_splits)

lemma make_room_space:
  assumes inv: "cache_inv c" and ord: "is_range_order ord" and max: "0 < maximumEntries c"
    and none: "map_of (entries (make_room ord c k)) k = None"
  shows "int (length (entries (make_room ord c k))) < maximumEntries c"
proof (cases "map_of (entries c) k = None \<and> maximumEntries c \<le> int (length (entries c))")
  case True
  then have "entries c \<noteq> []" using max by auto
  then have "length (entries (evict_oldest ord c)) < length (entries c)"
    by (rule evict_length [OF ord])
  moreover have "int (length (entries c)) \<le> maximumEntries c"
    using cache_invD(4) [OF inv] max by simp
  ultimately show ?thesis using True by (simp add: make_room_def)
next
  case False
  then show ?thesis using none by (auto simp: make_room_def)
qed

lemma store_inv:
  assumes inv: "cache_inv c"
    and fp: "\<And>k' e'. map_of (entries c) k' = Some e' \<Longrightarrow> e_requestFingerprint e' = f \<Longrightarrow> k' = k"
    and room: "0 \<le> maximumEntries c \<Longrightarrow> map_of (entries c) k = None \<Longrightarrow>
      int (length (entries c)) < maximumEntries c"
    and e: "e_requestFingerprint e = f" "e_compositeKey e = k"
      "r_policyRevision (e_response e) = latestRevision c" "\<not> put_refused c (e_response e)"
      "e_expiresAt e = e_createdAt e + entry_ttl c (e_response e)" "0 < entry_ttl c (e_response e)"
  shows "cache_inv (store_entry c f k e)"
proof (rule cache_invI)
  note d = cache_invD [OF inv]
  show "wf_map (entries (store_entry c f k e))" "wf_map (requestIndex (store_entry c f k e))"
    using d(1,2) by (simp_all add: store_entry_def)
  show "int (length (entries (store_entry c f k e))) \<le> maximumEntries (store_entry c f k e)"
    if "0 \<le> maximumEntries (store_entry c f k e)"
    using that d(4) room map_of_eq_None_keys [of "entries c" k]
    by (auto simp: store_entry_def length_update)
  fix k' e' assume e': "map_of (entries (store_entry c f k e)) k' = Some e'"
  show "entry_ok (store_entry c f k e) k' e'"
  proof (cases "k' = k")
    case True
    then have "e' = e" using e' by (simp add: store_entry_def map_of_update_if)
    with True e show ?thesis
      using put_refused_cong [of "store_entry c f k e" c] entry_ttl_cong [of "store_entry c f k e" c]
      by (simp add: entry_ok_def store_entry_def map_of_update_if)
  next
    case False
    then have e'c: "map_of (entries c) k' = Some e'"
      using e' by (simp add: store_entry_def map_of_update_if)
    then have ok: "entry_ok c k' e'" by (rule d(3))
    moreover have "e_requestFingerprint e' \<noteq> f" using fp [OF e'c] False by blast
    ultimately show ?thesis
      by (intro entry_ok_cong [OF ok]) (simp_all add: store_entry_def map_of_update_if entry_ok_def)
  qed
qed

lemma cache_get_inv: "cache_inv c \<Longrightarrow> cache_inv (fst (cache_get H c q rid now))"
proof -
  assume inv: "cache_inv c"
  have "cache_inv (c\<lparr>requestIndex := AList.delete f (requestIndex c)\<rparr>)" (is "cache_inv ?c'")
    if f: "map_of (requestIndex c) f = Some k" "map_of (entries c) k = None" for f k
  proof (rule cache_invI)
    fix k' e assume "map_of (entries ?c') k' = Some e"
    then have ok: "entry_ok c k' e" using cache_invD(3) [OF inv] by simp
    moreover have "e_requestFingerprint e \<noteq> f"
      using ok f \<open>map_of (entries ?c') k' = Some e\<close> by (auto simp: entry_ok_def)
    ultimately show "entry_ok ?c' k' e"
      by (intro entry_ok_cong [OF ok]) (simp_all add: map_of_delete_if entry_ok_def)
  qed (use cache_invD [OF inv] in simp_all)
  with inv show ?thesis
    by (auto simp: cache_get_def Let_def deleteEntry_inv split: option.splits)
qed

section \<open>Insertion\<close>

definition put_accepted :: "decisionCache \<Rightarrow> evaluationResponse \<Rightarrow> bool" where
  "put_accepted c r \<longleftrightarrow>
     \<not> put_refused c r \<and> 0 < entry_ttl c r \<and> latestRevision c \<le> r_policyRevision r"

text \<open>The cache just before the new entry is stored.\<close>

definition put_base ::
    "(string \<Rightarrow> string) \<Rightarrow> range_order \<Rightarrow> range_order \<Rightarrow> decisionCache \<Rightarrow> evaluationRequest
       \<Rightarrow> evaluationResponse \<Rightarrow> gotime \<Rightarrow> decisionCache" where
  "put_base H ord1 ord2 c q r now =
     (let c0 = reset_revision c (r_policyRevision r)
      in make_room ord2
           (unlink_previous (sweep_expired now (ord1 (keys (entries c0))) c0)
              (evaluationCacheKey H q) (cacheCompositeKey H q r))
           (cacheCompositeKey H q r))"

lemma cache_put_eq:
  "cache_put H ord1 ord2 c q r now =
     (if put_accepted c r
      then store_entry (put_base H ord1 ord2 c q r now) (evaluationCacheKey H q)
             (cacheCompositeKey H q r)
             (new_entry c r (evaluationCacheKey H q) (cacheCompositeKey H q r) now)
      else c)"
  by (auto simp: cache_put_def put_accepted_def put_base_def Let_def)

lemma put_base_fields [simp, cache_simps]:
  "maximumEntries (put_base H ord1 ord2 c q r now) = maximumEntries c"
  "maximumTTL (put_base H ord1 ord2 c q r now) = maximumTTL c"
  "latestRevision (put_base H ord1 ord2 c q r now) = max (latestRevision c) (r_policyRevision r)"
  by (simp_all add: put_base_def Let_def)

lemma put_base_inv: "cache_inv c \<Longrightarrow> cache_inv (put_base H ord1 ord2 c q r now)"
  by (simp add: put_base_def Let_def make_room_inv unlink_inv sweep_inv reset_inv)

lemma unlink_sub:
  "map_of (entries (unlink_previous c f k)) k' = Some e \<Longrightarrow> map_of (entries c) k' = Some e"
  by (auto simp: unlink_previous_def map_of_delete_if split: option.splits if_splits)

lemma reset_sub: "map_of (entries (reset_revision c n)) k = Some e \<Longrightarrow> map_of (entries c) k = Some e"
  by (auto simp: reset_revision_def split: if_splits)

lemma sweep_sub:
  "map_of (entries (sweep_expired now ks c)) k = Some e \<Longrightarrow> map_of (entries c) k = Some e"
  by (auto simp: map_of_sweep split: option.splits if_splits)

lemma put_base_sub:
  "map_of (entries (put_base H ord1 ord2 c q r now)) k = Some e \<Longrightarrow> map_of (entries c) k = Some e"
  unfolding put_base_def Let_def
  by (blast dest: make_room_sub unlink_sub sweep_sub reset_sub)

lemma put_base_fingerprint:
  assumes "cache_inv c" "map_of (entries (put_base H ord1 ord2 c q r now)) k = Some e"
    and "e_requestFingerprint e = evaluationCacheKey H q"
  shows "k = cacheCompositeKey H q r"
proof -
  let ?c0 = "reset_revision c (r_policyRevision r)"
  let ?c1 = "sweep_expired now (ord1 (keys (entries ?c0))) ?c0"
  have "map_of (entries (unlink_previous ?c1 (evaluationCacheKey H q) (cacheCompositeKey H q r))) k
          = Some e"
    using assms(2) by (auto simp: put_base_def Let_def dest: make_room_sub)
  then show ?thesis
    using unlink_fingerprint [OF sweep_inv [OF reset_inv [OF assms(1)]]] assms(3) by blast
qed

lemma put_base_space:
  assumes "cache_inv c" "is_range_order ord2" "0 < maximumEntries c"
    and "map_of (entries (put_base H ord1 ord2 c q r now)) (cacheCompositeKey H q r) = None"
  shows "int (length (entries (put_base H ord1 ord2 c q r now))) < maximumEntries c"
proof -
  let ?c0 = "reset_revision c (r_policyRevision r)"
  let ?c2 = "unlink_previous (sweep_expired now (ord1 (keys (entries ?c0))) ?c0)
    (evaluationCacheKey H q) (cacheCompositeKey H q r)"
  have "cache_inv ?c2" using assms(1) by (simp add: unlink_inv sweep_inv reset_inv)
  then show ?thesis
    using make_room_space [of ?c2 ord2 "cacheCompositeKey H q r"] assms(2-4)
    by (simp add: put_base_def Let_def)
qed

lemma cache_put_inv:
  assumes inv: "cache_inv c" and "is_range_order ord2"
  shows "cache_inv (cache_put H ord1 ord2 c q r now)"
proof (cases "put_accepted c r")
  case acc: True
  let ?b = "put_base H ord1 ord2 c q r now" and ?k = "cacheCompositeKey H q r"
  let ?e = "new_entry c r (evaluationCacheKey H q) ?k now"
  have b: "cache_inv ?b" by (rule put_base_inv [OF inv])
  have "maximumEntries c \<noteq> 0" using acc by (auto simp: put_accepted_def put_refused_def)
  then have "int (length (entries ?b)) < maximumEntries ?b"
    if "0 \<le> maximumEntries ?b" "map_of (entries ?b) ?k = None"
    using that put_base_space [OF inv assms(2)] by simp
  moreover have "put_refused ?b r = put_refused c r" "entry_ttl ?b r = entry_ttl c r"
    by (simp_all add: put_refused_cong [of ?b c] entry_ttl_cong [of ?b c])
  ultimately have "cache_inv (store_entry ?b (evaluationCacheKey H q) ?k ?e)"
    using acc put_base_fingerprint [OF inv]
    by (intro store_inv [OF b]) (auto simp: new_entry_def put_accepted_def)
  with acc show ?thesis by (simp add: cache_put_eq)
qed (simp add: cache_put_eq inv)

lemma cache_put_fields [simp, cache_simps]:
  "maximumEntries (cache_put H ord1 ord2 c q r now) = maximumEntries c"
  "maximumTTL (cache_put H ord1 ord2 c q r now) = maximumTTL c"
  by (simp_all add: cache_put_eq store_entry_def)

lemma cache_get_fields [simp, cache_simps]:
  "maximumEntries (fst (cache_get H c q rid now)) = maximumEntries c"
  "maximumTTL (fst (cache_get H c q rid now)) = maximumTTL c"
  "latestRevision (fst (cache_get H c q rid now)) = latestRevision c"
  by (simp_all add: cache_get_def Let_def split: option.split)

lemma cache_get_sub:
  "map_of (entries (fst (cache_get H c q rid now))) k = Some e \<Longrightarrow> map_of (entries c) k = Some e"
  by (auto simp: cache_get_def Let_def map_of_delete_if split: option.splits if_splits)

lemma cache_get_hit:
  assumes "snd (cache_get H c q rid now) = Some r"
  obtains k e where "map_of (entries c) k = Some e"
    "e_requestFingerprint e = evaluationCacheKey H q" "now < e_expiresAt e"
    "r_policyRevision (e_response e) = latestRevision c" "r = (e_response e)\<lparr>r_requestID := rid\<rparr>"
  using assms by (auto simp: cache_get_def Let_def split: option.splits if_splits)

lemma latest_put:
  "latestRevision (cache_put H ord1 ord2 c q r now) =
     (if put_accepted c r then r_policyRevision r else latestRevision c)"
  by (simp add: cache_put_eq store_entry_def put_accepted_def)

section \<open>Histories\<close>

text \<open>The operations other code performs on a cache, and their results.\<close>

datatype cacheOp =
    CacheGet evaluationRequest string gotime
  | CachePut range_order range_order evaluationRequest evaluationResponse gotime

fun cache_step ::
    "(string \<Rightarrow> string) \<Rightarrow> decisionCache \<Rightarrow> cacheOp \<Rightarrow> decisionCache \<times> evaluationResponse option" where
  "cache_step H c (CacheGet q rid now) = cache_get H c q rid now"
| "cache_step H c (CachePut ord1 ord2 q r now) = (cache_put H ord1 ord2 c q r now, None)"

fun cache_legal :: "cacheOp \<Rightarrow> bool" where
  "cache_legal (CacheGet q rid now) = True"
| "cache_legal (CachePut ord1 ord2 q r now) = (is_range_order ord1 \<and> is_range_order ord2)"

interpretation cache_object: object_invariant "cache_step H" cache_inv cache_legal
proof
  show "cache_inv (fst (cache_step H s x))" if "cache_inv s" "cache_legal x" for s x
    using that by (cases x) (simp_all add: cache_get_inv cache_put_inv)
qed

definition cache_run ::
    "(string \<Rightarrow> string) \<Rightarrow> int \<Rightarrow> duration \<Rightarrow> cacheOp list \<Rightarrow> decisionCache \<times> evaluationResponse option list"
  where "cache_run H n ttl ops = run_ops (cache_step H) (newDecisionCache n ttl) ops"

lemma cache_run_inv: "list_all cache_legal ops \<Longrightarrow> cache_inv (fst (cache_run H n ttl ops))"
  unfolding cache_run_def by (rule cache_object.run_inv [OF new_inv])

lemma cache_step_fields:
  "maximumEntries (fst (cache_step H c x)) = maximumEntries c"
  "maximumTTL (fst (cache_step H c x)) = maximumTTL c"
  by (cases x; simp)+

lemma cache_run_snoc:
  "cache_run H n ttl (ops @ [x]) =
     (fst (cache_step H (fst (cache_run H n ttl ops)) x),
      snd (cache_run H n ttl ops) @ [snd (cache_step H (fst (cache_run H n ttl ops)) x)])"
  by (simp add: cache_run_def run_ops_append)

lemma cache_run_fields:
  "maximumEntries (fst (cache_run H n ttl ops)) = n"
  "maximumTTL (fst (cache_run H n ttl ops)) = ttl"
  by (induction ops rule: rev_induct)
    (simp_all add: cache_run_snoc cache_step_fields, simp_all add: cache_run_def newDecisionCache_def)

text \<open>Every entry was put by an operation of the history, and no older one outlives a revision.\<close>

lemma cache_run_entries:
  "map_of (entries (fst (cache_run H n ttl ops))) k = Some e \<Longrightarrow>
     \<exists>ord1 ord2 q. CachePut ord1 ord2 q (e_response e) (e_createdAt e) \<in> set ops
       \<and> evaluationCacheKey H q = e_requestFingerprint e"
proof (induction ops arbitrary: k e rule: rev_induct)
  case Nil
  then show ?case by (simp add: cache_run_def newDecisionCache_def)
next
  case (snoc x ops)
  let ?c = "fst (cache_run H n ttl ops)"
  show ?case
  proof (cases "map_of (entries ?c) k = Some e")
    case True
    then show ?thesis using snoc.IH by fastforce
  next
    case False
    then obtain ord1 ord2 q r now where x: "x = CachePut ord1 ord2 q r now"
      using snoc.prems by (cases x) (auto simp: cache_run_snoc dest: cache_get_sub)
    with False snoc.prems have acc: "put_accepted ?c r"
      by (auto simp: cache_run_snoc cache_put_eq split: if_splits)
    have "e = new_entry ?c r (evaluationCacheKey H q) (cacheCompositeKey H q r) now"
      using False snoc.prems x acc
      by (auto simp: cache_run_snoc cache_put_eq store_entry_def map_of_update_if
          dest: put_base_sub split: if_splits)
    with x show ?thesis by (auto simp: new_entry_def)
  qed
qed

lemma cache_run_revision:
  "CachePut ord1 ord2 q r now \<in> set ops \<Longrightarrow>
     \<not> put_refused (newDecisionCache n ttl) r \<Longrightarrow> 0 < entry_ttl (newDecisionCache n ttl) r \<Longrightarrow>
     r_policyRevision r \<le> latestRevision (fst (cache_run H n ttl ops))"
proof (induction ops rule: rev_induct)
  case (snoc x ops)
  let ?c = "fst (cache_run H n ttl ops)" and ?n = "newDecisionCache n ttl"
  have "latestRevision ?c \<le> latestRevision (fst (cache_step H ?c x))"
    by (cases x) (auto simp: latest_put put_accepted_def)
  moreover have "r_policyRevision r \<le> latestRevision (fst (cache_step H ?c x))"
    if "x = CachePut ord1 ord2 q r now"
  proof -
    have "maximumEntries ?c = maximumEntries ?n" "maximumTTL ?c = maximumTTL ?n"
      by (simp_all add: cache_run_fields newDecisionCache_def)
    then have "\<not> put_refused ?c r" "0 < entry_ttl ?c r"
      using snoc.prems put_refused_cong [of ?c ?n] entry_ttl_cong [of ?c ?n] by simp_all
    with that show ?thesis by (auto simp: latest_put put_accepted_def)
  qed
  ultimately show ?case
    using snoc by (auto simp: cache_run_snoc intro: order_trans)
qed simp

section \<open>What a key determines\<close>

definition nul_free :: "string \<Rightarrow> bool" where
  "nul_free s \<longleftrightarrow> CHR 0x00 \<notin> set s"

text \<open>The parts that are hashed, without their terminators.\<close>

definition scalar_parts :: "evaluationRequest \<Rightarrow> string list" where
  "scalar_parts q = [q_clientIP q, q_method q, q_scheme q, q_host q, q_path q, q_query q,
     q_protocolType q, q_httpVersion q, q_resourceHint q]"

definition flag_parts :: "evaluationRequest \<Rightarrow> string list" where
  "flag_parts q = (if q_bodyTruncated q then [''body-truncated''] else [])
     @ (if q_headersTruncated q then [''headers-truncated''] else [])
     @ (if q_cookiesTruncated q then [''cookies-truncated''] else [])"

definition map_parts :: "string gomap \<Rightarrow> string list" where
  "map_parts m = concat (map (\<lambda>key. [to_lower key, the (map_of m key)]) (sort (keys m)))"

definition body_parts :: "(string \<Rightarrow> string) \<Rightarrow> evaluationRequest \<Rightarrow> string list" where
  "body_parts H q = (if length (q_body q) \<noteq> 0 then [hex_encode (H (q_body q))] else [])"

definition key_parts :: "(string \<Rightarrow> string) \<Rightarrow> evaluationRequest \<Rightarrow> string list" where
  "key_parts H q = scalar_parts q @ flag_parts q @ map_parts (q_headers q) @ map_parts (q_cookies q)
     @ body_parts H q"

abbreviation write_parts :: "string list \<Rightarrow> string" where
  "write_parts ps \<equiv> concat (map writeHashPart ps)"

lemma writeStringMap_parts: "writeStringMap m = write_parts (map_parts m)"
proof -
  have "concat (map (\<lambda>key. writeHashPart (to_lower key) @ writeHashPart (the (map_of m key))) ks)
          = write_parts (concat (map (\<lambda>key. [to_lower key, the (map_of m key)]) ks))" for ks
    by (induction ks) auto
  then show ?thesis by (simp add: writeStringMap_def map_parts_def)
qed

lemma evaluationCacheKey_parts: "evaluationCacheKey H q = hex_encode (H (write_parts (key_parts H q)))"
  by (simp add: evaluationCacheKey_def key_parts_def scalar_parts_def flag_parts_def body_parts_def
      writeStringMap_parts)

text \<open>Terminated parts that hold no terminator can be read back.\<close>

lemma writeHashPart_prefix:
  "nul_free a \<Longrightarrow> nul_free b \<Longrightarrow> writeHashPart a @ s = writeHashPart b @ t \<Longrightarrow> a = b \<and> s = t"
proof (induction a arbitrary: b)
  case Nil
  then show ?case by (cases b) (auto simp: nul_free_def writeHashPart_def)
next
  case (Cons x a)
  then show ?case by (cases b) (auto simp: nul_free_def writeHashPart_def)
qed

lemma write_parts_inj:
  "list_all nul_free ps \<Longrightarrow> list_all nul_free qs \<Longrightarrow> write_parts ps = write_parts qs \<Longrightarrow> ps = qs"
proof (induction ps arbitrary: qs)
  case Nil
  then show ?case by (cases qs) (auto simp: writeHashPart_def)
next
  case (Cons p ps)
  show ?case
  proof (cases qs)
    case Nil
    with Cons.prems show ?thesis by (simp add: writeHashPart_def)
  next
    case (Cons q qs')
    with Cons.prems writeHashPart_prefix [of p q] Cons.IH [of qs'] show ?thesis by auto
  qed
qed

text \<open>What is hashed for a request: the parts and, beneath them, the body.\<close>

definition hashed_inputs :: "(string \<Rightarrow> string) \<Rightarrow> evaluationRequest \<Rightarrow> string set" where
  "hashed_inputs H q = {write_parts (key_parts H q), q_body q}"

lemma evaluationCacheKey_inj:
  assumes "inj_on H (hashed_inputs H q1 \<union> hashed_inputs H q2)" "list_all nul_free (key_parts H q1)" "list_all nul_free (key_parts H q2)"
    and "evaluationCacheKey H q1 = evaluationCacheKey H q2"
  shows "key_parts H q1 = key_parts H q2"
proof -
  from assms(4) have "H (write_parts (key_parts H q1)) = H (write_parts (key_parts H q2))"
    unfolding evaluationCacheKey_parts by (rule hex_encode_inj)
  with assms(1) have "write_parts (key_parts H q1) = write_parts (key_parts H q2)"
    by (rule inj_onD) (simp_all add: hashed_inputs_def)
  with assms(2,3) show ?thesis by (rule write_parts_inj)
qed

lemma length_map_parts: "length (map_parts m) = 2 * length m"
proof -
  have "length (concat (map (\<lambda>key. [to_lower key, the (map_of m key)]) ks)) = 2 * length ks" for ks
    by (induction ks) auto
  then show ?thesis by (simp add: map_parts_def)
qed

lemma pairs_inj:
  "concat (map (\<lambda>k. [f k, g k]) ks) = concat (map (\<lambda>k. [f' k, g' k]) ls) \<Longrightarrow>
     map f ks = map f' ls \<and> map g ks = map g' ls"
proof (induction ks arbitrary: ls)
  case Nil
  then show ?case by (cases ls) auto
next
  case (Cons k ks)
  then show ?case by (cases ls) auto
qed

text \<open>A map whose keys are in lower case is determined by its parts.\<close>

lemma map_parts_inj:
  assumes "map_parts m1 = map_parts m2"
    and "\<forall>k \<in> set (keys m1). to_lower k = k" "\<forall>k \<in> set (keys m2). to_lower k = k"
  shows "map_of m1 = map_of m2"
proof -
  let ?k1 = "sort (keys m1)" and ?k2 = "sort (keys m2)"
  have eq: "map to_lower ?k1 = map to_lower ?k2"
      "map (\<lambda>k. the (map_of m1 k)) ?k1 = map (\<lambda>k. the (map_of m2 k)) ?k2"
    using pairs_inj [OF assms(1) [unfolded map_parts_def]] by simp_all
  have "map to_lower ?k1 = ?k1" "map to_lower ?k2 = ?k2"
    using assms(2,3) by (intro map_idI; auto)+
  with eq(1) have k: "?k1 = ?k2" by simp
  then have ks: "set (keys m1) = set (keys m2)" by (metis set_sort)
  have val: "the (map_of m1 x) = the (map_of m2 x)" if "x \<in> set (keys m1)" for x
    using eq(2) that unfolding k [symmetric] map_eq_conv set_sort by (rule bspec)
  show ?thesis
  proof
    fix x
    show "map_of m1 x = map_of m2 x"
    proof (cases "x \<in> set (keys m1)")
      case True
      moreover from this ks have "x \<in> set (keys m2)" by simp
      ultimately show ?thesis
        using val [OF True] keys_map_of [of x m1] keys_map_of [of x m2] by auto
    next
      case False
      moreover from this ks have "x \<notin> set (keys m2)" by simp
      ultimately show ?thesis
        using map_of_eq_None_keys [of m1 x] map_of_eq_None_keys [of m2 x] by simp
    qed
  qed
qed

section \<open>Properties\<close>

text \<open>A request and a block decision on it, to evaluate the operations at.\<close>

definition exampleRequest :: evaluationRequest where
  "exampleRequest = \<lparr>q_requestID = ''r1'', q_clientIP = ''203.0.113.7'', q_clientIPSource = ''direct'',
     q_method = ''GET'', q_scheme = ''https'', q_host = ''example.test'', q_path = ''/a'',
     q_query = [], q_headers = [(''accept'', ''text/html'')], q_cookies = [(''sid'', ''1'')],
     q_headerMode = ''all'', q_cookieMode = ''all'', q_allowlistedHeaders = [],
     q_allowlistedCookies = [], q_headersTruncated = False, q_cookiesTruncated = False,
     q_protocolType = ''http'', q_httpVersion = ''HTTP/1.1'', q_body = [],
     q_bodyTruncated = False, q_resourceHint = []\<rparr>"

definition exampleBlock :: evaluationResponse where
  "exampleBlock = emptyResponse\<lparr>r_decision := ''block'', r_status := 403, r_requestID := ''r1'',
     r_publicReason := ''policy'', r_cacheTTLMS := 1000, r_cacheable := True,
     r_cacheKey := ''k'', r_cacheKeyScope := ''request'', r_decisionScope := ''site'',
     r_policyRevision := 7\<rparr>"

lemma ids_are_range_orders [simp]: "is_range_order id" "is_range_order rev"
  by (simp_all add: is_range_order_def)

text \<open>
  C3. A hit is authorised. In every history of a cache, a lookup that answers returns a decision
  that an earlier operation stored for a request with the same fingerprint, with only the
  request ID replaced; it is a cacheable block or rate-limit decision without a challenge token,
  its lifetime (never more than the configured one) has not ended, and no decision of a newer
  policy revision was put before the lookup.
\<close>

theorem cache_hit_is_authorised:
  assumes "list_all cache_legal ops" and "i < length ops" and "ops ! i = CacheGet q rid now"
    and "snd (cache_run H n ttl ops) ! i = Some r"
  shows "\<exists>j < i. \<exists>ord1 ord2 q' r' now'. ops ! j = CachePut ord1 ord2 q' r' now'
     \<and> evaluationCacheKey H q' = evaluationCacheKey H q
     \<and> r = r'\<lparr>r_requestID := rid\<rparr>
     \<and> r_decision r \<in> {''block'', ''rate_limit''} \<and> r_cacheable r \<and> r_challengeToken r = []
     \<and> now < now' + min ttl (wrap64 (r_cacheTTLMS r * millisecond))
     \<and> (\<forall>k < i. \<forall>o1 o2 q'' r'' now''. ops ! k = CachePut o1 o2 q'' r'' now''
          \<longrightarrow> \<not> put_refused (newDecisionCache n ttl) r'' \<longrightarrow> 0 < entry_ttl (newDecisionCache n ttl) r''
          \<longrightarrow> r_policyRevision r'' \<le> r_policyRevision r)"
proof -
  let ?pre = "take i ops"
  let ?c = "fst (cache_run H n ttl ?pre)"
  have ops: "ops = (?pre @ [ops ! i]) @ drop (Suc i) ops"
    using assms(2) by (simp add: id_take_nth_drop)
  have len: "length (snd (cache_run H n ttl ?pre)) = i"
    using assms(2) by (simp add: cache_run_def run_ops_length)
  have "snd (cache_run H n ttl ops) ! i = snd (cache_get H ?c q rid now)"
    using len assms(3) by (subst ops) (simp add: cache_run_def run_ops_append nth_append)
  then obtain k e where e: "map_of (entries ?c) k = Some e"
      "e_requestFingerprint e = evaluationCacheKey H q" "now < e_expiresAt e"
      "r_policyRevision (e_response e) = latestRevision ?c" "r = (e_response e)\<lparr>r_requestID := rid\<rparr>"
    using assms(4) by (metis cache_get_hit)
  have "cache_inv ?c"
    using assms(1) by (intro cache_run_inv) (auto simp: list_all_iff dest: in_set_takeD)
  then have ok: "entry_ok ?c k e" using e(1) by (rule cache_invD)
  then have deny: "r_decision r \<in> {''block'', ''rate_limit''}" "r_cacheable r" "r_challengeToken r = []"
    using e(5) by (auto simp: entry_ok_def put_refused_def)
  have life: "now < e_createdAt e + min ttl (wrap64 (r_cacheTTLMS r * millisecond))"
    using ok e(3,5) by (auto simp: entry_ok_def entry_ttl_def Let_def cache_run_fields split: if_splits)
  obtain ord1 ord2 q' where "CachePut ord1 ord2 q' (e_response e) (e_createdAt e) \<in> set ?pre"
      and q': "evaluationCacheKey H q' = evaluationCacheKey H q"
    using cache_run_entries [OF e(1)] e(2) by auto
  then obtain j where j: "j < i" "ops ! j = CachePut ord1 ord2 q' (e_response e) (e_createdAt e)"
    using assms(2) by (auto simp: in_set_conv_nth)
  have "r_policyRevision r'' \<le> r_policyRevision r"
    if "m < i" "ops ! m = CachePut o1 o2 q'' r'' now''"
      "\<not> put_refused (newDecisionCache n ttl) r''" "0 < entry_ttl (newDecisionCache n ttl) r''"
    for m o1 o2 q'' r'' now''
  proof -
    have "CachePut o1 o2 q'' r'' now'' \<in> set ?pre"
      using that(1,2) assms(2) by (force simp: in_set_conv_nth)
    from cache_run_revision [OF this that(3,4), of H] show ?thesis using e(4,5) by simp
  qed
  with j q' e(5) deny life show ?thesis by blast
qed

text \<open>A digest to evaluate the witnesses with.\<close>

definition exampleHash :: "string \<Rightarrow> string" where
  "exampleHash = (\<lambda>s. take 2 s)"

theorem cache_hit_is_authorised_witness:
  "snd (cache_run exampleHash 4 1000000000
        [CachePut id rev exampleRequest exampleBlock 5, CacheGet exampleRequest ''r2'' 9]) ! 1
       = Some (exampleBlock\<lparr>r_requestID := ''r2''\<rparr>)
   \<and> (\<exists>j < 1. \<exists>ord1 ord2 q' r' now'.
        [CachePut id rev exampleRequest exampleBlock 5, CacheGet exampleRequest ''r2'' 9] ! j
          = CachePut ord1 ord2 q' r' now')"
proof -
  let ?ops = "[CachePut id rev exampleRequest exampleBlock 5, CacheGet exampleRequest ''r2'' 9]"
  have l: "list_all cache_legal ?ops" by simp
  have g: "snd (cache_run exampleHash 4 1000000000 ?ops) ! 1
      = Some (exampleBlock\<lparr>r_requestID := ''r2''\<rparr>)"
    by code_simp
  have i: "1 < length ?ops" "?ops ! 1 = CacheGet exampleRequest ''r2'' 9" by simp_all
  from cache_hit_is_authorised [OF l i g]
  have "\<exists>j < 1. \<exists>ord1 ord2 q' r' now'. ?ops ! j = CachePut ord1 ord2 q' r' now'"
    by (elim exE conjE) (intro exI conjI, assumption+)
  with g show ?thesis by (rule conjI)
qed

lemma get_after_put:
  assumes "put_accepted c r" and "evaluationCacheKey H q' = evaluationCacheKey H q"
    and "now' < now + entry_ttl c r"
  shows "cache_get H (cache_put H ord1 ord2 c q r now) q' rid now'
     = (cache_put H ord1 ord2 c q r now, Some (r\<lparr>r_requestID := rid\<rparr>))"
proof -
  let ?c = "cache_put H ord1 ord2 c q r now" and ?k = "cacheCompositeKey H q r"
  have "maximumEntries ?c \<noteq> 0" "maximumTTL ?c \<noteq> 0"
    using assms(1) by (simp_all add: put_accepted_def put_refused_def)
  moreover have "map_of (requestIndex ?c) (evaluationCacheKey H q') = Some ?k"
    using assms(1,2) by (simp add: cache_put_eq store_entry_def map_of_update_if)
  moreover have "map_of (entries ?c) ?k = Some (new_entry c r (evaluationCacheKey H q) ?k now)"
    using assms(1) by (simp add: cache_put_eq store_entry_def map_of_update_if)
  moreover have "latestRevision ?c = r_policyRevision r"
    using assms(1) by (simp add: latest_put)
  ultimately show ?thesis
    using assms(2,3) by (simp add: cache_get_def new_entry_def)
qed

text \<open>
  Lookup after insertion. A response that \<open>put\<close> accepts is what the next lookup of a request
  with the same fingerprint returns, with the request ID of that lookup, until the entry's
  lifetime is over; the lookup leaves the cache as it is.
\<close>

lemma cache_get_after_put:
  assumes "put_accepted c r" and "evaluationCacheKey H q' = evaluationCacheKey H q"
    and "now' < now + entry_ttl c r"
  shows "cache_get H (cache_put H ord1 ord2 c q r now) q' rid now'
     = (cache_put H ord1 ord2 c q r now, Some (r\<lparr>r_requestID := rid\<rparr>))"
  using get_after_put [OF assms] .

lemma cache_get_after_put_witness:
  "put_accepted (newDecisionCache 4 1000000000) exampleBlock
   \<and> snd (cache_get exampleHash
        (cache_put exampleHash id rev (newDecisionCache 4 1000000000) exampleRequest exampleBlock 5)
        (exampleRequest\<lparr>q_requestID := ''r2''\<rparr>) ''r2'' 1000000004)
     = Some (exampleBlock\<lparr>r_requestID := ''r2''\<rparr>)"
proof -
  have a: "put_accepted (newDecisionCache 4 1000000000) exampleBlock" by code_simp
  have k: "evaluationCacheKey exampleHash (exampleRequest\<lparr>q_requestID := ''r2''\<rparr>)
      = evaluationCacheKey exampleHash exampleRequest"
    by (simp add: evaluationCacheKey_def)
  have t: "1000000004 < 5 + entry_ttl (newDecisionCache 4 1000000000) exampleBlock" by code_simp
  show ?thesis using a cache_get_after_put [OF a k t, of id rev "''r2''"] by simp
qed

text \<open>
  C38. Bounded. After any history of operations a cache holds at most the configured number of
  entries, each under its own composite key and reachable from the index, and all of the latest
  policy revision.
\<close>

theorem cache_is_bounded:
  assumes "list_all cache_legal ops" and "0 \<le> n"
  shows "int (length (entries (fst (cache_run H n ttl ops)))) \<le> n
     \<and> wf_map (entries (fst (cache_run H n ttl ops)))
     \<and> (\<forall>k e. map_of (entries (fst (cache_run H n ttl ops))) k = Some e \<longrightarrow>
          e_compositeKey e = k
          \<and> map_of (requestIndex (fst (cache_run H n ttl ops))) (e_requestFingerprint e) = Some k
          \<and> r_policyRevision (e_response e) = latestRevision (fst (cache_run H n ttl ops)))"
  using cache_invD [OF cache_run_inv [OF assms(1), of H n ttl]] assms(2)
  by (simp add: cache_run_fields entry_ok_def)

theorem cache_is_bounded_witness:
  "int (length (entries (fst (cache_run exampleHash 1 1000000000
        [CachePut id rev exampleRequest exampleBlock 5,
         CachePut id rev exampleRequest (exampleBlock\<lparr>r_cacheKey := ''k2''\<rparr>) 6])))) \<le> 1"
  using cache_is_bounded [of "[CachePut id rev exampleRequest exampleBlock 5,
         CachePut id rev exampleRequest (exampleBlock\<lparr>r_cacheKey := ''k2''\<rparr>) 6]" 1
         exampleHash 1000000000]
  by simp

lemma unlink_kept:
  assumes "map_of (entries c) k = Some e" "cache_inv c" "e_requestFingerprint e \<noteq> f"
    and "map_of (requestIndex c) f \<noteq> Some k"
  shows "map_of (entries (unlink_previous c f x)) k = Some e"
  using assms by (auto simp: unlink_previous_def map_of_delete_if split: option.splits)

text \<open>
  Eviction is oldest first. When storing a decision drops a live entry of another request
  under the same policy revision, the cache was full, and every earlier entry that stays was
  created no earlier than the dropped one.
\<close>

lemma cache_put_evicts_oldest:
  assumes inv: "cache_inv c" and ord: "is_range_order ord2" and keys: "[] \<notin> set (keys (entries c))"
    and rev: "r_policyRevision r = latestRevision c"
    and e: "map_of (entries c) k = Some e" "now < e_expiresAt e"
    and other: "map_of (requestIndex (sweep_expired now (ord1 (keys (entries c))) c))
        (evaluationCacheKey H q) \<noteq> Some k"
      "e_requestFingerprint e \<noteq> evaluationCacheKey H q" "k \<noteq> cacheCompositeKey H q r"
    and gone: "map_of (entries (cache_put H ord1 ord2 c q r now)) k = None"
  shows "maximumEntries c \<le> int (length (entries c))
     \<and> (\<forall>k' e'. k' \<noteq> cacheCompositeKey H q r
          \<longrightarrow> map_of (entries (cache_put H ord1 ord2 c q r now)) k' = Some e'
          \<longrightarrow> e_createdAt e \<le> e_createdAt e')"
proof -
  let ?x = "cacheCompositeKey H q r" and ?f = "evaluationCacheKey H q"
  let ?c1 = "sweep_expired now (ord1 (keys (entries c))) c"
  let ?c2 = "unlink_previous ?c1 ?f ?x"
  have acc: "put_accepted c r"
    using gone e(1) by (auto simp: cache_put_eq split: if_splits)
  have base: "put_base H ord1 ord2 c q r now = make_room ord2 ?c2 ?x"
    using rev by (simp add: put_base_def Let_def reset_revision_def)
  have put: "map_of (entries (cache_put H ord1 ord2 c q r now)) k'
      = map_of (entries (make_room ord2 ?c2 ?x)) k'" if "k' \<noteq> ?x" for k'
    using acc that by (simp add: cache_put_eq base store_entry_def map_of_update_if)
  have inv2: "cache_inv ?c2" using inv by (simp add: unlink_inv sweep_inv)
  have "map_of (entries ?c1) k = Some e"
    using e by (simp add: map_of_sweep)
  then have e2: "map_of (entries ?c2) k = Some e"
    using sweep_inv [OF inv] other(1,2) by (intro unlink_kept) auto
  then have full: "maximumEntries c \<le> int (length (entries ?c2))"
      and mr: "make_room ord2 ?c2 ?x = evict_oldest ord2 ?c2"
    using gone put [OF other(3)] by (auto simp: make_room_def split: if_splits)
  have ne: "entries ?c2 \<noteq> []" using e2 by auto
  obtain k0 e0 where ev: "evict_oldest ord2 ?c2 = deleteEntry ?c2 k0 e0"
      "k0 = find_oldest (entries ?c2) (ord2 (keys (entries ?c2))) [] 0"
    using evict_deletes [OF ord ne] by metis
  have k0: "k0 = k"
    using gone put [OF other(3)] e2 ev by (auto simp: mr map_of_delete_if split: if_splits)
  have sub: "set (keys (entries ?c2)) \<subseteq> set (keys (entries c))"
  proof
    fix x assume "x \<in> set (keys (entries ?c2))"
    then obtain e' where "map_of (entries ?c2) x = Some e'" using keys_map_of by metis
    then have "map_of (entries c) x = Some e'" by (rule sweep_sub [OF unlink_sub])
    then show "x \<in> set (keys (entries c))" by (rule map_of_SomeD_keys)
  qed
  have old: "e_createdAt e \<le> e_createdAt e'"
    if "k' \<noteq> ?x" "map_of (entries (cache_put H ord1 ord2 c q r now)) k' = Some e'" for k' e'
  proof -
    have e': "map_of (entries ?c2) k' = Some e'"
      using that put [of k'] by (auto dest: make_room_sub)
    have "\<exists>e''. map_of (entries ?c2) k0 = Some e'' \<and> e_createdAt e'' \<le> e_createdAt e'"
      unfolding ev(2) using e' keys sub range_order_set [OF ord] map_of_SomeD_keys [OF e']
      by (intro find_oldest_min) (auto simp del: set_map)
    with k0 e2 show ?thesis by simp
  qed
  have "length (entries ?c2) = card (set (keys (entries ?c2)))"
    using distinct_card [OF cache_invD(1) [OF inv2]] by simp
  also have "\<dots> \<le> card (set (keys (entries c)))"
    by (rule card_mono [OF finite_set sub])
  also have "\<dots> \<le> length (entries c)"
    using card_length [of "keys (entries c)"] by simp
  finally have "maximumEntries c \<le> int (length (entries c))" using full by simp
  with old show ?thesis by blast
qed

lemma cache_put_evicts_oldest_witness:
  "map_of (entries (cache_put exampleHash id id
      (cache_put exampleHash id id (newDecisionCache 1 1000000000) exampleRequest exampleBlock 5)
      (exampleRequest\<lparr>q_clientIP := ''198.51.100.1''\<rparr>) exampleBlock 6)) ''3332'' = None
   \<and> 1 \<le> int (length (entries
      (cache_put exampleHash id id (newDecisionCache 1 1000000000) exampleRequest exampleBlock 5)))"
proof -
  let ?c = "cache_put exampleHash id id (newDecisionCache 1 1000000000) exampleRequest exampleBlock 5"
  let ?q = "exampleRequest\<lparr>q_clientIP := ''198.51.100.1''\<rparr>"
  let ?e = "new_entry (newDecisionCache 1 1000000000) exampleBlock ''3230'' ''3332'' 5"
  have inv: "cache_inv ?c" by (rule cache_put_inv [OF new_inv]) simp
  have k: "[] \<notin> set (keys (entries ?c))" by code_simp
  have rev: "r_policyRevision exampleBlock = latestRevision ?c" by code_simp
  have e: "map_of (entries ?c) ''3332'' = Some ?e" by code_simp
  have live: "6 < e_expiresAt ?e" by code_simp
  have o1: "map_of (requestIndex (sweep_expired 6 (id (keys (entries ?c))) ?c))
      (evaluationCacheKey exampleHash ?q) \<noteq> Some ''3332''" by code_simp
  have o2: "e_requestFingerprint ?e \<noteq> evaluationCacheKey exampleHash ?q" by code_simp
  have o3: "''3332'' \<noteq> cacheCompositeKey exampleHash ?q exampleBlock" by code_simp
  have gone: "map_of (entries (cache_put exampleHash id id ?c ?q exampleBlock 6)) ''3332'' = None"
    by code_simp
  have max: "maximumEntries ?c = 1" by code_simp
  show ?thesis
    using cache_put_evicts_oldest
      [OF inv ids_are_range_orders(1) k rev e live o1 o2 o3 gone] gone max
    by simp
qed

text \<open>
  C22. What the fingerprint binds. With a digest that has no collision among what is hashed for two
  requests, requests whose hashed parts hold no NUL byte and whose fingerprints are equal agree on client address, method, scheme,
  host, path, query, protocol type, HTTP version and resource hint. If they also agree on the
  truncation flags and the number of headers, they agree on the body, and on every header when the
  header names are in lower case (as the plugin's are).
\<close>

theorem cache_key_binds_request:
  assumes "inj_on H (hashed_inputs H q1 \<union> hashed_inputs H q2)"
    and "list_all nul_free (key_parts H q1)" and "list_all nul_free (key_parts H q2)"
    and "evaluationCacheKey H q1 = evaluationCacheKey H q2"
  shows "q_clientIP q1 = q_clientIP q2 \<and> q_method q1 = q_method q2 \<and> q_scheme q1 = q_scheme q2
     \<and> q_host q1 = q_host q2 \<and> q_path q1 = q_path q2 \<and> q_query q1 = q_query q2
     \<and> q_protocolType q1 = q_protocolType q2 \<and> q_httpVersion q1 = q_httpVersion q2
     \<and> q_resourceHint q1 = q_resourceHint q2
     \<and> (flag_parts q1 = flag_parts q2 \<longrightarrow> length (q_headers q1) = length (q_headers q2) \<longrightarrow>
          q_body q1 = q_body q2
          \<and> ((\<forall>k \<in> set (keys (q_headers q1)) \<union> set (keys (q_headers q2)). to_lower k = k)
              \<longrightarrow> map_of (q_headers q1) = map_of (q_headers q2)))"
proof -
  note eq = evaluationCacheKey_inj [OF assms]
  then have sc: "scalar_parts q1 = scalar_parts q2"
    by (simp add: key_parts_def scalar_parts_def)
  have rest: "q_body q1 = q_body q2
      \<and> ((\<forall>k \<in> set (keys (q_headers q1)) \<union> set (keys (q_headers q2)). to_lower k = k)
              \<longrightarrow> map_of (q_headers q1) = map_of (q_headers q2))"
    if f: "flag_parts q1 = flag_parts q2" and n: "length (q_headers q1) = length (q_headers q2)"
  proof -
    have h: "map_parts (q_headers q1) = map_parts (q_headers q2)"
      and cb: "map_parts (q_cookies q1) @ body_parts H q1 = map_parts (q_cookies q2) @ body_parts H q2"
      using eq sc f n by (simp_all add: key_parts_def length_map_parts append_eq_append_conv)
    have "length (map_parts (q_cookies q1) @ body_parts H q1) mod 2
        = length (map_parts (q_cookies q2) @ body_parts H q2) mod 2" using cb by simp
    then have "(q_body q1 = []) = (q_body q2 = [])"
      by (auto simp: length_map_parts body_parts_def split: if_splits)
    then have "body_parts H q1 = body_parts H q2"
      using cb by (auto simp: body_parts_def)
    then have "q_body q1 \<noteq> [] \<Longrightarrow> H (q_body q1) = H (q_body q2)"
      using \<open>(q_body q1 = []) = (q_body q2 = [])\<close>
      by (auto simp: body_parts_def dest!: hex_encode_inj)
    then have "q_body q1 = q_body q2"
      using \<open>(q_body q1 = []) = (q_body q2 = [])\<close> inj_onD [OF assms(1), of "q_body q1" "q_body q2"]
      by (auto simp: hashed_inputs_def)
    then show ?thesis using map_parts_inj [OF h] by blast
  qed
  from sc rest show ?thesis by (simp add: scalar_parts_def)
qed

theorem cache_key_binds_request_witness:
  "evaluationCacheKey id exampleRequest
     = evaluationCacheKey id (exampleRequest\<lparr>q_requestID := ''r9''\<rparr>)
   \<and> q_path exampleRequest = q_path (exampleRequest\<lparr>q_requestID := ''r9''\<rparr>)"
proof -
  let ?q = "exampleRequest\<lparr>q_requestID := ''r9''\<rparr>"
  have n: "list_all nul_free (key_parts id exampleRequest)" by code_simp
  have n': "list_all nul_free (key_parts id ?q)" by code_simp
  have k: "evaluationCacheKey id exampleRequest = evaluationCacheKey id ?q"
    by (simp add: evaluationCacheKey_def)
  show ?thesis using k cache_key_binds_request [OF inj_on_id n n' k] by blast
qed

text \<open>
  What the fingerprint does not bind. A header and a cookie of the same name and value
  contribute the same bytes, so moving the last header of a request into its cookies leaves the
  fingerprint, and with it every cached decision, as it was, for every digest.
\<close>

lemma cache_key_header_cookie_collision:
  assumes "\<forall>k' \<in> set (keys hs). k' < k"
  shows "evaluationCacheKey H (q\<lparr>q_headers := hs @ [(k, v)], q_cookies := []\<rparr>)
       = evaluationCacheKey H (q\<lparr>q_headers := hs, q_cookies := [(k, v)]\<rparr>)"
proof -
  have "k \<notin> set (keys hs)" using assms by blast
  then have m: "map_of (hs @ [(k, v)]) k' = (if k' = k then Some v else map_of hs k')" for k'
    using map_of_eq_None_keys [of hs k]
    by (auto simp: map_add_def split: option.splits)
  have "sort (keys (hs @ [(k, v)])) = sort (keys hs) @ [k]"
  proof (rule properties_for_sort)
    show "mset (sort (keys hs) @ [k]) = mset (keys (hs @ [(k, v)]))" by simp
    show "sorted (sort (keys hs) @ [k])" using assms by (auto simp: sorted_append less_imp_le)
  qed
  then have "map_parts (hs @ [(k, v)]) = map_parts hs @ [to_lower k, v]"
    using \<open>k \<notin> set (keys hs)\<close> unfolding map_parts_def
    by (auto simp: m simp del: map_of_append intro!: arg_cong [of _ _ concat] map_cong)
  moreover have "map_parts [(k, v)] = [to_lower k, v]" "map_parts [] = []"
    by (simp_all add: map_parts_def)
  ultimately show ?thesis
    unfolding evaluationCacheKey_parts
    by (simp add: key_parts_def scalar_parts_def flag_parts_def body_parts_def)
qed

lemma cache_key_header_cookie_collision_witness:
  "evaluationCacheKey exampleHash (exampleRequest\<lparr>q_headers := [(''accept'', ''a'')] @ [(''x'', ''b'')], q_cookies := []\<rparr>)
     = evaluationCacheKey exampleHash (exampleRequest\<lparr>q_headers := [(''accept'', ''a'')], q_cookies := [(''x'', ''b'')]\<rparr>)"
  by (rule cache_key_header_cookie_collision) simp


section \<open>What the middleware relies on\<close>

text \<open>
  The contract of the decision store: a lookup only finds denies, an accepted insertion is found
  again under every request with the same key until its lifetime is over, and both operations
  keep the store's invariant.
\<close>

locale decision_store =
  fixes get :: "'c \<Rightarrow> evaluationRequest \<Rightarrow> string \<Rightarrow> gotime \<Rightarrow> 'c \<times> evaluationResponse option"
    and put :: "'o \<Rightarrow> 'c \<Rightarrow> evaluationRequest \<Rightarrow> evaluationResponse \<Rightarrow> gotime \<Rightarrow> 'c"
    and legal :: "'o \<Rightarrow> bool"
    and inv :: "'c \<Rightarrow> bool"
    and key :: "evaluationRequest \<Rightarrow> string"
    and accepts :: "'c \<Rightarrow> evaluationResponse \<Rightarrow> bool"
    and lifetime :: "'c \<Rightarrow> evaluationResponse \<Rightarrow> duration"
  assumes get_inv: "inv c \<Longrightarrow> inv (fst (get c q rid now))"
    and put_inv: "legal ord \<Longrightarrow> inv c \<Longrightarrow> inv (put ord c q r now)"
    and get_deny: "inv c \<Longrightarrow> snd (get c q rid now) = Some r \<Longrightarrow> r_decision r \<in> {''block'', ''rate_limit''}"
    and get_id: "snd (get c q rid now) = Some r \<Longrightarrow> r_requestID r = rid"
    and get_put: "accepts c r \<Longrightarrow> key q' = key q \<Longrightarrow> now' < now + lifetime c r \<Longrightarrow>
      get (put ord c q r now) q' rid now' = (put ord c q r now, Some (r\<lparr>r_requestID := rid\<rparr>))"
begin

text \<open>A stored deny answers every request with its key until it expires, however often it is asked.\<close>

lemma answers_until_expiry:
  assumes "accepts c r" "list_all (\<lambda>(q', rid, now'). key q' = key q \<and> now' < now + lifetime c r) asks"
  shows "run_ops (\<lambda>c (q', rid, now'). get c q' rid now') (put ord c q r now) asks
    = (put ord c q r now, map (\<lambda>(q', rid, now'). Some (r\<lparr>r_requestID := rid\<rparr>)) asks)"
  using assms(2)
proof (induction asks)
  case (Cons a asks)
  obtain q' rid now' where a: "a = (q', rid, now')" by (cases a)
  with Cons get_put [OF assms(1), of q' q now' now ord rid] show ?case by simp
qed simp

end

interpretation store: decision_store
    "cache_get H" "\<lambda>(ord1, ord2). cache_put H ord1 ord2"
    "\<lambda>(ord1, ord2). is_range_order ord1 \<and> is_range_order ord2" cache_inv "evaluationCacheKey H"
    put_accepted entry_ttl
    for H
proof
  show "cache_inv (fst (cache_get H c q rid now))" if "cache_inv c" for c q rid now
    by (rule cache_get_inv [OF that])
  show "cache_inv ((case orders of (ord1, ord2) \<Rightarrow> cache_put H ord1 ord2) c q r now)"
    if "case orders of (ord1, ord2) \<Rightarrow> is_range_order ord1 \<and> is_range_order ord2" "cache_inv c"
    for orders c q r now
    using that cache_put_inv by (cases orders) simp
  show "r_decision r \<in> {''block'', ''rate_limit''}"
    if "cache_inv c" "snd (cache_get H c q rid now) = Some r" for c q rid now r
  proof -
    from that(2) obtain k e where e: "map_of (entries c) k = Some e" "r = (e_response e)\<lparr>r_requestID := rid\<rparr>"
      by (rule cache_get_hit)
    from cache_invD(3) [OF that(1) e(1)] have "\<not> put_refused c (e_response e)" by (simp add: entry_ok_def)
    with e(2) show ?thesis by (auto simp: put_refused_def)
  qed
  show "r_requestID r = rid" if "snd (cache_get H c q rid now) = Some r" for c q rid now r
    using that by (rule cache_get_hit) simp
  show "cache_get H ((case orders of (ord1, ord2) \<Rightarrow> cache_put H ord1 ord2) c q r now) q' rid now'
      = ((case orders of (ord1, ord2) \<Rightarrow> cache_put H ord1 ord2) c q r now, Some (r\<lparr>r_requestID := rid\<rparr>))"
    if "put_accepted c r" "evaluationCacheKey H q' = evaluationCacheKey H q" "now' < now + entry_ttl c r"
    for c r q' q now' now orders rid
    using get_after_put [OF that] by (cases orders) simp
qed


section \<open>How long an entry lives\<close>

text \<open>No other request is indexed to the key: two requests with one key would be a digest collision.\<close>

definition only_index :: "decisionCache \<Rightarrow> string \<Rightarrow> string \<Rightarrow> bool" where
  "only_index c f k \<longleftrightarrow> (\<forall>f'. map_of (requestIndex c) f' = Some k \<longrightarrow> f' = f)"

lemma only_index_delete [simp]: "only_index c f k \<Longrightarrow> only_index (deleteEntry c k' e) f k"
  by (simp add: only_index_def map_of_index_deleteEntry)

lemma only_index_sweep: "only_index c f k \<Longrightarrow> only_index (sweep_expired now ks c) f k"
  by (induction ks arbitrary: c) (auto split: option.split)

lemma only_index_unlink: "only_index c f k \<Longrightarrow> only_index (unlink_previous c f' k') f k"
  by (auto simp: unlink_previous_def split: option.split)

lemma only_index_room: "only_index c f k \<Longrightarrow> only_index (make_room ord c k') f k"
  by (auto simp: make_room_def evict_oldest_def Let_def split: option.split)

lemma only_index_reset: "only_index c f k \<Longrightarrow> only_index (reset_revision c n) f k"
  by (simp add: reset_revision_def only_index_def)

lemma only_index_base: "only_index c f k \<Longrightarrow> only_index (put_base H ord1 ord2 c q r now) f k"
  by (simp add: put_base_def Let_def only_index_room only_index_unlink only_index_sweep only_index_reset)

lemma only_index_put:
  "only_index c f k \<Longrightarrow> cacheCompositeKey H q r \<noteq> k \<or> evaluationCacheKey H q = f \<Longrightarrow>
     only_index (cache_put H ord1 ord2 c q r now) f k"
  using only_index_base [of c f k H ord1 ord2 q r now]
  by (auto simp: cache_put_eq store_entry_def only_index_def map_of_update_if split: if_splits)

lemma sweep_length: "length (entries (sweep_expired now ks c)) \<le> length (entries c)"
proof (induction ks arbitrary: c)
  case (Cons k ks)
  have "length (entries (sweep_expired now ks (deleteEntry c k e))) \<le> length (entries c)" for e
    using Cons [of "deleteEntry c k e"] length_delete_le [of k "entries c"] by simp
  with Cons show ?case by (simp split: option.split)
qed simp

lemma unlink_length: "length (entries (unlink_previous c f k)) \<le> length (entries c)"
  by (auto simp: unlink_previous_def length_delete_le split: option.split)

text \<open>A put for another request, under no newer revision and with room left, keeps an entry.\<close>

lemma put_keeps:
  assumes inv: "cache_inv c" and e: "map_of (entries c) k = Some e" "now < e_expiresAt e"
    and only: "only_index c (e_requestFingerprint e) k"
    and rev: "r_policyRevision r \<le> latestRevision c"
    and other: "evaluationCacheKey H q \<noteq> e_requestFingerprint e" "cacheCompositeKey H q r \<noteq> k"
    and room: "int (length (entries c)) < maximumEntries c"
  shows "map_of (entries (cache_put H ord1 ord2 c q r now)) k = Some e"
    "length (entries (cache_put H ord1 ord2 c q r now)) \<le> Suc (length (entries c))"
    "latestRevision (cache_put H ord1 ord2 c q r now) = latestRevision c"
proof -
  let ?f = "evaluationCacheKey H q" and ?x = "cacheCompositeKey H q r"
  let ?c1 = "sweep_expired now (ord1 (keys (entries c))) c"
  let ?c2 = "unlink_previous ?c1 ?f ?x"
  have "map_of (entries ?c1) k = Some e" using e by (simp add: map_of_sweep)
  moreover have "map_of (requestIndex ?c1) ?f \<noteq> Some k"
    using only_index_sweep [OF only] other(1) by (auto simp: only_index_def)
  ultimately have e2: "map_of (entries ?c2) k = Some e"
    using sweep_inv [OF inv] other(1) by (intro unlink_kept) auto
  have l: "length (entries ?c2) \<le> length (entries c)" using unlink_length sweep_length le_trans by blast
  then have b: "put_base H ord1 ord2 c q r now = ?c2"
    using rev room by (simp add: put_base_def Let_def reset_revision_def make_room_def)
  show "map_of (entries (cache_put H ord1 ord2 c q r now)) k = Some e"
    using e(1) e2 other(2) by (simp add: cache_put_eq b store_entry_def map_of_update_if)
  show "length (entries (cache_put H ord1 ord2 c q r now)) \<le> Suc (length (entries c))"
    using l by (auto simp: cache_put_eq b store_entry_def length_update)
  show "latestRevision (cache_put H ord1 ord2 c q r now) = latestRevision c"
    using rev by (simp add: latest_put put_accepted_def)
qed

text \<open>A lookup keeps every entry that is not expired.\<close>

lemma get_keeps:
  assumes inv: "cache_inv c" and e: "map_of (entries c) k = Some e" "now < e_expiresAt e"
    and only: "only_index c (e_requestFingerprint e) k"
  shows "map_of (entries (fst (cache_get H c q rid now))) k = Some e"
    "only_index (fst (cache_get H c q rid now)) (e_requestFingerprint e) k"
    "length (entries (fst (cache_get H c q rid now))) \<le> length (entries c)"
proof -
  have ok: "r_policyRevision (e_response e) = latestRevision c"
    using cache_invD(3) [OF inv e(1)] by (simp add: entry_ok_def)
  have "f = e_requestFingerprint e" if "map_of (requestIndex c) f = Some k" for f
    using only that by (simp add: only_index_def)
  with ok e only show "map_of (entries (fst (cache_get H c q rid now))) k = Some e"
    by (fastforce simp: cache_get_def Let_def map_of_delete_if split: option.split)
  show "only_index (fst (cache_get H c q rid now)) (e_requestFingerprint e) k"
    using only by (auto simp: cache_get_def Let_def only_index_def map_of_index_deleteEntry map_of_delete_if
        split: option.split)
  show "length (entries (fst (cache_get H c q rid now))) \<le> length (entries c)"
    by (auto simp: cache_get_def Let_def length_delete_le split: option.split)
qed

text \<open>The operations that spare an entry, and the number of puts among operations.\<close>

fun spares :: "(string \<Rightarrow> string) \<Rightarrow> string \<Rightarrow> string \<Rightarrow> gotime \<Rightarrow> nat \<Rightarrow> cacheOp \<Rightarrow> bool" where
  "spares H f k expires revision (CacheGet q rid now) \<longleftrightarrow> now < expires"
| "spares H f k expires revision (CachePut ord1 ord2 q r now) \<longleftrightarrow>
     now < expires \<and> r_policyRevision r \<le> revision
     \<and> evaluationCacheKey H q \<noteq> f \<and> cacheCompositeKey H q r \<noteq> k"

fun puts :: "cacheOp list \<Rightarrow> nat" where
  "puts [] = 0"
| "puts (CacheGet q rid now # ops) = puts ops"
| "puts (CachePut ord1 ord2 q r now # ops) = Suc (puts ops)"

lemma run_keeps:
  assumes "cache_inv c" "list_all cache_legal ops"
    and "list_all (spares H (e_requestFingerprint e) k (e_expiresAt e) (latestRevision c)) ops"
    and "map_of (entries c) k = Some e" "only_index c (e_requestFingerprint e) k"
    and "int (length (entries c)) + int (puts ops) \<le> maximumEntries c"
  shows "map_of (entries (fst (run_ops (cache_step H) c ops))) k = Some e"
  using assms
proof (induction ops arbitrary: c)
  case (Cons op ops)
  let ?c = "fst (cache_step H c op)"
  have i: "cache_inv ?c" using Cons.prems(1,2) by (intro cache_object.step_inv) simp_all
  have "map_of (entries ?c) k = Some e \<and> only_index ?c (e_requestFingerprint e) k
      \<and> latestRevision ?c = latestRevision c
      \<and> int (length (entries ?c)) + int (puts ops) \<le> maximumEntries c"
  proof (cases op)
    case (CacheGet q rid now)
    with get_keeps [OF Cons.prems(1,4) _ Cons.prems(5), of now H q rid] Cons.prems(3,6) show ?thesis by simp
  next
    case (CachePut ord1 ord2 q r now)
    with put_keeps [OF Cons.prems(1,4) _ Cons.prems(5), of now r H q ord1 ord2] Cons.prems(3,5,6)
      only_index_put [OF Cons.prems(5), of H q r ord1 ord2 now]
    show ?thesis by auto
  qed
  with Cons.IH [OF i] Cons.prems(2,3) show ?case by (simp add: cache_step_fields)
qed simp

text \<open>
  What may happen after a put without the stored decision being lost: lookups, and puts of decisions
  for other requests under no newer policy revision, as long as the cache does not fill up.
\<close>

definition undisturbed ::
    "(string \<Rightarrow> string) \<Rightarrow> range_order \<Rightarrow> range_order \<Rightarrow> decisionCache \<Rightarrow> evaluationRequest
       \<Rightarrow> evaluationResponse \<Rightarrow> gotime \<Rightarrow> cacheOp list \<Rightarrow> bool" where
  "undisturbed H ord1 ord2 c q r now ops \<longleftrightarrow>
     list_all cache_legal ops
     \<and> list_all (spares H (evaluationCacheKey H q) (cacheCompositeKey H q r)
         (now + entry_ttl c r) (r_policyRevision r)) ops
     \<and> int (length (entries (cache_put H ord1 ord2 c q r now))) + int (puts ops) \<le> maximumEntries c
     \<and> only_index c (evaluationCacheKey H q) (cacheCompositeKey H q r)"

lemma undisturbed_answers:
  assumes inv: "cache_inv c" and acc: "put_accepted c r" and ord: "is_range_order ord2"
    and und: "undisturbed H ord1 ord2 c q r now ops"
    and key: "evaluationCacheKey H q' = evaluationCacheKey H q" and t: "now' < now + entry_ttl c r"
    and c': "c' = fst (run_ops (cache_step H) (cache_put H ord1 ord2 c q r now) ops)"
  shows "cache_get H c' q' rid now' = (c', Some (r\<lparr>r_requestID := rid\<rparr>))"
proof -
  let ?p = "cache_put H ord1 ord2 c q r now" and ?k = "cacheCompositeKey H q r"
  let ?e = "new_entry c r (evaluationCacheKey H q) ?k now"
  have ip: "cache_inv ?p" by (rule cache_put_inv [OF inv ord])
  have e: "map_of (entries ?p) ?k = Some ?e" "latestRevision ?p = r_policyRevision r"
    using acc by (simp_all add: cache_put_eq store_entry_def map_of_update_if put_accepted_def)
  have "map_of (entries c') ?k = Some ?e"
    unfolding c' using und e only_index_put [of c "evaluationCacheKey H q" ?k H q r ord1 ord2 now]
    by (intro run_keeps [OF ip]) (auto simp: undisturbed_def new_entry_def)
  moreover have "cache_inv c'"
    unfolding c' using und by (intro cache_object.run_inv [OF ip]) (simp add: undisturbed_def)
  ultimately have "entry_ok c' ?k ?e" using cache_invD(3) by blast
  with \<open>map_of (entries c') ?k = Some ?e\<close> key t show ?thesis
    by (auto simp: cache_get_def entry_ok_def new_entry_def put_refused_def)
qed

end
