(* ===== verification/GoURL.thy ===== *)
theory GoURL
  imports GoNet
begin

text \<open>
  The parts of Go's \<open>net/url\<close> (as of Go 1.25.0, the version \<open>go.mod\<close> names) that the plugin calls:
  escaping and unescaping, \<open>Parse\<close>, \<open>Hostname\<close>, \<open>EscapedPath\<close>, \<open>ParseQuery\<close> and \<open>Values.Get\<close>.
  An error of the package is \<open>None\<close>: the program never looks at its text.
\<close>

section \<open>Escaping\<close>

datatype encoding = EncodePath | EncodeHost | EncodeZone | EncodeUserPassword | EncodeQuery | EncodeFragment

definition is_alnum :: "char \<Rightarrow> bool" where
  "is_alnum c \<longleftrightarrow> (CHR ''a'' \<le> c \<and> c \<le> CHR ''z'') \<or> (CHR ''A'' \<le> c \<and> c \<le> CHR ''Z'')
     \<or> (CHR ''0'' \<le> c \<and> c \<le> CHR ''9'')"

definition should_escape :: "encoding \<Rightarrow> char \<Rightarrow> bool" where
  "should_escape mode c =
     (if is_alnum c then False
      else if mode \<in> {EncodeHost, EncodeZone}
              \<and> c \<in> set (''!$&()*+,;=:[]<>'' @ [CHR 0x27, CHR 0x22]) then False
      else if c \<in> set ''-_.~'' then False
      else if c \<in> set ''$&+,/:;=?@'' then
        (case mode of
           EncodePath \<Rightarrow> c = CHR ''?''
         | EncodeUserPassword \<Rightarrow> c \<in> set ''@/?:''
         | EncodeQuery \<Rightarrow> True
         | EncodeFragment \<Rightarrow> False
         | _ \<Rightarrow> True)
      else if mode = EncodeFragment \<and> c \<in> set ''!()*'' then False
      else True)"

definition upper_hex_digits :: string where
  "upper_hex_digits = ''0123456789ABCDEF''"

fun escape :: "encoding \<Rightarrow> string \<Rightarrow> string" where
  "escape mode [] = []"
| "escape mode (c # s) =
     (if mode = EncodeQuery \<and> c = CHR 0x20 then CHR ''+'' # escape mode s
      else if should_escape mode c
      then CHR ''%'' # upper_hex_digits ! (of_char c div 16) # upper_hex_digits ! (of_char c mod 16)
             # escape mode s
      else c # escape mode s)"

text \<open>The byte a pair of hexadecimal digits stands for.\<close>

definition unhex_pair :: "char \<Rightarrow> char \<Rightarrow> char" where
  "unhex_pair a b = char_of (hex_value a * 16 + hex_value b)"

text \<open>Whether an escaped byte is allowed in a host or a zone.\<close>

definition escape_allowed :: "encoding \<Rightarrow> char \<Rightarrow> char \<Rightarrow> bool" where
  "escape_allowed mode a b =
     (if mode = EncodeHost then \<not> hex_value a < 8 \<or> [a, b] = ''25''
      else if mode = EncodeZone
      then [a, b] = ''25'' \<or> unhex_pair a b = CHR 0x20 \<or> \<not> should_escape EncodeHost (unhex_pair a b)
      else True)"

fun unescape :: "encoding \<Rightarrow> string \<Rightarrow> string option" where
  "unescape mode [] = Some []"
| "unescape mode (c # s) =
     (if c = CHR ''%'' then
        (case s of
           a # b # s' \<Rightarrow>
             if is_hex a \<and> is_hex b \<and> escape_allowed mode a b
             then map_option (\<lambda>t. unhex_pair a b # t) (unescape mode s') else None
         | _ \<Rightarrow> None)
      else if c = CHR ''+'' then
        map_option (\<lambda>t. (if mode = EncodeQuery then CHR 0x20 else CHR ''+'') # t) (unescape mode s)
      else if mode \<in> {EncodeHost, EncodeZone} \<and> c < CHR 0x80 \<and> should_escape mode c then None
      else map_option (\<lambda>t. c # t) (unescape mode s))"

section \<open>URLs\<close>

text \<open>What the program reads of a parsed URL; \<open>u_user\<close> says whether there is user information.\<close>

record url =
  u_scheme :: string
  u_opaque :: string
  u_user :: bool
  u_host :: string
  u_path :: string
  u_rawPath :: string
  u_rawQuery :: string
  u_fragment :: string

definition empty_url :: url where
  "empty_url = \<lparr>u_scheme = [], u_opaque = [], u_user = False, u_host = [], u_path = [],
     u_rawPath = [], u_rawQuery = [], u_fragment = []\<rparr>"

text \<open>\<open>getScheme\<close>: the scheme and the rest; the first argument is what was read so far.\<close>

fun get_scheme :: "string \<Rightarrow> string \<Rightarrow> (string \<times> string) option" where
  "get_scheme seen [] = Some ([], seen)"
| "get_scheme seen (c # s) =
     (if (CHR ''a'' \<le> c \<and> c \<le> CHR ''z'') \<or> (CHR ''A'' \<le> c \<and> c \<le> CHR ''Z'')
      then get_scheme (seen @ [c]) s
      else if (CHR ''0'' \<le> c \<and> c \<le> CHR ''9'') \<or> c \<in> set ''+-.''
      then (if seen = [] then Some ([], c # s) else get_scheme (seen @ [c]) s)
      else if c = CHR '':'' then (if seen = [] then None else Some (seen, s))
      else Some ([], seen @ c # s))"

definition valid_optional_port :: "string \<Rightarrow> bool" where
  "valid_optional_port port =
     (case port of [] \<Rightarrow> True | c # s \<Rightarrow> c = CHR '':'' \<and> list_all is_digit s)"

definition valid_userinfo :: "string \<Rightarrow> bool" where
  "valid_userinfo s = list_all (\<lambda>c. is_alnum c \<or> c \<in> set (''-._:~!$&()*+,;=%@'' @ [CHR 0x27])) s"

text \<open>The index of the first \<open>%25\<close>.\<close>

fun zone_index :: "string \<Rightarrow> nat option" where
  "zone_index [] = None"
| "zone_index (c # s) =
     (if has_prefix (c # s) ''%25'' then Some 0 else map_option Suc (zone_index s))"

definition parse_host :: "string \<Rightarrow> string option" where
  "parse_host host =
     (if has_prefix host ''[''
      then (case last_index_of CHR '']'' host of
              None \<Rightarrow> None
            | Some i \<Rightarrow>
                if \<not> valid_optional_port (drop (i + 1) host) then None
                else (case zone_index (take i host) of
                        Some zone \<Rightarrow>
                          (case (unescape EncodeHost (take zone host),
                                 unescape EncodeZone (drop zone (take i host)),
                                 unescape EncodeHost (drop i host)) of
                             (Some h1, Some h2, Some h3) \<Rightarrow> Some (h1 @ h2 @ h3)
                           | _ \<Rightarrow> None)
                      | None \<Rightarrow> unescape EncodeHost host))
      else (case last_index_of CHR '':'' host of
              Some i \<Rightarrow> if \<not> valid_optional_port (drop i host) then None else unescape EncodeHost host
            | None \<Rightarrow> unescape EncodeHost host))"

text \<open>Whether there is user information, and the host.\<close>

definition parse_authority :: "string \<Rightarrow> (bool \<times> string) option" where
  "parse_authority authority =
     (case last_index_of CHR ''@'' authority of
        None \<Rightarrow> map_option (\<lambda>host. (False, host)) (parse_host authority)
      | Some i \<Rightarrow>
          (case parse_host (drop (i + 1) authority) of
             None \<Rightarrow> None
           | Some host \<Rightarrow>
               let userinfo = take i authority in
               if \<not> valid_userinfo userinfo then None
               else (case cut CHR '':'' userinfo of (username, password, _) \<Rightarrow>
                       if unescape EncodeUserPassword username = None
                          \<or> unescape EncodeUserPassword password = None
                       then None else Some (True, host))))"

definition set_path :: "url \<Rightarrow> string \<Rightarrow> url option" where
  "set_path u p =
     (case unescape EncodePath p of
        None \<Rightarrow> None
      | Some path \<Rightarrow>
          Some (u\<lparr>u_path := path, u_rawPath := (if p = escape EncodePath path then [] else p)\<rparr>))"

definition has_control :: "string \<Rightarrow> bool" where
  "has_control s = list_ex (\<lambda>c. c < CHR 0x20 \<or> c = CHR 0x7F) s"

definition parse_no_fragment :: "string \<Rightarrow> url option" where
  "parse_no_fragment raw =
     (if has_control raw then None
      else if raw = ''*'' then Some (empty_url\<lparr>u_path := ''*''\<rparr>)
      else case get_scheme [] raw of None \<Rightarrow> None
      | Some (scheme0, rest0) \<Rightarrow>
        let scheme = to_lower scheme0;
            force = has_suffix rest0 ''?'' \<and> length (filter (\<lambda>c. c = CHR ''?'') rest0) = 1;
            rest = (if force then butlast rest0 else fst (cut CHR ''?'' rest0));
            query = (if force then [] else fst (snd (cut CHR ''?'' rest0)));
            u = empty_url\<lparr>u_scheme := scheme, u_rawQuery := query\<rparr>
        in
        if \<not> has_prefix rest ''/'' \<and> scheme \<noteq> [] then Some (u\<lparr>u_opaque := rest\<rparr>)
        else if \<not> has_prefix rest ''/'' \<and> contains_char (fst (cut CHR ''/'' rest)) CHR '':'' then None
        else if (scheme \<noteq> [] \<or> \<not> has_prefix rest ''///'') \<and> has_prefix rest ''//''
        then (let authority0 = drop 2 rest;
                  authority = takeWhile (\<lambda>c. c \<noteq> CHR ''/'') authority0;
                  path = dropWhile (\<lambda>c. c \<noteq> CHR ''/'') authority0
              in case parse_authority authority of
                   None \<Rightarrow> None
                 | Some (user, host) \<Rightarrow> set_path (u\<lparr>u_user := user, u_host := host\<rparr>) path)
        else set_path u rest)"

definition url_parse :: "string \<Rightarrow> url option" where
  "url_parse raw =
     (case cut CHR 0x23 raw of (main, frag, _) \<Rightarrow>
        (case parse_no_fragment main of
           None \<Rightarrow> None
         | Some u \<Rightarrow>
             if frag = [] then Some u
             else map_option (\<lambda>f. u\<lparr>u_fragment := f\<rparr>) (unescape EncodeFragment frag)))"

definition url_hostname :: "url \<Rightarrow> string" where
  "url_hostname u =
     (let host = (case last_index_of CHR '':'' (u_host u) of
                    Some colon \<Rightarrow>
                      if valid_optional_port (drop colon (u_host u)) then take colon (u_host u)
                      else u_host u
                  | None \<Rightarrow> u_host u)
      in if has_prefix host ''['' \<and> has_suffix host '']'' then butlast (tl host) else host)"

definition valid_encoded_path :: "string \<Rightarrow> bool" where
  "valid_encoded_path s =
     list_all (\<lambda>c. c \<in> set (''!$&()*+,;=:@[]%'' @ [CHR 0x27]) \<or> \<not> should_escape EncodePath c) s"

text \<open>\<open>EscapedPath\<close> for a URL with this path and raw path.\<close>

definition escaped_path :: "string \<Rightarrow> string \<Rightarrow> string" where
  "escaped_path path rawPath =
     (if rawPath \<noteq> [] \<and> valid_encoded_path rawPath \<and> unescape EncodePath rawPath = Some path
      then rawPath
      else if path = ''*'' then ''*''
      else escape EncodePath path)"

section \<open>Queries\<close>

text \<open>The pairs \<open>ParseQuery\<close> puts into its result, in order.\<close>

definition query_pair :: "string \<Rightarrow> (string \<times> string) list" where
  "query_pair part =
     (if contains_char part CHR '';'' \<or> part = [] then []
      else case cut CHR ''='' part of (k, v, _) \<Rightarrow>
        (case (unescape EncodeQuery k, unescape EncodeQuery v) of
           (Some k', Some v') \<Rightarrow> [(k', v')]
         | _ \<Rightarrow> []))"

definition parse_query :: "string \<Rightarrow> (string \<times> string) list" where
  "parse_query q = concat (map query_pair (split CHR ''&'' q))"

text \<open>\<open>Values.Get\<close>: the first value of a name, or the empty string.\<close>

definition query_get :: "(string \<times> string) list \<Rightarrow> string \<Rightarrow> string" where
  "query_get q name = (case map_of q name of Some v \<Rightarrow> v | None \<Rightarrow> [])"

section \<open>Escaping and back\<close>

lemma upper_hex_value:
  "n < 16 \<Longrightarrow> is_hex (upper_hex_digits ! n) \<and> hex_value (upper_hex_digits ! n) = n"
proof -
  have "list_all (\<lambda>n. is_hex (upper_hex_digits ! n) \<and> hex_value (upper_hex_digits ! n) = n) [0..<16]"
    by code_simp
  then show "n < 16 \<Longrightarrow> is_hex (upper_hex_digits ! n) \<and> hex_value (upper_hex_digits ! n) = n"
    by (simp add: list_all_iff)
qed

lemma unhex_escaped:
  "unhex_pair (upper_hex_digits ! (of_char c div 16)) (upper_hex_digits ! (of_char c mod 16)) = c"
proof -
  have "(of_char c :: nat) div 16 < 16" "(of_char c :: nat) mod 16 < 16"
    using of_char_less [of c] by (auto simp: div_less_iff_less_mult)
  then show ?thesis by (simp add: unhex_pair_def upper_hex_value)
qed

lemma query_plus_escaped: "should_escape EncodeQuery CHR ''+''" "should_escape EncodeQuery CHR ''%''"
  by code_simp+

text \<open>What \<open>QueryEscape\<close> writes, \<open>QueryUnescape\<close> reads back.\<close>

lemma unescape_escape_query: "unescape EncodeQuery (escape EncodeQuery s) = Some s"
proof (induction s)
  case (Cons c s)
  have d: "(of_char c :: nat) div 16 < 16" "(of_char c :: nat) mod 16 < 16"
    using of_char_less [of c] by (auto simp: div_less_iff_less_mult)
  have "c = CHR ''%'' \<Longrightarrow> should_escape EncodeQuery c" "c = CHR ''+'' \<Longrightarrow> should_escape EncodeQuery c"
    using query_plus_escaped by simp_all
  with Cons upper_hex_value [OF d(1)] upper_hex_value [OF d(2)] unhex_escaped [of c]
  show ?case by (auto simp: escape_allowed_def)
qed simp


section \<open>Origins\<close>

text \<open>
  A host as a browser writes it into an \<open>Origin\<close> header: a name of letters, digits, dots and
  hyphens, with an optional port.
\<close>

definition name_char :: "char \<Rightarrow> bool" where
  "name_char c \<longleftrightarrow> is_alnum c \<or> c = CHR ''.'' \<or> c = CHR ''-''"

definition origin_host :: "string \<Rightarrow> bool" where
  "origin_host h \<longleftrightarrow>
     (let name = takeWhile name_char h; port = dropWhile name_char h in
      name \<noteq> [] \<and> (port = [] \<or> (hd port = CHR '':'' \<and> list_all is_digit (tl port))))"

lemma origin_hostE:
  assumes "origin_host h"
  obtains name port where "h = name @ port" "name \<noteq> []" "list_all name_char name"
    "port = [] \<or> (\<exists>ds. port = CHR '':'' # ds \<and> list_all is_digit ds)"
proof -
  let ?n = "takeWhile name_char h" and ?p = "dropWhile name_char h"
  have "h = ?n @ ?p" by simp
  moreover have "?n \<noteq> []" using assms by (simp add: origin_host_def Let_def)
  moreover have "list_all name_char ?n" unfolding list_all_iff by (blast dest: set_takeWhileD)
  moreover have "?p = [] \<or> (\<exists>ds. ?p = CHR '':'' # ds \<and> list_all is_digit ds)"
    using assms unfolding origin_host_def Let_def by (cases ?p) auto
  ultimately show thesis by (rule that)
qed

lemma plain_char:
  assumes "name_char c \<or> is_digit c \<or> c = CHR '':''"
  shows "CHR 0x20 < c" "c < CHR 0x7F" "c \<notin> set ''/?#@[]%+''" "\<not> should_escape EncodeHost c"
proof -
  from assms have "(of_char c :: nat) \<in> {45, 46, 58} \<or> (48 \<le> (of_char c :: nat) \<and> (of_char c :: nat) \<le> 57)
      \<or> (65 \<le> (of_char c :: nat) \<and> (of_char c :: nat) \<le> 90) \<or> (97 \<le> (of_char c :: nat) \<and> (of_char c :: nat) \<le> 122)"
    by (auto simp: name_char_def is_alnum_def is_digit_def less_eq_char_def)
  then show "CHR 0x20 < c" "c < CHR 0x7F" "c \<notin> set ''/?#@[]%+''" by (auto simp: less_char_def)
  from assms show "\<not> should_escape EncodeHost c"
    by (auto simp: name_char_def is_digit_def should_escape_def is_alnum_def)
qed

lemma origin_host_chars:
  "origin_host h \<Longrightarrow> c \<in> set h \<Longrightarrow> name_char c \<or> is_digit c \<or> c = CHR '':''"
  by (erule origin_hostE) (auto simp: list_all_iff)

lemma unescape_plain_host:
  "\<forall>c \<in> set h. name_char c \<or> is_digit c \<or> c = CHR '':'' \<Longrightarrow> unescape EncodeHost h = Some h"
proof (induction h)
  case (Cons c h)
  then have "c \<noteq> CHR ''%''" "c \<noteq> CHR ''+''" "\<not> should_escape EncodeHost c"
    using plain_char(3,4) [of c] by auto
  with Cons show ?case by simp
qed simp

lemma index_of_absent: "c \<notin> set s \<Longrightarrow> index_of c s = None"
  by (induction s) auto

lemma last_index_of_absent: "c \<notin> set s \<Longrightarrow> last_index_of c s = None"
  by (simp add: last_index_of_def index_of_absent)

lemma index_of_append: "c \<notin> set s \<Longrightarrow> index_of c (s @ c # t) = Some (length s)"
  by (induction s) auto

lemma last_index_of_append: "c \<notin> set t \<Longrightarrow> last_index_of c (s @ c # t) = Some (length s)"
  using index_of_append [of c "rev t" "rev s"] by (simp add: last_index_of_def)

lemma parse_origin_host: "origin_host h \<Longrightarrow> parse_host h = Some h"
proof -
  assume o: "origin_host h"
  then obtain name port where h: "h = name @ port" "name \<noteq> []" "list_all name_char name"
    "port = [] \<or> (\<exists>ds. port = CHR '':'' # ds \<and> list_all is_digit ds)" by (rule origin_hostE)
  have u: "unescape EncodeHost h = Some h"
    using origin_host_chars [OF o] by (intro unescape_plain_host) blast
  have b: "\<not> has_prefix h ''[''"
    using plain_char(3) [OF origin_host_chars [OF o]] h(2) unfolding has_prefix_iff by fastforce
  have n: "CHR '':'' \<notin> set name" "\<And>ds. list_all is_digit ds \<Longrightarrow> CHR '':'' \<notin> set ds"
    using h(3) by (auto simp: list_all_iff name_char_def is_alnum_def is_digit_def)
  from h(4) show ?thesis
  proof
    assume "port = []"
    then show ?thesis using u b n h(1) by (simp add: parse_host_def last_index_of_absent)
  next
    assume "\<exists>ds. port = CHR '':'' # ds \<and> list_all is_digit ds"
    then obtain ds where "port = CHR '':'' # ds" "list_all is_digit ds" by blast
    then show ?thesis using u b n h(1)
      by (simp add: parse_host_def last_index_of_append valid_optional_port_def)
  qed
qed

text \<open>Parsing an origin gives back its scheme and its host, and nothing else.\<close>

lemma url_parse_origin:
  assumes "scheme = ''http'' \<or> scheme = ''https''" "origin_host h"
  shows "url_parse (scheme @ ''://'' @ h) = Some (empty_url\<lparr>u_scheme := scheme, u_host := h\<rparr>)"
proof -
  note p = plain_char [OF origin_host_chars [OF assms(2)]]
  have cut: "cut c s = (s, [], False)" if "c \<notin> set s" for c and s :: string
    using that by (induction s) auto
  have hash: "CHR 0x23 \<notin> set h" "CHR ''?'' \<notin> set h" "CHR ''/'' \<notin> set h" "CHR ''@'' \<notin> set h"
    using p(3) by auto
  have suffix: "\<not> has_suffix (''//'' @ h) ''?''"
  proof
    assume "has_suffix (''//'' @ h) ''?''"
    then have "CHR ''?'' \<in> set (''//'' @ h)" unfolding has_suffix_def by (metis in_set_dropD list.set_intros(1))
    then show False using hash by simp
  qed
  have control: "\<not> has_control h"
  proof -
    have "\<not> (c < CHR 0x20 \<or> c = CHR 0x7F)" if "c \<in> set h" for c
      using p(1,2) [OF that] by (auto dest: order_less_asym)
    then show ?thesis unfolding has_control_def list_ex_iff by blast
  qed
  have tw: "takeWhile (\<lambda>c. c \<noteq> CHR ''/'') h = h" "dropWhile (\<lambda>c. c \<noteq> CHR ''/'') h = []"
    using hash(3) unfolding takeWhile_eq_all_conv dropWhile_eq_Nil_conv by blast+
  have auth: "parse_authority h = Some (False, h)"
    using parse_origin_host [OF assms(2)] hash by (simp add: parse_authority_def last_index_of_absent)
  have scheme: "get_scheme [] (scheme @ ''://'' @ h) = Some (scheme, ''//'' @ h)"
    using assms(1) by auto
  have lower: "to_lower scheme = scheme"
  proof -
    have "to_lower ''http'' = ''http''" "to_lower ''https'' = ''https''" by code_simp+
    then show ?thesis using assms(1) by auto
  qed
  have c1: "cut CHR 0x23 (scheme @ ''://'' @ h) = (scheme @ ''://'' @ h, [], False)"
    using assms(1) hash by (intro cut) auto
  have c2: "cut CHR ''?'' (''//'' @ h) = (''//'' @ h, [], False)"
    using hash by (intro cut) auto
  have control': "\<not> has_control (scheme @ ''://'' @ h)"
    using assms(1) control by (auto simp: has_control_def)
  have star: "scheme @ ''://'' @ h \<noteq> ''*''" "scheme \<noteq> []" using assms(1) by auto
  have "parse_no_fragment (scheme @ ''://'' @ h) = Some (empty_url\<lparr>u_scheme := scheme, u_host := h\<rparr>)"
    using control' star suffix
    unfolding parse_no_fragment_def scheme
    by (simp add: lower Let_def set_path_def empty_url_def tw auth cut [OF hash(2)])
  then show ?thesis unfolding url_parse_def c1 by simp
qed

end
