(* ===== verification/GoJson.thy ===== *)
theory GoJson
  imports GoNet
begin

text \<open>
  The parts of Go's \<open>encoding/json\<close> (as of Go 1.25) that the plugin calls.

  Decoding is in two passes, as in the package. The scanner is a state machine over the bytes
  (\<open>scan_step\<close>) that finds where the next value ends, whatever follows; its states carry the names
  of the package's step functions. The second pass reads the value's text: an object is split into
  its members, a string literal is unquoted, and a struct is filled field by field, refusing
  unknown names as \<open>DisallowUnknownFields\<close> does. Names of fields are matched up to case, a later
  member overrides an earlier one, \<open>null\<close> leaves a field as it is.

  Encoding is that of \<open>Marshal\<close>: HTML characters, U+2028 and U+2029 are escaped, and bytes that are
  no UTF-8 become the replacement character U+FFFD.
\<close>

section \<open>The scanner\<close>

datatype parseState = ParseObjectKey | ParseObjectValue | ParseArrayValue

datatype scanState =
    BeginValue | BeginValueOrEmpty | BeginStringOrEmpty | BeginString | EndValue | EndTop
  | InString | InStringEsc | InStringEscU nat
  | Neg | Num1 | Num0 | Dot | Dot0 | Exp | ExpSign | Exp0
  | Literal string

type_synonym scanner = "scanState \<times> parseState list"

text \<open>The result of one byte: the value ended before it, an error, or the next state.\<close>

datatype scanned = ScanEnd | ScanError | Scanned scanner

definition json_space :: "char \<Rightarrow> bool" where
  "json_space c \<longleftrightarrow> c = CHR 0x20 \<or> c = CHR 0x09 \<or> c = CHR 0x0D \<or> c = CHR 0x0A"

definition maxNestingDepth :: nat where "maxNestingDepth = 10000"

definition push_state :: "parseState \<Rightarrow> scanState \<Rightarrow> parseState list \<Rightarrow> scanned" where
  "push_state p next stack =
     (if length stack < maxNestingDepth then Scanned (next, p # stack) else ScanError)"

definition pop_state :: "parseState list \<Rightarrow> scanner" where
  "pop_state stack = (if tl stack = [] then (EndTop, []) else (EndValue, tl stack))"

definition end_value :: "parseState list \<Rightarrow> char \<Rightarrow> scanned" where
  "end_value stack c =
     (case stack of
        [] \<Rightarrow> ScanEnd
      | p # rest \<Rightarrow>
          if json_space c then Scanned (EndValue, stack)
          else (case p of
              ParseObjectKey \<Rightarrow>
                if c = CHR '':'' then Scanned (BeginValue, ParseObjectValue # rest) else ScanError
            | ParseObjectValue \<Rightarrow>
                if c = CHR '','' then Scanned (BeginString, ParseObjectKey # rest)
                else if c = CHR ''}'' then Scanned (pop_state stack) else ScanError
            | ParseArrayValue \<Rightarrow>
                if c = CHR '','' then Scanned (BeginValue, stack)
                else if c = CHR '']'' then Scanned (pop_state stack) else ScanError))"

definition begin_value :: "parseState list \<Rightarrow> char \<Rightarrow> scanned" where
  "begin_value stack c =
     (if json_space c then Scanned (BeginValue, stack)
      else if c = CHR ''{'' then push_state ParseObjectKey BeginStringOrEmpty stack
      else if c = CHR ''['' then push_state ParseArrayValue BeginValueOrEmpty stack
      else if c = CHR 0x22 then Scanned (InString, stack)
      else if c = CHR ''-'' then Scanned (Neg, stack)
      else if c = CHR ''0'' then Scanned (Num0, stack)
      else if c = CHR ''t'' then Scanned (Literal ''rue'', stack)
      else if c = CHR ''f'' then Scanned (Literal ''alse'', stack)
      else if c = CHR ''n'' then Scanned (Literal ''ull'', stack)
      else if is_digit c then Scanned (Num1, stack)
      else ScanError)"

definition begin_string :: "parseState list \<Rightarrow> char \<Rightarrow> scanned" where
  "begin_string stack c =
     (if json_space c then Scanned (BeginString, stack)
      else if c = CHR 0x22 then Scanned (InString, stack) else ScanError)"

text \<open>After the integer part and after the first digit of a fraction.\<close>

definition exp_or_end :: "parseState list \<Rightarrow> char \<Rightarrow> scanned" where
  "exp_or_end stack c =
     (if c = CHR ''e'' \<or> c = CHR ''E'' then Scanned (Exp, stack) else end_value stack c)"

definition dot_or_end :: "parseState list \<Rightarrow> char \<Rightarrow> scanned" where
  "dot_or_end stack c = (if c = CHR ''.'' then Scanned (Dot, stack) else exp_or_end stack c)"

fun scan_step :: "scanner \<Rightarrow> char \<Rightarrow> scanned" where
  "scan_step (BeginValue, stack) c = begin_value stack c"
| "scan_step (BeginValueOrEmpty, stack) c =
     (if json_space c then Scanned (BeginValueOrEmpty, stack)
      else if c = CHR '']'' then end_value stack c else begin_value stack c)"
| "scan_step (BeginStringOrEmpty, stack) c =
     (if json_space c then Scanned (BeginStringOrEmpty, stack)
      else if c = CHR ''}'' then end_value (ParseObjectValue # tl stack) c else begin_string stack c)"
| "scan_step (BeginString, stack) c = begin_string stack c"
| "scan_step (EndValue, stack) c = end_value stack c"
| "scan_step (EndTop, stack) c = ScanEnd"
| "scan_step (InString, stack) c =
     (if c = CHR 0x22 then Scanned (EndValue, stack)
      else if c = CHR 0x5C then Scanned (InStringEsc, stack)
      else if c < CHR 0x20 then ScanError else Scanned (InString, stack))"
| "scan_step (InStringEsc, stack) c =
     (if c \<in> set (''bfnrt/'' @ [CHR 0x5C, CHR 0x22]) then Scanned (InString, stack)
      else if c = CHR ''u'' then Scanned (InStringEscU 3, stack) else ScanError)"
| "scan_step (InStringEscU n, stack) c =
     (if is_hex c then Scanned (case n of 0 \<Rightarrow> InString | Suc m \<Rightarrow> InStringEscU m, stack) else ScanError)"
| "scan_step (Neg, stack) c =
     (if c = CHR ''0'' then Scanned (Num0, stack)
      else if is_digit c then Scanned (Num1, stack) else ScanError)"
| "scan_step (Num1, stack) c = (if is_digit c then Scanned (Num1, stack) else dot_or_end stack c)"
| "scan_step (Num0, stack) c = dot_or_end stack c"
| "scan_step (Dot, stack) c = (if is_digit c then Scanned (Dot0, stack) else ScanError)"
| "scan_step (Dot0, stack) c = (if is_digit c then Scanned (Dot0, stack) else exp_or_end stack c)"
| "scan_step (Exp, stack) c =
     (if c = CHR ''+'' \<or> c = CHR ''-'' then Scanned (ExpSign, stack)
      else if is_digit c then Scanned (Exp0, stack) else ScanError)"
| "scan_step (ExpSign, stack) c = (if is_digit c then Scanned (Exp0, stack) else ScanError)"
| "scan_step (Exp0, stack) c = (if is_digit c then Scanned (Exp0, stack) else end_value stack c)"
| "scan_step (Literal rest, stack) c =
     (case rest of
        [] \<Rightarrow> ScanError
      | [d] \<Rightarrow> if c = d then Scanned (EndValue, stack) else ScanError
      | d # rest' \<Rightarrow> if c = d then Scanned (Literal rest', stack) else ScanError)"

text \<open>
  The loop of \<open>readValue\<close>: how many bytes the next value takes, with the white space in front of
  it; that the bytes ended first, and where the scanner then is; or an error.
\<close>

datatype scanResult = ValueEnds nat | Truncated scanner | BadSyntax

fun scan_run :: "scanner \<Rightarrow> nat \<Rightarrow> string \<Rightarrow> scanResult" where
  "scan_run sc n [] = Truncated sc"
| "scan_run sc n (c # s) =
     (case scan_step sc c of
        ScanEnd \<Rightarrow> ValueEnds n
      | ScanError \<Rightarrow> BadSyntax
      | Scanned sc' \<Rightarrow> if fst sc' = EndTop then ValueEnds (Suc n) else scan_run sc' (Suc n) s)"

abbreviation scan_value :: "string \<Rightarrow> scanResult" where
  "scan_value s \<equiv> scan_run (BeginValue, []) 0 s"

section \<open>The stream\<close>

text \<open>How a stream ends after the bytes it delivers.\<close>

datatype streamEnd = EndOfStream | StreamFails | StreamTooLarge

text \<open>
  What \<open>Decode\<close> finds first: the text of a value and the bytes after it, a syntax error, or the
  end of the stream inside the value. A literal that the end of the input completes is a value.
\<close>

datatype nextValue = NextValue string string | NextInvalid | NextEnds streamEnd

definition next_value :: "string \<Rightarrow> streamEnd \<Rightarrow> nextValue" where
  "next_value s ending =
     (case scan_value s of
        ValueEnds n \<Rightarrow> NextValue (take n s) (drop n s)
      | BadSyntax \<Rightarrow> NextInvalid
      | Truncated sc \<Rightarrow>
          if ending = EndOfStream \<and> scan_step sc CHR 0x20 = ScanEnd then NextValue s []
          else NextEnds ending)"

text \<open>Whether a further \<open>Decode\<close> returns \<open>io.EOF\<close>: only white space is left.\<close>

definition at_eof :: "string \<Rightarrow> streamEnd \<Rightarrow> bool" where
  "at_eof s ending \<longleftrightarrow> ending = EndOfStream \<and> list_all json_space s"

section \<open>Strings\<close>

definition utf8_encode :: "nat \<Rightarrow> string" where
  "utf8_encode r =
     (if r < 0x80 then [char_of r]
      else if r < 0x800 then [char_of (0xC0 + r div 64), char_of (0x80 + r mod 64)]
      else if r < 0x10000 then
        [char_of (0xE0 + r div 4096), char_of (0x80 + r div 64 mod 64), char_of (0x80 + r mod 64)]
      else [char_of (0xF0 + r div 262144), char_of (0x80 + r div 4096 mod 64),
            char_of (0x80 + r div 64 mod 64), char_of (0x80 + r mod 64)])"

text \<open>U+FFFD.\<close>

definition replacement :: string where
  "replacement = [CHR 0xEF, CHR 0xBF, CHR 0xBD]"

text \<open>A string as a decoder reads it: every byte that starts no code point becomes U+FFFD.\<close>

function to_valid_utf8 :: "string \<Rightarrow> string" where
  "to_valid_utf8 [] = []"
| "to_valid_utf8 (c # s) =
     (let w = rune_width (c # s) in
      if w = 0 then replacement @ to_valid_utf8 s
      else take w (c # s) @ to_valid_utf8 (drop (w - 1) s))"
  by pat_completeness auto
termination
  by (relation "measure length") auto

text \<open>
  The character an escape stands for. The scanner lets no other escape into a literal, so nothing
  depends on the last case.
\<close>

definition unescape_char :: "char \<Rightarrow> char" where
  "unescape_char c =
     (if c = CHR ''b'' then CHR 0x08 else if c = CHR ''f'' then CHR 0x0C
      else if c = CHR ''n'' then CHR 0x0A else if c = CHR ''r'' then CHR 0x0D
      else if c = CHR ''t'' then CHR 0x09
      else if c = CHR 0x22 \<or> c = CHR 0x5C \<or> c = CHR ''/'' then c else CHR ''?'')"

text \<open>\<open>getu4\<close>: the code unit of an escape at the start of a string.\<close>

definition getu4 :: "string \<Rightarrow> nat option" where
  "getu4 s =
     (if 6 \<le> length s \<and> s ! 0 = CHR 0x5C \<and> s ! 1 = CHR ''u'' \<and> list_all is_hex (take 4 (drop 2 s))
      then Some (foldl (\<lambda>a c. a * 16 + hex_value c) 0 (take 4 (drop 2 s))) else None)"

text \<open>The loop of \<open>unquoteBytes\<close>, on the bytes between the quotes.\<close>

function unquote_loop :: "string \<Rightarrow> string" where
  "unquote_loop [] = []"
| "unquote_loop (c # s) =
     (if c = CHR 0x5C then
        (case getu4 (c # s) of
           Some r \<Rightarrow>
             if 0xD800 \<le> r \<and> r < 0xE000 then
               (case getu4 (drop 5 s) of
                  Some r' \<Rightarrow>
                    if r < 0xDC00 \<and> 0xDC00 \<le> r' \<and> r' < 0xE000
                    then utf8_encode (0x10000 + (r - 0xD800) * 0x400 + (r' - 0xDC00))
                           @ unquote_loop (drop 11 s)
                    else replacement @ unquote_loop (drop 5 s)
                | None \<Rightarrow> replacement @ unquote_loop (drop 5 s))
             else utf8_encode r @ unquote_loop (drop 5 s)
         | None \<Rightarrow> (case s of [] \<Rightarrow> [] | e # s' \<Rightarrow> unescape_char e # unquote_loop s'))
      else
        let w = rune_width (c # s) in
        if w = 0 then replacement @ unquote_loop s
        else take w (c # s) @ unquote_loop (drop (w - 1) s))"
  by pat_completeness auto
termination
  by (relation "measure length") auto

definition unquote :: "string \<Rightarrow> string" where
  "unquote literal = unquote_loop (butlast (tl literal))"

section \<open>Splitting an object\<close>

abbreviation skip_space :: "string \<Rightarrow> string" where
  "skip_space \<equiv> dropWhile json_space"

lemma skip_space_length: "length (skip_space s) \<le> length s"
  by (rule length_dropWhile_le)

text \<open>The length of the value a text starts with, which is valid.\<close>

definition value_length :: "string \<Rightarrow> nat" where
  "value_length s = (case scan_value s of ValueEnds n \<Rightarrow> n | _ \<Rightarrow> length s)"

text \<open>The members of an object from behind its brace: names, and the texts of the values.\<close>

function members :: "string \<Rightarrow> (string \<times> string) list" where
  "members s =
     (let s1 = skip_space s in
      if s1 = [] \<or> hd s1 \<noteq> CHR 0x22 then []
      else
        let k = value_length s1;
            s2 = skip_space (tl (skip_space (drop k s1)));
            n = value_length s2;
            s3 = skip_space (drop n s2)
        in (unquote (take k s1), take n s2)
           # (if s3 \<noteq> [] \<and> hd s3 = CHR '','' then members (tl s3) else []))"
  by pat_completeness auto

termination
proof (relation "measure length", simp, unfold in_measure)
  fix s s1 k s2 n s3
  assume eqs: "s1 = skip_space s" "s2 = skip_space (tl (skip_space (drop k s1)))"
      "s3 = skip_space (drop n s2)"
    and comma: "s3 \<noteq> [] \<and> hd s3 = CHR '',''"
  have "length s3 \<le> length (drop n s2)" "length s2 \<le> length (tl (skip_space (drop k s1)))"
    "length (skip_space (drop k s1)) \<le> length (drop k s1)" "length s1 \<le> length s"
    unfolding eqs by (rule skip_space_length)+
  then have "length s3 \<le> length s" unfolding length_drop length_tl by linarith
  moreover have "length (tl s3) < length s3" using comma by (cases s3) simp_all
  ultimately show "length (tl s3) < length s" by linarith
qed

declare members.simps [simp del]

section \<open>Filling a struct\<close>

text \<open>A field: its name, and what a value's text makes of the struct; \<open>None\<close> is a type error.\<close>

type_synonym 'a field = "string \<times> (string \<Rightarrow> 'a \<Rightarrow> 'a option)"

definition set_string :: "(string \<Rightarrow> 'a \<Rightarrow> 'a) \<Rightarrow> string \<Rightarrow> 'a \<Rightarrow> 'a option" where
  "set_string f raw x =
     (if raw = ''null'' then Some x
      else if raw \<noteq> [] \<and> hd raw = CHR 0x22 then Some (f (unquote raw) x) else None)"

definition set_bool :: "(bool \<Rightarrow> 'a \<Rightarrow> 'a) \<Rightarrow> string \<Rightarrow> 'a \<Rightarrow> 'a option" where
  "set_bool f raw x =
     (if raw = ''null'' then Some x
      else if raw = ''true'' then Some (f True x)
      else if raw = ''false'' then Some (f False x) else None)"

text \<open>\<open>strconv.ParseUint(s, 10, 64)\<close> and \<open>strconv.ParseInt(s, 10, 64)\<close> on the text of a number.\<close>

definition dec_value :: "string \<Rightarrow> nat" where
  "dec_value s = foldl (\<lambda>a c. a * 10 + (of_char c - 48)) 0 s"

definition parse_uint :: "string \<Rightarrow> nat option" where
  "parse_uint s =
     (if s \<noteq> [] \<and> list_all is_digit s \<and> int (dec_value s) < 2 ^ 64 then Some (dec_value s) else None)"

definition parse_int :: "string \<Rightarrow> int option" where
  "parse_int s =
     (let negative = (s \<noteq> [] \<and> hd s = CHR ''-''); digits = (if negative then tl s else s) in
      if digits = [] \<or> \<not> list_all is_digit digits then None
      else let v = (if negative then - int (dec_value digits) else int (dec_value digits)) in
        if - (2 ^ 63) \<le> v \<and> v < 2 ^ 63 then Some v else None)"

definition set_int :: "(int \<Rightarrow> 'a \<Rightarrow> 'a) \<Rightarrow> string \<Rightarrow> 'a \<Rightarrow> 'a option" where
  "set_int f raw x =
     (if raw = ''null'' then Some x
      else (case parse_int raw of None \<Rightarrow> None | Some v \<Rightarrow> Some (f v x)))"

definition set_uint :: "(nat \<Rightarrow> 'a \<Rightarrow> 'a) \<Rightarrow> string \<Rightarrow> 'a \<Rightarrow> 'a option" where
  "set_uint f raw x =
     (if raw = ''null'' then Some x
      else (case parse_uint raw of None \<Rightarrow> None | Some v \<Rightarrow> Some (f v x)))"

text \<open>A field of type \<open>json.RawMessage\<close>.\<close>

definition set_raw :: "(string \<Rightarrow> 'a \<Rightarrow> 'a) \<Rightarrow> string \<Rightarrow> 'a \<Rightarrow> 'a option" where
  "set_raw f raw x = Some (f raw x)"

fun fill_members :: "'a field list \<Rightarrow> (string \<times> string) list \<Rightarrow> 'a \<Rightarrow> 'a option" where
  "fill_members table [] x = Some x"
| "fill_members table ((name, raw) # ms) x =
     (case find (\<lambda>f. equal_fold (fst f) name) table of
        None \<Rightarrow> None
      | Some f \<Rightarrow> (case snd f raw x of None \<Rightarrow> None | Some x' \<Rightarrow> fill_members table ms x'))"

text \<open>A struct from the text of a value, starting from \<open>x\<close>.\<close>

definition fill_struct :: "'a field list \<Rightarrow> 'a \<Rightarrow> string \<Rightarrow> 'a option" where
  "fill_struct table x text0 =
     (let s = skip_space text0 in
      if s \<noteq> [] \<and> hd s = CHR ''{'' then fill_members table (members (tl s)) x
      else if s = ''null'' then Some x else None)"

section \<open>Encoding\<close>

datatype json =
    JBool bool | JInt int | JString string | JRaw string
  | JList "json list" | JObject "(string \<times> json) list"

definition quote_ascii :: "char \<Rightarrow> string" where
  "quote_ascii c =
     (if c = CHR 0x5C \<or> c = CHR 0x22 then [CHR 0x5C, c]
      else if c = CHR 0x08 then [CHR 0x5C, CHR ''b''] else if c = CHR 0x0C then [CHR 0x5C, CHR ''f'']
      else if c = CHR 0x0A then [CHR 0x5C, CHR ''n''] else if c = CHR 0x0D then [CHR 0x5C, CHR ''r'']
      else if c = CHR 0x09 then [CHR 0x5C, CHR ''t'']
      else if c < CHR 0x20 \<or> c = CHR ''<'' \<or> c = CHR ''>'' \<or> c = CHR ''&''
      then CHR 0x5C # ''u00'' @ [digit_char (of_char c div 16), digit_char (of_char c mod 16)]
      else [c])"

text \<open>U+2028 and U+2029.\<close>

definition line_separator :: "string \<Rightarrow> bool" where
  "line_separator u \<longleftrightarrow>
     u = [CHR 0xE2, CHR 0x80, CHR 0xA8] \<or> u = [CHR 0xE2, CHR 0x80, CHR 0xA9]"

text \<open>The loop of \<open>appendString\<close>.\<close>

function quote_loop :: "string \<Rightarrow> string" where
  "quote_loop [] = []"
| "quote_loop (c # s) =
     (if c < CHR 0x80 then quote_ascii c @ quote_loop s
      else
        let w = rune_width (c # s) in
        if w = 0 then CHR 0x5C # ''ufffd'' @ quote_loop s
        else (if line_separator (take w (c # s))
              then CHR 0x5C # ''u202'' @ [digit_char (of_char (s ! 1) mod 16)]
              else take w (c # s)) @ quote_loop (drop (w - 1) s))"
  by pat_completeness auto
termination
  by (relation "measure length") auto

definition quote :: "string \<Rightarrow> string" where
  "quote s = CHR 0x22 # quote_loop s @ [CHR 0x22]"

fun encode :: "json \<Rightarrow> string"
  and encode_list :: "json list \<Rightarrow> string"
  and encode_members :: "(string \<times> json) list \<Rightarrow> string" where
  "encode (JBool b) = (if b then ''true'' else ''false'')"
| "encode (JInt i) = dec_of_int i"
| "encode (JString s) = quote s"
| "encode (JRaw s) = s"
| "encode (JList vs) = CHR ''['' # encode_list vs @ '']''"
| "encode (JObject ms) = CHR ''{'' # encode_members ms @ ''}''"
| "encode_list [] = []"
| "encode_list (v # vs) = encode v @ (if vs = [] then [] else CHR '','' # encode_list vs)"
| "encode_members [] = []"
| "encode_members (m # ms) =
     quote (fst m) @ CHR '':'' # encode (snd m) @ (if ms = [] then [] else CHR '','' # encode_members ms)"

text \<open>A Go map with string keys: its members in the order of their keys.\<close>

definition json_map :: "('v \<Rightarrow> json) \<Rightarrow> 'v gomap \<Rightarrow> json" where
  "json_map f m = JObject (map (\<lambda>(k, v). (k, f v)) (sort_key fst m))"

text \<open>\<open>NewEncoder(w).Encode\<close>: the value and a newline.\<close>

definition json_line :: "json gomap \<Rightarrow> string" where
  "json_line m = encode (json_map id m) @ [CHR 0x0A]"

text \<open>
  \<open>appendCompact\<close> with escaping: white space between the tokens is dropped, \<open><\<close>, \<open>>\<close>, \<open>&\<close> and the
  line separators are escaped. The scanner's state tells white space from the bytes of a string.
\<close>

definition in_text :: "scanState \<Rightarrow> bool" where
  "in_text st \<longleftrightarrow> (case st of InString \<Rightarrow> True | InStringEsc \<Rightarrow> True | InStringEscU _ \<Rightarrow> True | _ \<Rightarrow> False)"

definition compact_char :: "scanState \<Rightarrow> char \<Rightarrow> string" where
  "compact_char st c =
     (if c = CHR ''<'' \<or> c = CHR ''>'' \<or> c = CHR ''&''
      then CHR 0x5C # ''u00'' @ [digit_char (of_char c div 16), digit_char (of_char c mod 16)]
      else if json_space c \<and> \<not> in_text st then [] else [c])"

fun compact_run :: "scanner \<Rightarrow> string \<Rightarrow> string option" where
  "compact_run sc [] = (if scan_step sc CHR 0x20 = ScanEnd then Some [] else None)"
| "compact_run sc (c # s) =
     (case scan_step sc c of
        ScanError \<Rightarrow> None
      | ScanEnd \<Rightarrow> if list_all json_space (c # s) then Some [] else None
      | Scanned sc' \<Rightarrow>
          (case s of
             d # e # s' \<Rightarrow>
               if line_separator [c, d, e]
               then map_option (\<lambda>t. CHR 0x5C # ''u202'' @ digit_char (of_char e mod 16) # t)
                      (case scan_step sc' d of
                         Scanned sc2 \<Rightarrow> (case scan_step sc2 e of Scanned sc3 \<Rightarrow> compact_run sc3 s' | _ \<Rightarrow> None)
                       | _ \<Rightarrow> None)
               else map_option (\<lambda>t. compact_char (fst sc) c @ t) (compact_run sc' s)
           | _ \<Rightarrow> map_option (\<lambda>t. compact_char (fst sc) c @ t) (compact_run sc' s)))"

definition compact :: "string \<Rightarrow> string option" where
  "compact raw = compact_run (BeginValue, []) raw"

end
