(* ===== verification/Utf8.thy ===== *)
theory Utf8
  imports GoJson
begin

text \<open>
  Code points and their bytes. A code point is recognised by its own bytes alone, whatever follows
  them (\<open>rune_width_prefix\<close>); what the JSON decoder makes of the bytes of a literal is always valid
  UTF-8 (\<open>valid_unquote\<close>), and so is a string whose invalid bytes were replaced.
\<close>

section \<open>Code points\<close>

text \<open>The bytes of a code point beyond ASCII.\<close>

lemma continuation_high: "continuation lo hi c \<Longrightarrow> 0x80 \<le> lo \<Longrightarrow> CHR 0x80 \<le> c"
  by (simp add: continuation_def less_eq_char_def)

text \<open>A code point beyond ASCII: its first byte and at most three continuation bytes.\<close>

definition continues :: "string \<Rightarrow> nat \<Rightarrow> nat \<Rightarrow> nat \<Rightarrow> bool" where
  "continues s lo hi n \<longleftrightarrow> n \<le> length s \<and> continuation lo hi (s ! 0)
     \<and> list_all (continuation 0x80 0xBF) (take (n - 1) (drop 1 s))"

lemma rune_width_Cons:
  "rune_width (c # s) =
     (let b = (of_char c :: nat) in
      if b < 0x80 then 1
      else if b < 0xC2 then 0
      else if b < 0xE0 then (if continues s 0x80 0xBF 1 then 2 else 0)
      else if b = 0xE0 then (if continues s 0xA0 0xBF 2 then 3 else 0)
      else if b = 0xED then (if continues s 0x80 0x9F 2 then 3 else 0)
      else if b < 0xF0 then (if continues s 0x80 0xBF 2 then 3 else 0)
      else if b = 0xF0 then (if continues s 0x90 0xBF 3 then 4 else 0)
      else if b < 0xF4 then (if continues s 0x80 0xBF 3 then 4 else 0)
      else if b = 0xF4 then (if continues s 0x80 0x8F 3 then 4 else 0)
      else 0)"
  unfolding rune_width_def list.case Let_def continues_def by (rule refl)

lemma rune_width_high:
  assumes "CHR 0x80 \<le> c" "rune_width (c # s) \<noteq> 0"
  obtains n lo hi where "rune_width (c # s) = Suc (Suc n)" "n < 3" "0x80 \<le> lo" "continues s lo hi (Suc n)"
proof -
  have "\<not> of_char c < (0x80 :: nat)" using assms(1) by (simp add: less_eq_char_def)
  then have "\<exists>n lo hi. rune_width (c # s) = Suc (Suc n) \<and> n < 3 \<and> 0x80 \<le> lo \<and> continues s lo hi (Suc n)"
    using assms(2) unfolding rune_width_Cons Let_def
    by (simp split: if_splits) (fastforce simp: numeral_eq_Suc)+
  then show ?thesis using that by blast
qed

lemma continues_high:
  assumes "continues s lo hi (Suc n)" "0x80 \<le> lo"
  shows "list_all (\<lambda>x. CHR 0x80 \<le> x) (take (Suc n) s)"
proof (cases s)
  case (Cons d s')
  have "list_all (\<lambda>x. CHR 0x80 \<le> x) (take n s')"
    using assms(1) continuation_high [of 128 191] unfolding continues_def Cons list_all_iff by auto
  with assms Cons show ?thesis by (auto simp: continues_def intro: continuation_high)
qed (use assms in \<open>simp add: continues_def\<close>)

lemma rune_bytes_high:
  assumes "CHR 0x80 \<le> c"
  shows "list_all (\<lambda>x. CHR 0x80 \<le> x) (take (rune_width (c # s)) (c # s))"
proof (cases "rune_width (c # s) = 0")
  case False
  from rune_width_high [OF assms this] obtain n lo hi where
    "rune_width (c # s) = Suc (Suc n)" "0x80 \<le> lo" "continues s lo hi (Suc n)" .
  with continues_high assms show ?thesis by simp
qed simp

text \<open>A code point is recognised by its own bytes alone.\<close>

lemma continues_prefix:
  assumes "continues s lo hi n" "n \<noteq> 0"
  shows "continues (take n s @ t) lo hi n"
proof -
  obtain m where "n = Suc m" using assms(2) by (cases n) auto
  with assms(1) show ?thesis by (cases s) (simp_all add: continues_def)
qed

lemma rune_width_prefix:
  assumes "rune_width (c # s) = w" "w \<noteq> 0"
  shows "rune_width (take w (c # s) @ t) = w"
proof -
  obtain m where m: "w = Suc m" using assms(2) by (cases w) auto
  have "rune_width (c # (take m s @ t)) = Suc m"
    using assms(1) unfolding m rune_width_Cons Let_def
    by (auto split: if_splits intro: continues_prefix)
  with m show ?thesis by simp
qed

lemma rune_width_le: "rune_width (c # s) \<le> Suc (length s)"
proof (cases "c < CHR 0x80 \<or> rune_width (c # s) = 0")
  case False
  then have "CHR 0x80 \<le> c" by (simp add: linorder_not_less)
  from rune_width_high [OF this] False obtain n lo hi
    where "rune_width (c # s) = Suc (Suc n)" "continues s lo hi (Suc n)" by metis
  then show ?thesis by (simp add: continues_def)
qed (auto simp: rune_width_ascii)

lemma valid_to_valid: "valid_utf8 s \<Longrightarrow> to_valid_utf8 s = s"
proof (induction s rule: to_valid_utf8.induct)
  case (2 c s)
  then show ?case
    using append_take_drop_id [of "rune_width (c # s) - 1" s]
    by (cases "rune_width (c # s)") (auto simp: Let_def)
qed simp

section \<open>Valid strings\<close>

lemma valid_utf8_append: "valid_utf8 s \<Longrightarrow> valid_utf8 t \<Longrightarrow> valid_utf8 (s @ t)"
proof (induction s rule: valid_utf8.induct)
  case (2 c s)
  let ?w = "rune_width (c # s)"
  have w: "?w \<noteq> 0" "valid_utf8 (drop (?w - 1) s)" using 2(2) by (simp_all add: Let_def)
  have "take ?w (c # s) @ (drop ?w (c # s) @ t) = c # s @ t" by (simp flip: append_assoc)
  with rune_width_prefix [OF refl w(1), of "drop ?w (c # s) @ t"] have "rune_width (c # s @ t) = ?w" by simp
  with w 2(1) [OF refl w(2) 2(3)] rune_width_le [of c s] show ?case by (simp add: Let_def)
qed simp

lemma valid_rune:
  assumes "rune_width s \<noteq> 0"
  shows "valid_utf8 (take (rune_width s) s)"
proof (cases s)
  case (Cons c t)
  obtain m where m: "rune_width (c # t) = Suc m" using assms Cons by (cases "rune_width (c # t)") auto
  with rune_width_prefix [OF m, of "[]"] have "rune_width (c # take m t) = Suc m" by simp
  with Cons m show ?thesis by (simp add: Let_def)
qed (use assms in \<open>simp add: rune_width_def\<close>)

lemma valid_one_rune: "rune_width u = length u \<Longrightarrow> u \<noteq> [] \<Longrightarrow> valid_utf8 u"
  using valid_rune [of u] by simp

lemma two_bytes:
  fixes a b :: nat
  assumes "2 \<le> a" "a < 32" "b < 64"
  shows "rune_width [char_of (0xC0 + a), char_of (0x80 + b)] = 2"
  using assms by (simp add: rune_width_Cons Let_def continues_def continuation_def)

lemma three_bytes:
  fixes a b c :: nat
  assumes "a < 16" "b < 64" "c < 64" "a = 0 \<Longrightarrow> 32 \<le> b" "a = 13 \<Longrightarrow> b < 32"
  shows "rune_width [char_of (0xE0 + a), char_of (0x80 + b), char_of (0x80 + c)] = 3"
  using assms by (simp add: rune_width_Cons Let_def continues_def continuation_def, linarith?)

lemma four_bytes:
  fixes a b c d :: nat
  assumes "a \<le> 4" "b < 64" "c < 64" "d < 64" "a = 0 \<Longrightarrow> 16 \<le> b" "a = 4 \<Longrightarrow> b < 16"
  shows "rune_width [char_of (0xF0 + a), char_of (0x80 + b), char_of (0x80 + c), char_of (0x80 + d)] = 4"
  using assms by (simp add: rune_width_Cons Let_def continues_def continuation_def, linarith?)

lemma lead_three:
  fixes r :: nat
  assumes "0x800 \<le> r" "r < 0x10000" "\<not> (0xD800 \<le> r \<and> r < 0xE000)"
  shows "r div 4096 < 16" "r div 4096 = 0 \<Longrightarrow> 32 \<le> r div 64 mod 64" "r div 4096 = 13 \<Longrightarrow> r div 64 mod 64 < 32"
proof -
  have q: "r div 4096 = r div 64 div 64" by (simp add: div_mult2_eq)
  show "r div 4096 < 16" using assms(2) by linarith
  show "32 \<le> r div 64 mod 64" if "r div 4096 = 0" using that assms(1) unfolding q by simp
  have "r div 64 = 64 * (r div 64 div 64) + r div 64 mod 64" by simp
  moreover have "r div 64 < 864 \<or> 896 \<le> r div 64" using assms(3) by linarith
  moreover have "r div 64 mod 64 < 64" by simp
  ultimately show "r div 64 mod 64 < 32" if "r div 4096 = 13" using that unfolding q by linarith
qed

lemma lead_four:
  fixes r :: nat
  assumes "0x10000 \<le> r" "r < 0x110000"
  shows "r div 262144 \<le> 4" "r div 262144 = 0 \<Longrightarrow> 16 \<le> r div 4096 mod 64" "r div 262144 = 4 \<Longrightarrow> r div 4096 mod 64 < 16"
proof -
  have q: "r div 262144 = r div 4096 div 64" by (simp add: div_mult2_eq)
  show "r div 262144 \<le> 4" using assms(2) by linarith
  have e: "r div 4096 = 64 * (r div 4096 div 64) + r div 4096 mod 64" by simp
  have "16 \<le> r div 4096" "r div 4096 < 272" using assms by linarith+
  with e show "16 \<le> r div 4096 mod 64" if "r div 262144 = 0" using that unfolding q by linarith
  from e \<open>r div 4096 < 272\<close> show "r div 4096 mod 64 < 16" if "r div 262144 = 4" using that unfolding q by linarith
qed

lemma valid_utf8_encode:
  assumes "r < 0x110000" "\<not> (0xD800 \<le> r \<and> r < 0xE000)"
  shows "valid_utf8 (utf8_encode r)"
proof -
  have m: "r mod 64 < 64" "r div 64 mod 64 < 64" "r div 4096 mod 64 < 64" by simp_all
  consider "r < 0x80" | "0x80 \<le> r" "r < 0x800" | "0x800 \<le> r" "r < 0x10000" | "0x10000 \<le> r" by linarith
  then show ?thesis
  proof cases
    case 1
    then show ?thesis by (intro valid_one_rune) (simp_all add: utf8_encode_def rune_width_Cons Let_def)
  next
    case 2
    then have "2 \<le> r div 64" "r div 64 < 32" by linarith+
    from two_bytes [OF this m(1)] 2 show ?thesis by (intro valid_one_rune) (simp_all add: utf8_encode_def)
  next
    case 3
    note a = lead_three [OF 3 assms(2)]
    from three_bytes [OF a(1) m(2,1) a(2,3)] 3 show ?thesis by (intro valid_one_rune) (simp_all add: utf8_encode_def)
  next
    case 4
    note a = lead_four [OF 4 assms(1)]
    from four_bytes [OF a(1) m(3,2,1) a(2,3)] 4 show ?thesis by (intro valid_one_rune) (simp_all add: utf8_encode_def)
  qed
qed

lemma valid_replacement: "valid_utf8 replacement"
  by code_simp

lemma to_valid_is_valid: "valid_utf8 (to_valid_utf8 s)"
proof (induction s rule: to_valid_utf8.induct)
  case (2 c s)
  then show ?case
    using valid_utf8_append valid_replacement valid_rune [of "c # s"] by (simp add: Let_def)
qed simp

lemma to_valid_changes: "to_valid_utf8 s = s \<longleftrightarrow> valid_utf8 s"
  using to_valid_is_valid [of s] valid_to_valid by metis

section \<open>Decoded literals\<close>

lemma hex_value_less: "is_hex c \<Longrightarrow> hex_value c < 16"
  by (auto simp: is_hex_def hex_value_def is_digit_def less_eq_char_def)

lemma hex_foldl_less:
  "list_all is_hex u \<Longrightarrow> a < 16 ^ k \<Longrightarrow> foldl (\<lambda>a c. a * 16 + hex_value c) a u < 16 ^ (k + length u)"
proof (induction u arbitrary: a k)
  case (Cons c u)
  then have "a * 16 + hex_value c < 16 ^ Suc k" using hex_value_less [of c] by simp
  from Cons.IH [OF _ this] Cons.prems show ?case by simp
qed simp

lemma getu4_less: "getu4 s = Some r \<Longrightarrow> r < 0x10000"
  using hex_foldl_less [of "take 4 (drop 2 s)" 0 0] by (auto simp: getu4_def split: if_splits)

lemma valid_unescape: "valid_utf8 [unescape_char e]"
  by (simp add: unescape_char_def rune_width_ascii)

lemma valid_unquote_loop: "valid_utf8 (unquote_loop s)"
proof (induction s rule: unquote_loop.induct)
  case (2 c s)
  note IH = 2
  show ?case
  proof (cases "c = CHR 0x5C")
    case False
    with IH(6,7) show ?thesis
      using valid_utf8_append valid_replacement valid_rune [of "c # s"] by (simp add: Let_def)
  next
    case True
    show ?thesis
    proof (cases "getu4 (c # s)")
      case None
      show ?thesis
      proof (cases s)
        case (Cons e s')
        with valid_utf8_append [OF valid_unescape IH(1) [OF True None Cons]] True None show ?thesis by simp
      qed (use True None in simp)
    next
      case (Some r)
      note r = getu4_less [OF Some]
      show ?thesis
      proof (cases "0xD800 \<le> r \<and> r < 0xE000")
        case False
        then have "unquote_loop (c # s) = utf8_encode r @ unquote_loop (drop 5 s)" using True Some by auto
        with valid_utf8_append [OF valid_utf8_encode [OF _ False] IH(5) [OF True Some False]] r show ?thesis by simp
      next
        case sur: True
        show ?thesis
        proof (cases "\<exists>r'. getu4 (drop 5 s) = Some r' \<and> r < 0xDC00 \<and> 0xDC00 \<le> r' \<and> r' < 0xE000")
          case True
          then obtain r' where r': "getu4 (drop 5 s) = Some r'" "r < 0xDC00" "0xDC00 \<le> r'" "r' < 0xE000" by blast
          let ?n = "0x10000 + (r - 0xD800) * 0x400 + (r' - 0xDC00)"
          have "valid_utf8 (utf8_encode ?n)" using sur r' by (intro valid_utf8_encode) linarith+
          from valid_utf8_append [OF this] IH(3) \<open>c = _\<close> Some sur r' show ?thesis by simp
        next
          case False
          then have "unquote_loop (c # s) = replacement @ unquote_loop (drop 5 s)"
            using \<open>c = _\<close> Some sur by (auto split: option.split)
          moreover have "valid_utf8 (unquote_loop (drop 5 s))"
            using IH(2,4) [OF \<open>c = _\<close> Some sur] False by (cases "getu4 (drop 5 s)") auto
          ultimately show ?thesis using valid_utf8_append valid_replacement by simp
        qed
      qed
    qed
  qed
qed simp

lemma valid_unquote: "valid_utf8 (unquote literal)"
  by (simp add: unquote_def valid_unquote_loop)

end
