(* ===== verification/GoJsonFacts.thy ===== *)
theory GoJsonFacts
  imports Utf8
begin

text \<open>
  What holds of the JSON reader and writer. The scanner stops exactly at the end of an encoded
  value, whatever bytes its strings hold and whatever follows (\<open>scan_encoded\<close>); an encoded object
  splits into exactly the members it was made of (\<open>members_encoded\<close>); an encoded string reads as
  the string with its invalid bytes replaced (\<open>unquote_quote\<close>), so as itself where it is UTF-8.
\<close>

section \<open>Characters\<close>

lemma hex_digit_char: "d < 16 \<Longrightarrow> is_hex (digit_char d) \<and> hex_value (digit_char d) = d"
proof -
  have "list_all (\<lambda>d. is_hex (digit_char d) \<and> hex_value (digit_char d) = d) [0..<16]" by code_simp
  then show "d < 16 \<Longrightarrow> is_hex (digit_char d) \<and> hex_value (digit_char d) = d"
    by (simp add: list_all_iff)
qed

lemma byte_digits: "(of_char c :: nat) div 16 < 16" "(of_char c :: nat) mod 16 < 16"
  using of_char_less [of c] by (simp_all add: div_less_iff_less_mult)

text \<open>Bytes a scanner passes over inside a string.\<close>

definition string_byte :: "char \<Rightarrow> bool" where
  "string_byte c \<longleftrightarrow> c \<noteq> CHR 0x22 \<and> c \<noteq> CHR 0x5C \<and> CHR 0x20 \<le> c"

lemma high_byte: "CHR 0x80 \<le> c \<Longrightarrow> string_byte c"
  by (auto simp: string_byte_def less_eq_char_def)

text \<open>Text that leaves the scanner inside the string, wherever the string stands.\<close>

definition passes :: "string \<Rightarrow> bool" where
  "passes u \<longleftrightarrow>
     (\<forall>K n t. scan_run (InString, K) n (u @ t) = scan_run (InString, K) (n + length u) t)"

lemma passes_Nil [intro]: "passes []"
  by (simp add: passes_def)

lemma passes_append [intro]: "passes u \<Longrightarrow> passes v \<Longrightarrow> passes (u @ v)"
  by (simp add: passes_def add.assoc)

lemma passes_byte: "string_byte c \<Longrightarrow> passes [c]"
  by (auto simp: passes_def string_byte_def)

lemma passes_bytes: "list_all string_byte u \<Longrightarrow> passes u"
proof (induction u)
  case (Cons c u)
  then have "passes ([c] @ u)" by (intro passes_append passes_byte) simp_all
  then show ?case by simp
qed auto

lemma passes_escape_u:
  "list_all is_hex u \<Longrightarrow> length u = 4 \<Longrightarrow> passes (CHR 0x5C # CHR ''u'' # u)"
  by (auto simp: passes_def length_Suc_conv eval_nat_numeral)

lemma passes_escape_char:
  "e \<in> set (''bfnrt/'' @ [CHR 0x5C, CHR 0x22]) \<Longrightarrow> passes [CHR 0x5C, e]"
  by (auto simp: passes_def)

section \<open>The scanner on encoded text\<close>

lemma low_not_high: "\<not> CHR 0x80 \<le> c \<longleftrightarrow> c < CHR 0x80" for c :: char
  by auto

text \<open>What is written for an ASCII byte: an escape of one character, of four digits, or the byte.\<close>

lemma quote_ascii_cases:
  assumes "c < CHR 0x80"
  obtains (short) e where "quote_ascii c = [CHR 0x5C, e]" "e \<in> set (''bfnrt/'' @ [CHR 0x5C, CHR 0x22])"
      "unescape_char e = c"
  | (long) "quote_ascii c = CHR 0x5C # CHR ''u'' #
        [CHR ''0'', CHR ''0'', digit_char (of_char c div 16), digit_char (of_char c mod 16)]"
  | (plain) "quote_ascii c = [c]" "string_byte c"
proof -
  note d = quote_ascii_def [of c]
  consider "c = CHR 0x5C \<or> c = CHR 0x22" | "c = CHR 0x08" | "c = CHR 0x0C" | "c = CHR 0x0A"
    | "c = CHR 0x0D" | "c = CHR 0x09"
    | "c \<notin> {CHR 0x5C, CHR 0x22, CHR 0x08, CHR 0x0C, CHR 0x0A, CHR 0x0D, CHR 0x09}" by auto
  then show ?thesis
  proof cases
    case 1
    then show ?thesis using d by (intro short [of c]) (auto simp: unescape_char_def)
  next
    case 2
    then show ?thesis using d by (intro short [of "CHR ''b''"]) (auto simp: unescape_char_def)
  next
    case 3
    then show ?thesis using d by (intro short [of "CHR ''f''"]) (auto simp: unescape_char_def)
  next
    case 4
    then show ?thesis using d by (intro short [of "CHR ''n''"]) (auto simp: unescape_char_def)
  next
    case 5
    then show ?thesis using d by (intro short [of "CHR ''r''"]) (auto simp: unescape_char_def)
  next
    case 6
    then show ?thesis using d by (intro short [of "CHR ''t''"]) (auto simp: unescape_char_def)
  next
    case 7
    show ?thesis
    proof (cases "c < CHR 0x20 \<or> c = CHR ''<'' \<or> c = CHR ''>'' \<or> c = CHR ''&''")
      case True
      with 7 d show ?thesis by (intro long) simp
    next
      case False
      with 7 d show ?thesis by (intro plain) (auto simp: string_byte_def linorder_not_less)
    qed
  qed
qed

lemma digits_hex: "list_all is_hex [CHR ''0'', CHR ''0'', digit_char (of_char (c :: char) div 16), digit_char (of_char c mod 16)]"
  using byte_digits [of c] hex_digit_char by (simp add: is_hex_def is_digit_def)

lemma passes_quote_ascii: "c < CHR 0x80 \<Longrightarrow> passes (quote_ascii c)"
proof (elim quote_ascii_cases)
  assume u: "quote_ascii c = CHR 0x5C # CHR ''u'' #
        [CHR ''0'', CHR ''0'', digit_char (of_char c div 16), digit_char (of_char c mod 16)]"
  show "passes (quote_ascii c)" unfolding u by (rule passes_escape_u [OF digits_hex]) simp
qed (simp_all only: passes_escape_char passes_byte)

lemma passes_quote_loop: "passes (quote_loop s)"
proof (induction s rule: quote_loop.induct)
  case (2 c s)
  let ?w = "rune_width (c # s)"
  show ?case
  proof (cases "c < CHR 0x80")
    case True
    with 2(1) passes_quote_ascii show ?thesis by auto
  next
    case False
    then have c: "CHR 0x80 \<le> c" by (simp add: linorder_not_less)
    show ?thesis
    proof (cases "?w = 0")
      case True
      have "list_all is_hex ''fffd''" by code_simp
      then have "passes (CHR 0x5C # ''ufffd'')" using passes_escape_u [of "''fffd''"] by simp
      from passes_append [OF this 2(2) [OF False refl True]] False True show ?thesis by simp
    next
      case w: False
      have "list_all is_hex (''202'' @ [digit_char (of_char (s ! 1) mod 16)])"
        using byte_digits(2) [of "s ! 1"] hex_digit_char by (simp add: is_hex_def is_digit_def)
      then have "passes (CHR 0x5C # ''u202'' @ [digit_char (of_char (s ! 1) mod 16)])"
        using passes_escape_u [of "''202'' @ [digit_char (of_char (s ! 1) mod 16)]"] by simp
      moreover have "passes (take ?w (c # s))"
        using rune_bytes_high [OF c, of s] high_byte by (auto simp: list_all_iff intro: passes_bytes)
      ultimately have "passes (if line_separator (take ?w (c # s))
          then CHR 0x5C # ''u202'' @ [digit_char (of_char (s ! 1) mod 16)]
          else take ?w (c # s))" (is "passes ?e") by simp
      moreover have "quote_loop (c # s) = ?e @ quote_loop (drop (?w - 1) s)"
        using False w by (simp add: Let_def)
      ultimately show ?thesis using 2(3) [OF False refl w] passes_append by metis
    qed
  qed
qed auto

text \<open>A whole string literal, as a value and as a name.\<close>

lemma scan_quote:
  "scan_run (BeginValue, K) n (quote s @ t) = scan_run (EndValue, K) (n + length (quote s)) t"
  "scan_run (BeginString, K) n (quote s @ t) = scan_run (EndValue, K) (n + length (quote s)) t"
  "scan_run (BeginStringOrEmpty, K) n (quote s @ t) = scan_run (EndValue, K) (n + length (quote s)) t"
  using passes_quote_loop [of s]
  by (simp_all add: passes_def quote_def begin_value_def begin_string_def json_space_def)

section \<open>Encoded values\<close>

text \<open>
  The text of a value: where the scanner expects a value, it ends with the text, whatever closes
  the value; it nests at most \<open>d\<close> levels deep.
\<close>

definition closer :: "char \<Rightarrow> bool" where
  "closer c \<longleftrightarrow> c = CHR '','' \<or> c = CHR ''}'' \<or> c = CHR '']''"

definition value_text :: "nat \<Rightarrow> string \<Rightarrow> bool" where
  "value_text d u \<longleftrightarrow>
     (\<exists>x v. u = x # v \<and> \<not> json_space x \<and> x \<noteq> CHR '']'')
     \<and> (\<forall>K n c t. closer c \<longrightarrow> length K + d \<le> maxNestingDepth \<longrightarrow>
          scan_run (BeginValue, K) n (u @ c # t) =
            (if K = [] then ValueEnds (n + length u) else scan_run (EndValue, K) (n + length u) (c # t)))"

lemma value_textI:
  assumes "u = x # v" "\<not> json_space x" "x \<noteq> CHR '']''"
    and "\<And>K n c t. closer c \<Longrightarrow> length K + d \<le> maxNestingDepth \<Longrightarrow>
      scan_run (BeginValue, K) n (u @ c # t) =
        (if K = [] then ValueEnds (n + length u) else scan_run (EndValue, K) (n + length u) (c # t))"
  shows "value_text d u"
  using assms unfolding value_text_def by blast

lemma value_text_scan:
  "value_text d u \<Longrightarrow> closer c \<Longrightarrow> length K + d \<le> maxNestingDepth \<Longrightarrow>
     scan_run (BeginValue, K) n (u @ c # t) =
       (if K = [] then ValueEnds (n + length u) else scan_run (EndValue, K) (n + length u) (c # t))"
  by (simp add: value_text_def)

lemma scan_end_value_Nil: "scan_run (EndValue, []) n (c # t) = ValueEnds n"
  by (simp add: end_value_def)

lemma value_text_quote: "value_text d (quote s)"
proof (rule value_textI)
  show "quote s = CHR 0x22 # quote_loop s @ [CHR 0x22]" by (simp add: quote_def)
qed (simp_all add: json_space_def scan_quote(1) scan_end_value_Nil del: scan_run.simps)

lemma value_text_literal: "value_text d ''true''" "value_text d ''false''" "value_text d ''null''"
  by (rule value_textI, rule refl;
      auto simp: json_space_def begin_value_def end_value_def is_digit_def split: if_splits)+

text \<open>Numbers: the scanner is inside the number until a byte closes it.\<close>

lemma first_digit:
  assumes "m < 10"
  shows "scan_step (BeginValue, K) (digit_char m) = Scanned (if m = 0 then Num0 else Num1, K)"
    "scan_step (Neg, K) (digit_char m) = Scanned (if m = 0 then Num0 else Num1, K)"
    "scan_step (Num1, K) (digit_char m) = Scanned (Num1, K)"
proof -
  from assms have "m = 0 \<or> m = 1 \<or> m = 2 \<or> m = 3 \<or> m = 4 \<or> m = 5 \<or> m = 6 \<or> m = 7 \<or> m = 8 \<or> m = 9"
    by arith
  then have "scan_step (BeginValue, K) (digit_char m) = Scanned (if m = 0 then Num0 else Num1, K)
      \<and> scan_step (Neg, K) (digit_char m) = Scanned (if m = 0 then Num0 else Num1, K)
      \<and> scan_step (Num1, K) (digit_char m) = Scanned (Num1, K)"
    by (elim disjE)
      (simp_all add: digit_char_def hex_digits_def begin_value_def json_space_def is_digit_def)
  then show "scan_step (BeginValue, K) (digit_char m) = Scanned (if m = 0 then Num0 else Num1, K)"
    "scan_step (Neg, K) (digit_char m) = Scanned (if m = 0 then Num0 else Num1, K)"
    "scan_step (Num1, K) (digit_char m) = Scanned (Num1, K)" by simp_all
qed

lemma scan_dec_of_nat:
  assumes "st = BeginValue \<or> st = Neg"
  shows "scan_run (st, K) n (dec_of_nat m @ t) =
     scan_run (if m = 0 then Num0 else Num1, K) (n + length (dec_of_nat m)) t"
proof (induction m arbitrary: n t rule: dec_of_nat.induct)
  case (1 m)
  show ?case
  proof (cases "m < 10")
    case True
    have "dec_of_nat m = [digit_char m]" using True by (subst dec_of_nat.simps) simp
    then show ?thesis using first_digit(1,2) [OF True, of K] assms by auto
  next
    case False
    have e: "dec_of_nat m = dec_of_nat (m div 10) @ [digit_char (m mod 10)]"
      using False by (subst dec_of_nat.simps) simp
    have "scan_run (st, K) n (dec_of_nat (m div 10) @ digit_char (m mod 10) # t)
        = scan_run (Num1, K) (n + length (dec_of_nat (m div 10))) (digit_char (m mod 10) # t)"
      using 1 [OF False, of n "digit_char (m mod 10) # t"] False by (simp add: div_eq_0_iff)
    also have "\<dots> = scan_run (Num1, K) (n + length (dec_of_nat m)) t"
      using first_digit(3) [of "m mod 10" K] unfolding e by simp
    finally show ?thesis using False unfolding e by simp
  qed
qed

lemma scan_number_end:
  assumes "closer c" "st = Num0 \<or> st = Num1"
  shows "scan_run (st, K) n (c # t) = scan_run (EndValue, K) n (c # t)"
proof -
  have "scan_step (st, K) c = scan_step (EndValue, K) c"
    using assms by (auto simp: closer_def dot_or_end_def exp_or_end_def is_digit_def)
  then show ?thesis by simp
qed

lemma digit_not_space: "is_digit x \<Longrightarrow> \<not> json_space x \<and> x \<noteq> CHR '']''"
  by (auto simp: is_digit_def json_space_def)

lemma dec_of_nat_Cons: "\<exists>x v. dec_of_nat m = x # v \<and> is_digit x"
proof -
  have "dec_of_nat m \<noteq> []" by (subst dec_of_nat.simps) simp
  then show ?thesis using dec_of_nat_digits [of m] by (cases "dec_of_nat m") auto
qed

lemma value_text_int: "value_text d (dec_of_int i)"
proof -
  let ?m = "nat (if i < 0 then - i else i)"
  obtain x v where x: "dec_of_nat ?m = x # v" "is_digit x" using dec_of_nat_Cons by blast
  have num: "scan_run (st, K) n (dec_of_nat ?m @ c # t) =
      (if K = [] then ValueEnds (n + length (dec_of_nat ?m))
       else scan_run (EndValue, K) (n + length (dec_of_nat ?m)) (c # t))"
    if "st = BeginValue \<or> st = Neg" "closer c" for st K n c t
    using scan_dec_of_nat [OF that(1), of K n ?m "c # t"] scan_number_end [OF that(2), of _ K] scan_end_value_Nil
    by (simp del: scan_run.simps)
  show ?thesis
  proof (cases "i < 0")
    case True
    then have i: "dec_of_int i = CHR ''-'' # dec_of_nat ?m" by (simp add: dec_of_int_def)
    have "scan_run (BeginValue, K) n (CHR ''-'' # r) = scan_run (Neg, K) (Suc n) r" for K n r
      by (simp add: begin_value_def json_space_def is_digit_def)
    with num show ?thesis unfolding i
      by (intro value_textI [OF refl]) (simp_all add: json_space_def del: scan_run.simps)
  next
    case False
    then have i: "dec_of_int i = dec_of_nat ?m" by (simp add: dec_of_int_def)
    show ?thesis unfolding i
      by (rule value_textI [OF x(1)]) (simp_all add: digit_not_space [OF x(2)] num del: scan_run.simps)
  qed
qed

section \<open>Lists and objects\<close>

declare scan_run.simps [simp del]

text \<open>Values that nest at most \<open>d\<close> levels deep and whose raw parts are values.\<close>

fun json_ok :: "nat \<Rightarrow> json \<Rightarrow> bool" where
  "json_ok d (JBool b) = True"
| "json_ok d (JInt i) = True"
| "json_ok d (JString s) = True"
| "json_ok d (JRaw s) = value_text d s"
| "json_ok d (JList vs) = (0 < d \<and> (\<forall>v \<in> set vs. json_ok (d - 1) v))"
| "json_ok d (JObject ms) = (0 < d \<and> (\<forall>m \<in> set ms. json_ok (d - 1) (snd m)))"

lemma scan_close_list:
  "scan_run (EndValue, ParseArrayValue # K) n (CHR '']'' # c # t) =
     (if K = [] then ValueEnds (n + 1) else scan_run (EndValue, K) (n + 1) (c # t))"
  by (simp add: scan_run.simps end_value_def json_space_def pop_state_def)

lemma scan_close_object:
  "scan_run (EndValue, ParseObjectValue # K) n (CHR ''}'' # c # t) =
     (if K = [] then ValueEnds (n + 1) else scan_run (EndValue, K) (n + 1) (c # t))"
  by (simp add: scan_run.simps end_value_def json_space_def pop_state_def)

lemma scan_open:
  assumes "length K < maxNestingDepth"
  shows "scan_run (BeginValue, K) n (CHR ''['' # t) =
      scan_run (BeginValueOrEmpty, ParseArrayValue # K) (Suc n) t"
    "scan_run (BeginValue, K) n (CHR ''{'' # t) =
      scan_run (BeginStringOrEmpty, ParseObjectKey # K) (Suc n) t"
  using assms by (simp_all add: scan_run.simps begin_value_def json_space_def push_state_def)

lemma scan_comma:
  "scan_run (EndValue, ParseArrayValue # K) n (CHR '','' # t) =
     scan_run (BeginValue, ParseArrayValue # K) (Suc n) t"
  "scan_run (EndValue, ParseObjectValue # K) n (CHR '','' # t) =
     scan_run (BeginString, ParseObjectKey # K) (Suc n) t"
  "scan_run (EndValue, ParseObjectKey # K) n (CHR '':'' # t) =
     scan_run (BeginValue, ParseObjectValue # K) (Suc n) t"
  by (simp_all add: scan_run.simps end_value_def json_space_def)

lemma scan_first_element:
  assumes "value_text d u"
  shows "scan_run (BeginValueOrEmpty, K) n (u @ t) = scan_run (BeginValue, K) n (u @ t)"
proof -
  obtain x v where "u = x # v" "\<not> json_space x" "x \<noteq> CHR '']''"
    using assms by (auto simp: value_text_def)
  then show ?thesis by (simp add: scan_run.simps)
qed

lemma closer_chars: "closer CHR '',''" "closer CHR ''}''" "closer CHR '']''"
  by (simp_all add: closer_def)

lemma encode_list_Cons:
  "encode_list (v # vs) @ t = encode v @ (if vs = [] then t else CHR '','' # encode_list vs @ t)"
  by simp

lemma scan_elements:
  assumes "\<forall>v \<in> set vs. value_text d (encode v)" "vs \<noteq> []" "length K + d < maxNestingDepth"
  shows "scan_run (BeginValue, ParseArrayValue # K) n (encode_list vs @ CHR '']'' # t) =
     scan_run (EndValue, ParseArrayValue # K) (n + length (encode_list vs)) (CHR '']'' # t)"
  using assms
proof (induction vs arbitrary: n)
  case (Cons v vs)
  have v: "value_text d (encode v)" "length (ParseArrayValue # K) + d \<le> maxNestingDepth" using Cons.prems by simp_all
  show ?case
  proof (cases "vs = []")
    case True
    then show ?thesis
      using value_text_scan [OF v(1) closer_chars(3) v(2), of n t] by simp
  next
    case False
    then have "scan_run (BeginValue, ParseArrayValue # K) (n + length (encode v) + 1) (encode_list vs @ CHR '']'' # t) =
      scan_run (EndValue, ParseArrayValue # K) (n + length (encode v) + 1 + length (encode_list vs)) (CHR '']'' # t)"
      using Cons by simp
    then show ?thesis
      using value_text_scan [OF v(1) closer_chars(1) v(2), of n "encode_list vs @ CHR '']'' # t"] False
      by (simp add: scan_comma add.assoc)
  qed
qed simp

lemma scan_members:
  assumes "\<forall>m \<in> set ms. value_text d (encode (snd m))" "ms \<noteq> []" "length K + d < maxNestingDepth"
    and "st = BeginString \<or> st = BeginStringOrEmpty"
  shows "scan_run (st, ParseObjectKey # K) n (encode_members ms @ CHR ''}'' # t) =
     scan_run (EndValue, ParseObjectValue # K) (n + length (encode_members ms)) (CHR ''}'' # t)"
  using assms
proof (induction ms arbitrary: n st)
  case (Cons m ms)
  have v: "value_text d (encode (snd m))" "length (ParseObjectValue # K) + d \<le> maxNestingDepth"
    using Cons.prems by simp_all
  let ?k = "length (quote (fst m)) + 1"
  have key: "scan_run (st, ParseObjectKey # K) n (quote (fst m) @ CHR '':'' # r) =
      scan_run (BeginValue, ParseObjectValue # K) (n + ?k) r" for r
    using Cons.prems(4) scan_quote(2,3) [of "ParseObjectKey # K" n "fst m" "CHR '':'' # r"]
    by (auto simp: scan_comma)
  show ?case
  proof (cases "ms = []")
    case True
    then show ?thesis
      using value_text_scan [OF v(1) closer_chars(2) v(2), of "n + ?k" t] key
      by (simp add: add.assoc)
  next
    case False
    then have "scan_run (BeginString, ParseObjectKey # K) (n + ?k + length (encode (snd m)) + 1)
        (encode_members ms @ CHR ''}'' # t) =
      scan_run (EndValue, ParseObjectValue # K)
        (n + ?k + length (encode (snd m)) + 1 + length (encode_members ms)) (CHR ''}'' # t)"
      using Cons by simp
    then show ?thesis
      using value_text_scan [OF v(1) closer_chars(1) v(2), of "n + ?k" "encode_members ms @ CHR ''}'' # t"] key False
      by (simp add: scan_comma add.assoc)
  qed
qed simp

lemma value_text_list:
  assumes "\<forall>v \<in> set vs. value_text d (encode v)"
  shows "value_text (Suc d) (encode (JList vs))"
proof (rule value_textI)
  show "encode (JList vs) = CHR ''['' # encode_list vs @ '']''" by simp
  show "\<not> json_space CHR ''[''" "CHR ''['' \<noteq> CHR '']''" by (simp_all add: json_space_def)
  fix K :: "parseState list" and n c t
  assume K: "length K + Suc d \<le> maxNestingDepth"
  show "scan_run (BeginValue, K) n (encode (JList vs) @ c # t) =
      (if K = [] then ValueEnds (n + length (encode (JList vs)))
       else scan_run (EndValue, K) (n + length (encode (JList vs))) (c # t))"
  proof (cases vs)
    case Nil
    have "scan_run (BeginValueOrEmpty, ParseArrayValue # K) m (CHR '']'' # r)
        = scan_run (EndValue, ParseArrayValue # K) m (CHR '']'' # r)" for m r
      by (simp add: scan_run.simps json_space_def)
    then show ?thesis
      using K Nil by (simp add: scan_open scan_close_list)
  next
    case (Cons v ws)
    then have v: "value_text d (encode v)" using assms by simp
    have "scan_run (BeginValueOrEmpty, ParseArrayValue # K) m (encode_list vs @ r)
        = scan_run (BeginValue, ParseArrayValue # K) m (encode_list vs @ r)" for m r
      using scan_first_element [OF v] unfolding Cons encode_list_Cons .
    then show ?thesis
      using K Cons scan_elements [OF assms, of K "Suc n" "c # t"]
      by (simp del: encode_list.simps add: scan_open scan_close_list)
  qed
qed

lemma value_text_object:
  assumes "\<forall>m \<in> set ms. value_text d (encode (snd m))"
  shows "value_text (Suc d) (encode (JObject ms))"
proof (rule value_textI)
  show "encode (JObject ms) = CHR ''{'' # encode_members ms @ ''}''" by simp
  show "\<not> json_space CHR ''{''" "CHR ''{'' \<noteq> CHR '']''" by (simp_all add: json_space_def)
  fix K :: "parseState list" and n c t
  assume K: "length K + Suc d \<le> maxNestingDepth"
  show "scan_run (BeginValue, K) n (encode (JObject ms) @ c # t) =
      (if K = [] then ValueEnds (n + length (encode (JObject ms)))
       else scan_run (EndValue, K) (n + length (encode (JObject ms))) (c # t))"
  proof (cases "ms = []")
    case True
    have "scan_run (BeginStringOrEmpty, ParseObjectKey # K) m (CHR ''}'' # r)
        = scan_run (EndValue, ParseObjectValue # K) m (CHR ''}'' # r)" for m r
      by (simp add: scan_run.simps json_space_def)
    then show ?thesis
      using K True by (simp add: scan_open scan_close_object)
  next
    case False
    then show ?thesis
      using K scan_members [OF assms, of K BeginStringOrEmpty "Suc n" "c # t"]
      by (simp add: scan_open scan_close_object)
  qed
qed

lemma value_text_encode: "json_ok d v \<Longrightarrow> value_text d (encode v)"
proof (induction d v rule: json_ok.induct)
  case (5 d vs)
  then show ?case using value_text_list [of vs "d - 1"] by simp
next
  case (6 d ms)
  then show ?case using value_text_object [of ms "d - 1"] by simp
qed (simp_all add: value_text_literal value_text_int value_text_quote)

section \<open>Splitting encoded objects\<close>

lemma scan_value_object:
  assumes "json_ok d (JObject ms)" "d \<le> maxNestingDepth"
  shows "scan_value (encode (JObject ms) @ t) = ValueEnds (length (encode (JObject ms)))"
proof -
  have v: "\<forall>m \<in> set ms. value_text (d - 1) (encode (snd m))" and d: "0 < d" "(0 :: nat) < maxNestingDepth"
    using assms value_text_encode by (auto simp: maxNestingDepth_def)
  have close: "scan_run (EndValue, [ParseObjectValue]) n (CHR ''}'' # t) = ValueEnds (Suc n)" for n
    by (simp add: scan_run.simps end_value_def json_space_def pop_state_def)
  have "scan_run (BeginStringOrEmpty, [ParseObjectKey]) 1 (encode_members ms @ CHR ''}'' # t)
      = ValueEnds (Suc (1 + length (encode_members ms)))"
  proof (cases "ms = []")
    case True
    have "scan_run (BeginStringOrEmpty, [ParseObjectKey]) 1 (CHR ''}'' # t)
        = scan_run (EndValue, [ParseObjectValue]) 1 (CHR ''}'' # t)"
      by (simp add: scan_run.simps json_space_def)
    with close True show ?thesis by simp
  next
    case False
    from scan_members [OF v False, of "[]" BeginStringOrEmpty 1 t] close assms(2) d(1) show ?thesis by simp
  qed
  then show ?thesis using scan_open(2) [of "[]" 0 "encode_members ms @ CHR ''}'' # t"] d(2) by simp
qed

lemma value_length_quote: "value_length (quote s @ c # t) = length (quote s)"
  using scan_quote(1) [of "[]" 0 s "c # t"] by (simp add: value_length_def scan_run.simps end_value_def)

lemma value_length_text:
  "value_text d u \<Longrightarrow> d \<le> maxNestingDepth \<Longrightarrow> closer c \<Longrightarrow> value_length (u @ c # t) = length u"
  using value_text_scan [of d u c "[]" 0 t] by (simp add: value_length_def)

lemma skip_space_text: "value_text d u \<Longrightarrow> skip_space (u @ t) = u @ t"
  by (auto simp: value_text_def)

lemma skip_space_char: "\<not> json_space c \<Longrightarrow> skip_space (c # t) = c # t"
  by simp

lemma members_Cons:
  assumes "value_text d u" "d \<le> maxNestingDepth" "closer c"
  shows "members (quote k @ CHR '':'' # u @ c # t) =
     (unquote (quote k), u) # (if c = CHR '','' then members t else [])"
proof -
  have q: "quote k = CHR 0x22 # quote_loop k @ [CHR 0x22]" by (simp add: quote_def)
  have s1: "skip_space (quote k @ r) = quote k @ r" for r by (simp add: q json_space_def)
  let ?s = "quote k @ CHR '':'' # u @ c # t"
  have colon: "\<not> json_space CHR '':''" by (simp add: json_space_def)
  have 1: "skip_space ?s = ?s" by (rule s1)
  have 2: "\<not> (?s = [] \<or> hd ?s \<noteq> CHR 0x22)" by (simp add: q)
  have 3: "value_length ?s = length (quote k)" by (rule value_length_quote)
  have 4: "skip_space (tl (skip_space (drop (length (quote k)) ?s))) = u @ c # t"
    by (simp add: colon skip_space_text [OF assms(1)])
  have 5: "value_length (u @ c # t) = length u" by (rule value_length_text [OF assms])
  have 6: "skip_space (drop (length u) (u @ c # t)) = c # t"
    using assms(3) by (auto simp: closer_def json_space_def)
  show ?thesis
    by (subst members.simps) (simp only: Let_def 1 2 3 4 5 6 if_False, simp)
qed

lemma members_encoded:
  assumes "\<forall>m \<in> set ms. value_text d (encode (snd m))" "d \<le> maxNestingDepth"
  shows "members (encode_members ms @ CHR ''}'' # t) = map (\<lambda>m. (unquote (quote (fst m)), encode (snd m))) ms"
  using assms
proof (induction ms)
  case Nil
  show ?case by (subst members.simps) (simp add: json_space_def)
next
  case (Cons m ms)
  have v: "value_text d (encode (snd m))" using Cons.prems by simp
  show ?case
  proof (cases "ms = []")
    case True
    then show ?thesis using members_Cons [OF v assms(2) closer_chars(2), of "fst m" t] by simp
  next
    case False
    then show ?thesis
      using members_Cons [OF v assms(2) closer_chars(1), of "fst m" "encode_members ms @ CHR ''}'' # t"] Cons
      by simp
  qed
qed

section \<open>Reading strings back\<close>

text \<open>Text that reads as \<open>d\<close>, whatever follows.\<close>

definition reads :: "string \<Rightarrow> string \<Rightarrow> bool" where
  "reads u d \<longleftrightarrow> (\<forall>t. unquote_loop (u @ t) = d @ unquote_loop t)"

lemma reads_append: "reads u d \<Longrightarrow> reads v e \<Longrightarrow> reads (u @ v) (d @ e)"
  by (simp add: reads_def)

lemma reads_escape_char:
  "e \<noteq> CHR ''u'' \<Longrightarrow> reads [CHR 0x5C, e] [unescape_char e]"
  by (simp add: reads_def getu4_def)

lemma getu4_escape:
  assumes "list_all is_hex u" "length u = 4"
  shows "getu4 (CHR 0x5C # CHR ''u'' # u @ t) = Some (foldl (\<lambda>a c. a * 16 + hex_value c) 0 u)"
  using assms by (simp add: getu4_def)

lemma reads_escape_u:
  assumes "list_all is_hex u" "length u = 4" "foldl (\<lambda>a c. a * 16 + hex_value c) 0 u = r"
    and "\<not> (0xD800 \<le> r \<and> r < 0xE000)"
  shows "reads (CHR 0x5C # CHR ''u'' # u) (utf8_encode r)"
  unfolding reads_def
proof
  fix t
  have d: "drop 5 (CHR ''u'' # u @ t) = t" using assms(2) by simp
  show "unquote_loop ((CHR 0x5C # CHR ''u'' # u) @ t) = utf8_encode r @ unquote_loop t"
    unfolding append_Cons unquote_loop.simps getu4_escape [OF assms(1,2)] assms(3) option.case d
    by (simp only: if_not_P [OF assms(4)] simp_thms if_True)
qed

lemma reads_rune:
  assumes "c \<noteq> CHR 0x5C" "rune_width (c # s) = w" "w \<noteq> 0"
  shows "reads (take w (c # s)) (take w (c # s))"
  unfolding reads_def
proof
  fix t
  obtain m where m: "w = Suc m" using assms(3) by (cases w) auto
  have l: "length (take m s) = m" using rune_width_le [of c s] assms(2) m by simp
  have "rune_width (c # take m s @ t) = Suc m"
    using rune_width_prefix [OF assms(2,3), of t] m by simp
  then have "unquote_loop (c # take m s @ t) = take (Suc m) (c # take m s @ t) @ unquote_loop (drop m (take m s @ t))"
    using assms(1) by (simp add: Let_def)
  then show "unquote_loop (take w (c # s) @ t) = take w (c # s) @ unquote_loop t"
    using l m by simp
qed

lemma char_of_of_char: "char_of (of_char c :: nat) = c"
  by simp

lemma reads_quote_ascii:
  assumes c: "c < CHR 0x80"
  shows "reads (quote_ascii c) [c]"
  using c
proof (cases rule: quote_ascii_cases)
  case (short e)
  then show ?thesis using reads_escape_char [of e] by auto
next
  case long
  let ?u = "[CHR ''0'', CHR ''0'', digit_char (of_char c div 16), digit_char (of_char c mod 16)]"
  have "foldl (\<lambda>a c. a * 16 + hex_value c) 0 ?u = of_char c"
    using byte_digits [of c] hex_digit_char by (simp add: hex_value_def is_digit_def)
  moreover have "of_char c < (128 :: nat)" using c by (simp add: less_char_def)
  ultimately show ?thesis
    using reads_escape_u [OF digits_hex [of c], of "of_char c"] unfolding long utf8_encode_def by simp
next
  case plain
  then show ?thesis
    using c reads_rune [of c "[]" 1] rune_width_ascii [of c "[]"] by (simp add: string_byte_def)
qed

text \<open>The escapes of code points.\<close>

lemma reads_code_points:
  "reads (CHR 0x5C # ''ufffd'') replacement"
  "reads (CHR 0x5C # ''u2028'') [CHR 0xE2, CHR 0x80, CHR 0xA8]"
  "reads (CHR 0x5C # ''u2029'') [CHR 0xE2, CHR 0x80, CHR 0xA9]"
proof -
  have "list_all is_hex ''fffd''" "list_all is_hex ''2028''" "list_all is_hex ''2029''" by code_simp+
  moreover have "foldl (\<lambda>a c. a * 16 + hex_value c) 0 ''fffd'' = 0xFFFD"
    "foldl (\<lambda>a c. a * 16 + hex_value c) 0 ''2028'' = 0x2028"
    "foldl (\<lambda>a c. a * 16 + hex_value c) 0 ''2029'' = 0x2029"
    by (simp_all add: hex_value_def is_digit_def)
  moreover have "utf8_encode 0xFFFD = replacement" "utf8_encode 0x2028 = [CHR 0xE2, CHR 0x80, CHR 0xA8]"
    "utf8_encode 0x2029 = [CHR 0xE2, CHR 0x80, CHR 0xA9]"
    by (simp_all add: utf8_encode_def replacement_def char_of_def bit_0)
  ultimately show "reads (CHR 0x5C # ''ufffd'') replacement"
    "reads (CHR 0x5C # ''u2028'') [CHR 0xE2, CHR 0x80, CHR 0xA8]"
    "reads (CHR 0x5C # ''u2029'') [CHR 0xE2, CHR 0x80, CHR 0xA9]"
    using reads_escape_u [of "''fffd''" "0xFFFD"] reads_escape_u [of "''2028''" "0x2028"]
      reads_escape_u [of "''2029''" "0x2029"] by simp_all
qed

text \<open>An encoded string reads as the string with its invalid bytes replaced.\<close>

lemma reads_quote_loop: "reads (quote_loop s) (to_valid_utf8 s)"
proof (induction s rule: quote_loop.induct)
  case 1
  then show ?case by (simp add: reads_def)
next
  case (2 c s)
  let ?w = "rune_width (c # s)"
  show ?case
  proof (cases "c < CHR 0x80")
    case True
    then have "?w = 1" by (rule rune_width_ascii)
    with True reads_append [OF reads_quote_ascii [OF True] 2(1) [OF True]] show ?thesis by (simp add: Let_def)
  next
    case False
    then have c: "CHR 0x80 \<le> c" by (simp add: linorder_not_less)
    show ?thesis
    proof (cases "?w = 0")
      case True
      from reads_append [OF reads_code_points(1) 2(2) [OF False refl True]] False True
      show ?thesis by (simp add: Let_def)
    next
      case w: False
      let ?u = "take ?w (c # s)"
      let ?e = "if line_separator ?u then CHR 0x5C # ''u202'' @ [digit_char (of_char (s ! 1) mod 16)] else ?u"
      have "reads ?e ?u"
      proof (cases "line_separator ?u")
        case True
        then have "3 \<le> ?w" by (auto simp: line_separator_def dest!: arg_cong [of _ _ length])
        then have "?u ! 2 = s ! 1" by simp
        with True have "s ! 1 = CHR 0xA8 \<and> ?u = [CHR 0xE2, CHR 0x80, CHR 0xA8]
            \<or> s ! 1 = CHR 0xA9 \<and> ?u = [CHR 0xE2, CHR 0x80, CHR 0xA9]"
          unfolding line_separator_def by (elim disjE) simp_all
        moreover have "digit_char (of_char CHR 0xA8 mod 16) = CHR ''8''"
          "digit_char (of_char CHR 0xA9 mod 16) = CHR ''9''"
          by (simp_all add: digit_char_def hex_digits_def)
        ultimately show ?thesis using True reads_code_points(2,3) by (elim disjE) simp_all
      next
        case False
        have "c \<noteq> CHR 0x5C" using c by auto
        with False reads_rune [OF _ refl w] show ?thesis by simp
      qed
      moreover have "quote_loop (c # s) = ?e @ quote_loop (drop (?w - 1) s)" using False w by (simp add: Let_def)
      moreover have "to_valid_utf8 (c # s) = ?u @ to_valid_utf8 (drop (?w - 1) s)" using w by (simp add: Let_def)
      ultimately show ?thesis using reads_append 2(3) [OF False refl w] by metis
    qed
  qed
qed

lemma unquote_quote: "unquote (quote s) = to_valid_utf8 s"
  using reads_quote_loop [of s] unfolding reads_def unquote_def quote_def
  by (metis append_Nil2 butlast_snoc list.sel(3) unquote_loop.simps(1))

lemma unquote_quote_valid: "valid_utf8 s \<Longrightarrow> unquote (quote s) = s"
  by (simp add: unquote_quote valid_to_valid)

section \<open>Text in HTML\<close>

text \<open>What is encoded holds none of the characters HTML gives a meaning to.\<close>

definition html_safe :: "string \<Rightarrow> bool" where
  "html_safe s \<longleftrightarrow> \<not> contains_any s ''<>&''"

lemma html_safe_simps [simp]:
  "html_safe []" "html_safe (s @ t) \<longleftrightarrow> html_safe s \<and> html_safe t"
  "html_safe (c # s) \<longleftrightarrow> c \<noteq> CHR ''<'' \<and> c \<noteq> CHR ''>'' \<and> c \<noteq> CHR ''&'' \<and> html_safe s"
  by (auto simp: html_safe_def)

lemma digits_html_safe: "d < 16 \<Longrightarrow> html_safe [digit_char d]"
proof -
  have "list_all (\<lambda>d. html_safe [digit_char d]) [0..<16]" by code_simp
  then show "d < 16 \<Longrightarrow> html_safe [digit_char d]" by (simp add: list_all_iff)
qed

lemma quote_ascii_html_safe: "html_safe (quote_ascii c)"
  using digits_html_safe [OF byte_digits(1) [of c]] digits_html_safe [OF byte_digits(2) [of c]]
  by (simp add: quote_ascii_def)

lemma high_html_safe: "list_all (\<lambda>x. CHR 0x80 \<le> x) u \<Longrightarrow> html_safe u"
  by (induction u) auto

lemma quote_loop_html_safe: "html_safe (quote_loop s)"
proof (induction s rule: quote_loop.induct)
  case (2 c s)
  have "CHR 0x80 \<le> c" if "\<not> c < CHR 0x80" using that by (simp add: linorder_not_less)
  then have "html_safe (take (rune_width (c # s)) (c # s))" if "\<not> c < CHR 0x80"
    using that high_html_safe rune_bytes_high by blast
  with 2 show ?case
    using digits_html_safe [OF byte_digits(2) [of "s ! 1"]]
    by (auto simp: Let_def quote_ascii_html_safe)
qed simp

fun raw_free :: "json \<Rightarrow> bool" where
  "raw_free (JRaw s) = False"
| "raw_free (JList vs) = (\<forall>v \<in> set vs. raw_free v)"
| "raw_free (JObject ms) = (\<forall>m \<in> set ms. raw_free (snd m))"
| "raw_free _ = True"

lemma dec_html_safe: "html_safe (dec_of_int i)"
proof -
  have "list_all is_digit u \<Longrightarrow> html_safe u" for u
    by (induction u) (auto simp: is_digit_def)
  then show ?thesis using dec_of_nat_digits by (simp add: dec_of_int_def)
qed

lemma encode_html_safe:
  "raw_free v \<Longrightarrow> html_safe (encode v)"
  "\<forall>v \<in> set vs. raw_free v \<Longrightarrow> html_safe (encode_list vs)"
  "\<forall>m \<in> set ms. raw_free (snd m) \<Longrightarrow> html_safe (encode_members ms)"
  by (induction v and vs and ms rule: encode_encode_list_encode_members.induct)
    (auto simp: quote_def quote_loop_html_safe dec_html_safe)

lemma json_line_html_safe: "\<forall>m \<in> set fs. raw_free (snd m) \<Longrightarrow> \<not> contains_any (json_line fs) ''<>&''"
proof -
  assume r: "\<forall>m \<in> set fs. raw_free (snd m)"
  have "html_safe (encode (json_map id fs))"
    by (rule encode_html_safe(1)) (use r in \<open>auto simp: json_map_def\<close>)
  then show ?thesis by (simp add: json_line_def html_safe_def)
qed

end
