(* ===== verification/Wire.thy ===== *)
theory Wire
  imports Messages GoJsonFacts
begin

text \<open>
  The messages on the wire: the JSON form of the structs of \<open>agent.go\<close> and \<open>challenge.go\<close>, as
  their field tags give it. What is sent is encoded with the fields in their order, those marked
  \<open>omitempty\<close> only where they are not empty; what is received fills a struct through its table of
  fields, strictly.
\<close>

section \<open>Encoding\<close>

definition opt_string :: "string \<Rightarrow> string \<Rightarrow> (string \<times> json) list" where
  "opt_string name v = (if v = [] then [] else [(name, JString v)])"

definition opt_bool :: "string \<Rightarrow> bool \<Rightarrow> (string \<times> json) list" where
  "opt_bool name v = (if v then [(name, JBool True)] else [])"

definition opt_int :: "string \<Rightarrow> int \<Rightarrow> (string \<times> json) list" where
  "opt_int name v = (if v = 0 then [] else [(name, JInt v)])"

definition opt_strings :: "string \<Rightarrow> string list \<Rightarrow> (string \<times> json) list" where
  "opt_strings name vs = (if vs = [] then [] else [(name, JList (map JString vs))])"

text \<open>A \<open>[]byte\<close> is sent in padded base64.\<close>

definition base64_std_char :: "nat \<Rightarrow> char" where
  "base64_std_char n =
     ''ABCDEFGHIJKLMNOPQRSTUVWXYZabcdefghijklmnopqrstuvwxyz0123456789+/'' ! n"

fun base64_std :: "string \<Rightarrow> string" where
  "base64_std [] = []"
| "base64_std [a] =
     [base64_std_char (of_char a div 4), base64_std_char (of_char a mod 4 * 16), CHR ''='', CHR ''='']"
| "base64_std [a, b] =
     [base64_std_char (of_char a div 4), base64_std_char (of_char a mod 4 * 16 + of_char b div 16),
      base64_std_char (of_char b mod 16 * 4), CHR ''='']"
| "base64_std (a # b # c # s) =
     base64_std_char (of_char a div 4) # base64_std_char (of_char a mod 4 * 16 + of_char b div 16)
     # base64_std_char (of_char b mod 16 * 4 + of_char c div 64) # base64_std_char (of_char c mod 64)
     # base64_std s"

definition opt_bytes :: "string \<Rightarrow> string \<Rightarrow> (string \<times> json) list" where
  "opt_bytes name v = (if v = [] then [] else [(name, JString (base64_std v))])"

definition evaluation_members :: "evaluationRequest \<Rightarrow> (string \<times> json) list" where
  "evaluation_members q =
     [(''request_id'', JString (q_requestID q)), (''client_ip'', JString (q_clientIP q))]
     @ opt_string ''client_ip_source'' (q_clientIPSource q)
     @ [(''method'', JString (q_method q)), (''scheme'', JString (q_scheme q)),
        (''host'', JString (q_host q)), (''path'', JString (q_path q)), (''query'', JString (q_query q)),
        (''headers'', json_map JString (q_headers q)), (''cookies'', json_map JString (q_cookies q))]
     @ opt_string ''header_mode'' (q_headerMode q) @ opt_string ''cookie_mode'' (q_cookieMode q)
     @ opt_strings ''allowlisted_headers'' (q_allowlistedHeaders q)
     @ opt_strings ''allowlisted_cookies'' (q_allowlistedCookies q)
     @ opt_bool ''headers_truncated'' (q_headersTruncated q)
     @ opt_bool ''cookies_truncated'' (q_cookiesTruncated q)
     @ [(''protocol_type'', JString (q_protocolType q))]
     @ opt_string ''http_version'' (q_httpVersion q) @ opt_bytes ''body'' (q_body q)
     @ opt_bool ''body_truncated'' (q_bodyTruncated q)
     @ opt_string ''resource_hint'' (q_resourceHint q)"

text \<open>\<open>json.Marshal\<close>: \<open>None\<close> is an error, which only a raw message can cause.\<close>

definition marshalEvaluation :: "evaluationRequest \<Rightarrow> string option" where
  "marshalEvaluation q = Some (encode (JObject (evaluation_members q)))"

definition context_members :: "challengeContext \<Rightarrow> (string \<times> json) list" where
  "context_members cx =
     [(''resource_id'', JString (cx_resourceID cx)), (''site_id'', JString (cx_siteID cx)),
      (''client_ip'', JString (cx_clientIP cx)), (''user_agent'', JString (cx_userAgent cx)),
      (''path'', JString (cx_path cx))]"

definition marshalCreate :: "challengeCreateRequest \<Rightarrow> string option" where
  "marshalCreate m = Some (encode (JObject
     [(''challenge_token'', JString (cr_challengeToken m)),
      (''context'', JObject (context_members (cr_context m)))]))"

text \<open>A raw message is compacted; one that is \<open>nil\<close> is sent as \<open>null\<close>.\<close>

definition marshalVerify :: "challengeVerifyRequest \<Rightarrow> string option" where
  "marshalVerify m =
     (case (if cv_payload m = [] then Some ''null'' else compact (cv_payload m)) of
        None \<Rightarrow> None
      | Some payload \<Rightarrow> Some (encode (JObject
          [(''challenge_token'', JString (cv_token m)), (''payload'', JRaw payload),
           (''context'', JObject (context_members (cv_context m)))])))"

section \<open>Decoding\<close>

definition responseFields :: "evaluationResponse field list" where
  "responseFields =
     [(''decision'', set_string (\<lambda>v r. r\<lparr>r_decision := v\<rparr>)),
      (''status'', set_int (\<lambda>v r. r\<lparr>r_status := v\<rparr>)),
      (''request_id'', set_string (\<lambda>v r. r\<lparr>r_requestID := v\<rparr>)),
      (''public_reason'', set_string (\<lambda>v r. r\<lparr>r_publicReason := v\<rparr>)),
      (''cache_ttl_ms'', set_int (\<lambda>v r. r\<lparr>r_cacheTTLMS := v\<rparr>)),
      (''resource_id'', set_string (\<lambda>v r. r\<lparr>r_resourceID := v\<rparr>)),
      (''site_id'', set_string (\<lambda>v r. r\<lparr>r_siteID := v\<rparr>)),
      (''challenge_url'', set_string (\<lambda>v r. r\<lparr>r_challengeURL := v\<rparr>)),
      (''challenge_token'', set_string (\<lambda>v r. r\<lparr>r_challengeToken := v\<rparr>)),
      (''challenge_auto_start'', set_bool (\<lambda>v r. r\<lparr>r_challengeAutoStart := v\<rparr>)),
      (''cacheable'', set_bool (\<lambda>v r. r\<lparr>r_cacheable := v\<rparr>)),
      (''cache_key'', set_string (\<lambda>v r. r\<lparr>r_cacheKey := v\<rparr>)),
      (''cache_key_scope'', set_string (\<lambda>v r. r\<lparr>r_cacheKeyScope := v\<rparr>)),
      (''decision_scope'', set_string (\<lambda>v r. r\<lparr>r_decisionScope := v\<rparr>)),
      (''policy_revision'', set_uint (\<lambda>v r. r\<lparr>r_policyRevision := v\<rparr>)),
      (''retry_after_seconds'', set_int (\<lambda>v r. r\<lparr>r_retryAfterSeconds := v\<rparr>))]"

definition unmarshalResponse :: "string \<Rightarrow> evaluationResponse option" where
  "unmarshalResponse = fill_struct responseFields emptyResponse"

definition emptyVerification :: challengeVerifyResponse where
  "emptyVerification = \<lparr>v_verified = False, v_publicReason = [], v_cookieName = [],
     v_cookieValue = [], v_cookieMaxAge = 0\<rparr>"

definition verificationFields :: "challengeVerifyResponse field list" where
  "verificationFields =
     [(''verified'', set_bool (\<lambda>v r. r\<lparr>v_verified := v\<rparr>)),
      (''public_reason'', set_string (\<lambda>v r. r\<lparr>v_publicReason := v\<rparr>)),
      (''cookie_name'', set_string (\<lambda>v r. r\<lparr>v_cookieName := v\<rparr>)),
      (''cookie_value'', set_string (\<lambda>v r. r\<lparr>v_cookieValue := v\<rparr>)),
      (''cookie_max_age'', set_int (\<lambda>v r. r\<lparr>v_cookieMaxAge := v\<rparr>))]"

definition unmarshalVerification :: "string \<Rightarrow> challengeVerifyResponse option" where
  "unmarshalVerification = fill_struct verificationFields emptyVerification"

text \<open>A \<open>json.RawMessage\<close> takes the text of the value as it is.\<close>

definition unmarshalRaw :: "string \<Rightarrow> string option" where
  "unmarshalRaw text0 = Some (skip_space text0)"

text \<open>What the browser posts (\<open>challenge.go\<close>).\<close>

record browserVerifyRequest =
  bv_challengeToken :: string
  bv_resourceID :: string
  bv_siteID :: string
  bv_path :: string
  bv_payload :: string

definition emptySubmission :: browserVerifyRequest where
  "emptySubmission = \<lparr>bv_challengeToken = [], bv_resourceID = [], bv_siteID = [], bv_path = [],
     bv_payload = []\<rparr>"

definition submissionFields :: "browserVerifyRequest field list" where
  "submissionFields =
     [(''challenge_token'', set_string (\<lambda>v r. r\<lparr>bv_challengeToken := v\<rparr>)),
      (''resource_id'', set_string (\<lambda>v r. r\<lparr>bv_resourceID := v\<rparr>)),
      (''site_id'', set_string (\<lambda>v r. r\<lparr>bv_siteID := v\<rparr>)),
      (''path'', set_string (\<lambda>v r. r\<lparr>bv_path := v\<rparr>)),
      (''payload'', set_raw (\<lambda>v r. r\<lparr>bv_payload := v\<rparr>))]"

definition unmarshalSubmission :: "string \<Rightarrow> browserVerifyRequest option" where
  "unmarshalSubmission = fill_struct submissionFields emptySubmission"

section \<open>What a reader makes of a message\<close>

text \<open>Names of fields: lower-case letters and underscores, so case folding leaves them alone.\<close>

definition field_name :: "string \<Rightarrow> bool" where
  "field_name s \<longleftrightarrow> list_all (\<lambda>c. (CHR ''a'' \<le> c \<and> c \<le> CHR ''z'') \<or> c = CHR ''_'') s"

lemma field_char: "(CHR ''a'' \<le> c \<and> c \<le> CHR ''z'') \<or> c = CHR ''_'' \<Longrightarrow> c < CHR 0x80 \<and> lower_char c = c"
  by (auto simp: lower_char_def less_eq_char_def less_char_def)

lemma field_name_ascii: "field_name s \<Longrightarrow> ascii s"
  unfolding field_name_def ascii_def list_all_iff using field_char by blast

lemma field_name_fold: "field_name s \<Longrightarrow> fold_case s = s"
  using field_char fold_case_ascii [OF field_name_ascii]
  by (simp add: field_name_def list_all_iff map_idI)

lemma equal_fold_names: "field_name s \<Longrightarrow> field_name t \<Longrightarrow> equal_fold s t \<longleftrightarrow> s = t"
  by (simp add: equal_fold_def field_name_fold)

lemma unquote_name: "field_name s \<Longrightarrow> unquote (quote s) = s"
  by (simp add: unquote_quote_valid valid_utf8_ascii field_name_ascii)

lemma map_unquote_names:
  "list_all field_name (map fst ms) \<Longrightarrow>
     map (\<lambda>m. (unquote (quote (fst m)), encode (snd m))) ms = map (\<lambda>m. (fst m, encode (snd m))) ms"
  by (auto simp: list_all_iff unquote_name)

text \<open>An encoded object, as a receiver sees it: its members, in order.\<close>

lemma object_members:
  assumes "json_ok d (JObject ms)" "d \<le> maxNestingDepth" "list_all field_name (map fst ms)"
  shows "members (tl (encode (JObject ms))) = map (\<lambda>m. (fst m, encode (snd m))) ms"
proof -
  have v: "\<forall>m \<in> set ms. value_text (d - 1) (encode (snd m))" "d - 1 \<le> maxNestingDepth"
    using assms(1,2) value_text_encode by auto
  show ?thesis
    using members_encoded [OF v, of "[]"] unfolding map_unquote_names [OF assms(3)] by simp
qed

lemma json_map_ok: "(\<And>v. json_ok d (f v)) \<Longrightarrow> json_ok (Suc d) (json_map f m)"
  by (auto simp: json_map_def)

lemma evaluation_json_ok: "json_ok 2 (JObject (evaluation_members q))"
proof -
  have "json_ok 1 (json_map JString m)" for m :: "string gomap"
    using json_map_ok [of 0 JString m] by simp
  then show ?thesis
    by (auto simp: evaluation_members_def opt_string_def opt_bool_def opt_strings_def opt_bytes_def)
qed

lemma evaluation_names: "list_all field_name (map fst (evaluation_members q))"
proof -
  have "list_all field_name [''request_id'', ''client_ip'', ''client_ip_source'', ''method'', ''scheme'',
      ''host'', ''path'', ''query'', ''headers'', ''cookies'', ''header_mode'', ''cookie_mode'',
      ''allowlisted_headers'', ''allowlisted_cookies'', ''headers_truncated'', ''cookies_truncated'',
      ''protocol_type'', ''http_version'', ''body'', ''body_truncated'', ''resource_hint'']" by code_simp
  then show ?thesis
    by (simp add: evaluation_members_def opt_string_def opt_bool_def opt_strings_def opt_bytes_def)
qed

lemma evaluation_read:
  assumes "marshalEvaluation q = Some body"
  shows "scan_value body = ValueEnds (length body)"
    "members (tl body) = map (\<lambda>m. (fst m, encode (snd m))) (evaluation_members q)"
proof -
  have b: "body = encode (JObject (evaluation_members q))" and d: "2 \<le> maxNestingDepth"
    using assms by (simp_all add: marshalEvaluation_def maxNestingDepth_def)
  show "scan_value body = ValueEnds (length body)"
    using scan_value_object [OF evaluation_json_ok d, of q "[]"] unfolding b by simp
  show "members (tl body) = map (\<lambda>m. (fst m, encode (snd m))) (evaluation_members q)"
    unfolding b by (rule object_members [OF evaluation_json_ok d evaluation_names])
qed

text \<open>The string a receiver reads under a name.\<close>

definition read_string :: "string \<Rightarrow> string \<Rightarrow> string option" where
  "read_string name body = map_option unquote (map_of (members (tl body)) name)"

lemma read_request_id:
  "marshalEvaluation q = Some body \<Longrightarrow>
     read_string ''request_id'' body = Some (to_valid_utf8 (q_requestID q))"
  by (simp add: read_string_def evaluation_read evaluation_members_def unquote_quote)

section \<open>Filling what was encoded\<close>

lemma fill_field:
  assumes "find (\<lambda>f. equal_fold (fst f) name) table = Some (name, put)" "put raw x = Some x'"
  shows "fill_members table ((name, raw) # ms) x = fill_members table ms x'"
  using assms by simp

lemma quote_not_null: "quote s \<noteq> ''null''" "quote s \<noteq> []" "hd (quote s) = CHR 0x22"
  by (simp_all add: quote_def)

lemma set_string_quote: "valid_utf8 v \<Longrightarrow> set_string f (quote v) x = Some (f v x)"
  by (simp add: set_string_def quote_not_null unquote_quote_valid)

lemma set_bool_encode: "set_bool f (encode (JBool b)) x = Some (f b x)"
  by (simp add: set_bool_def)

lemma dec_value_snoc: "dec_value (s @ [c]) = dec_value s * 10 + (of_char c - 48)"
  by (simp add: dec_value_def)

lemma dec_value_of_nat: "dec_value (dec_of_nat n) = n"
proof (induction n rule: dec_of_nat.induct)
  case (1 n)
  have digit: "n < 10 \<Longrightarrow> of_char (digit_char n) - 48 = n" for n :: nat
  proof -
    have "list_all (\<lambda>n. of_char (digit_char n) - 48 = n) [0..<10]" by code_simp
    then show "n < 10 \<Longrightarrow> of_char (digit_char n) - 48 = n" by (simp add: list_all_iff)
  qed
  show ?case
  proof (cases "n < 10")
    case True
    then show ?thesis by (subst dec_of_nat.simps) (simp add: dec_value_def digit)
  next
    case False
    with 1 show ?thesis by (subst dec_of_nat.simps) (simp add: dec_value_snoc digit)
  qed
qed

lemma dec_of_nat_not_null: "dec_of_nat n \<noteq> []" "dec_of_nat n \<noteq> ''null''" "hd (dec_of_nat n) \<noteq> CHR ''-''"
  using dec_of_nat_digits [of n] dec_of_nat_Cons [of n] by (auto simp: is_digit_def)

lemma set_uint_encode: "int n < 2 ^ 64 \<Longrightarrow> set_uint f (dec_of_nat n) x = Some (f n x)"
  by (simp add: set_uint_def parse_uint_def dec_of_nat_not_null dec_of_nat_digits dec_value_of_nat)

lemma set_int_encode:
  assumes "- (2 ^ 63) \<le> i" "i < 2 ^ 63"
  shows "set_int f (dec_of_int i) x = Some (f i x)"
proof -
  have "parse_int (dec_of_int i) = Some i"
    using assms
    by (cases "i < 0")
      (simp_all add: parse_int_def dec_of_int_def Let_def dec_of_nat_not_null dec_of_nat_digits dec_value_of_nat)
  moreover have "dec_of_int i \<noteq> ''null''" by (simp add: dec_of_int_def dec_of_nat_not_null)
  ultimately show ?thesis by (simp add: set_int_def)
qed

text \<open>A response as its tags encode it.\<close>

definition opt_uint :: "string \<Rightarrow> nat \<Rightarrow> (string \<times> json) list" where
  "opt_uint name v = (if v = 0 then [] else [(name, JInt (int v))])"

definition response_members :: "evaluationResponse \<Rightarrow> (string \<times> json) list" where
  "response_members r =
     [(''decision'', JString (r_decision r)), (''status'', JInt (r_status r)),
      (''request_id'', JString (r_requestID r)), (''public_reason'', JString (r_publicReason r)),
      (''cache_ttl_ms'', JInt (r_cacheTTLMS r))]
     @ opt_string ''resource_id'' (r_resourceID r) @ opt_string ''site_id'' (r_siteID r)
     @ opt_string ''challenge_url'' (r_challengeURL r) @ opt_string ''challenge_token'' (r_challengeToken r)
     @ opt_bool ''challenge_auto_start'' (r_challengeAutoStart r) @ opt_bool ''cacheable'' (r_cacheable r)
     @ opt_string ''cache_key'' (r_cacheKey r) @ opt_string ''cache_key_scope'' (r_cacheKeyScope r)
     @ opt_string ''decision_scope'' (r_decisionScope r) @ opt_uint ''policy_revision'' (r_policyRevision r)
     @ opt_int ''retry_after_seconds'' (r_retryAfterSeconds r)"

definition marshalResponse :: "evaluationResponse \<Rightarrow> string" where
  "marshalResponse r = encode (JObject (response_members r))"

definition int64 :: "int \<Rightarrow> bool" where
  "int64 i \<longleftrightarrow> - (2 ^ 63) \<le> i \<and> i < 2 ^ 63"

text \<open>Filling from members, each given or left out because it is empty.\<close>

abbreviation texts :: "(string \<times> json) list \<Rightarrow> (string \<times> string) list" where
  "texts ms \<equiv> map (\<lambda>m. (fst m, encode (snd m))) ms"

abbreviation entry :: "'a field list \<Rightarrow> string \<Rightarrow> (string \<Rightarrow> 'a \<Rightarrow> 'a option) \<Rightarrow> bool" where
  "entry table name put \<equiv> find (\<lambda>f. equal_fold (fst f) name) table = Some (name, put)"

lemma fill_string:
  "entry table name (set_string f) \<Longrightarrow> valid_utf8 v \<Longrightarrow>
     fill_members table ((name, quote v) # ms) x = fill_members table ms (f v x)"
  by (simp add: set_string_quote)

lemma fill_int:
  "entry table name (set_int f) \<Longrightarrow> int64 v \<Longrightarrow>
     fill_members table ((name, dec_of_int v) # ms) x = fill_members table ms (f v x)"
  by (simp add: set_int_encode int64_def)

lemma fill_opt_string:
  "entry table name (set_string f) \<Longrightarrow> valid_utf8 v \<Longrightarrow> f [] x = x \<Longrightarrow>
     fill_members table (texts (opt_string name v) @ ms) x = fill_members table ms (f v x)"
  by (simp add: opt_string_def set_string_quote)

lemma fill_opt_bool:
  "entry table name (set_bool f) \<Longrightarrow> f False x = x \<Longrightarrow>
     fill_members table (texts (opt_bool name v) @ ms) x = fill_members table ms (f v x)"
  by (cases v) (simp_all add: opt_bool_def set_bool_def)

lemma fill_opt_int:
  "entry table name (set_int f) \<Longrightarrow> int64 v \<Longrightarrow> f 0 x = x \<Longrightarrow>
     fill_members table (texts (opt_int name v) @ ms) x = fill_members table ms (f v x)"
  by (simp add: opt_int_def set_int_encode int64_def)

lemma fill_opt_uint:
  "entry table name (set_uint f) \<Longrightarrow> int v < 2 ^ 64 \<Longrightarrow> f 0 x = x \<Longrightarrow>
     fill_members table (texts (opt_uint name v) @ ms) x = fill_members table ms (f v x)"
  by (simp add: opt_uint_def dec_of_int_def set_uint_encode)

lemmas fill_simps = fill_string fill_int fill_opt_string fill_opt_bool fill_opt_int fill_opt_uint

lemma response_names:
  "list_all field_name (map fst responseFields)"
  "list_all field_name (map fst (response_members r))"
proof -
  have n: "list_all field_name [''decision'', ''status'', ''request_id'', ''public_reason'', ''cache_ttl_ms'',
      ''resource_id'', ''site_id'', ''challenge_url'', ''challenge_token'', ''challenge_auto_start'',
      ''cacheable'', ''cache_key'', ''cache_key_scope'', ''decision_scope'', ''policy_revision'',
      ''retry_after_seconds'']" by code_simp
  then show "list_all field_name (map fst responseFields)" by (simp add: responseFields_def)
  from n show "list_all field_name (map fst (response_members r))"
    by (simp add: response_members_def opt_string_def opt_bool_def opt_int_def opt_uint_def)
qed

text \<open>Looking a name up in a table of field names is comparing strings.\<close>

lemma find_entry:
  assumes "list_all field_name (map fst table)" "field_name name"
    and "find (\<lambda>f. fst f = name) table = Some (name, put)"
  shows "entry table name put"
proof -
  have "find (\<lambda>f. equal_fold (fst f) name) table = find (\<lambda>f. fst f = name) table"
    using assms(1) by (intro find_cong) (auto simp: list_all_iff equal_fold_names assms(2))
  with assms(3) show ?thesis by simp
qed

lemma response_entry:
  "field_name name \<Longrightarrow> find (\<lambda>f. fst f = name) responseFields = Some (name, put) \<Longrightarrow>
     entry responseFields name put"
  by (rule find_entry [OF response_names(1)])

lemma response_entries:
  "entry responseFields ''decision'' (set_string (\<lambda>v r. r\<lparr>r_decision := v\<rparr>))"
  "entry responseFields ''status'' (set_int (\<lambda>v r. r\<lparr>r_status := v\<rparr>))"
  "entry responseFields ''request_id'' (set_string (\<lambda>v r. r\<lparr>r_requestID := v\<rparr>))"
  "entry responseFields ''public_reason'' (set_string (\<lambda>v r. r\<lparr>r_publicReason := v\<rparr>))"
  "entry responseFields ''cache_ttl_ms'' (set_int (\<lambda>v r. r\<lparr>r_cacheTTLMS := v\<rparr>))"
  "entry responseFields ''resource_id'' (set_string (\<lambda>v r. r\<lparr>r_resourceID := v\<rparr>))"
  "entry responseFields ''site_id'' (set_string (\<lambda>v r. r\<lparr>r_siteID := v\<rparr>))"
  "entry responseFields ''challenge_url'' (set_string (\<lambda>v r. r\<lparr>r_challengeURL := v\<rparr>))"
  "entry responseFields ''challenge_token'' (set_string (\<lambda>v r. r\<lparr>r_challengeToken := v\<rparr>))"
  "entry responseFields ''challenge_auto_start'' (set_bool (\<lambda>v r. r\<lparr>r_challengeAutoStart := v\<rparr>))"
  "entry responseFields ''cacheable'' (set_bool (\<lambda>v r. r\<lparr>r_cacheable := v\<rparr>))"
  "entry responseFields ''cache_key'' (set_string (\<lambda>v r. r\<lparr>r_cacheKey := v\<rparr>))"
  "entry responseFields ''cache_key_scope'' (set_string (\<lambda>v r. r\<lparr>r_cacheKeyScope := v\<rparr>))"
  "entry responseFields ''decision_scope'' (set_string (\<lambda>v r. r\<lparr>r_decisionScope := v\<rparr>))"
  "entry responseFields ''policy_revision'' (set_uint (\<lambda>v r. r\<lparr>r_policyRevision := v\<rparr>))"
  "entry responseFields ''retry_after_seconds'' (set_int (\<lambda>v r. r\<lparr>r_retryAfterSeconds := v\<rparr>))"
proof -
  have "list_all field_name [''decision'', ''status'', ''request_id'', ''public_reason'',
      ''cache_ttl_ms'', ''resource_id'', ''site_id'', ''challenge_url'', ''challenge_token'', ''challenge_auto_start'',
      ''cacheable'', ''cache_key'', ''cache_key_scope'',
      ''decision_scope'', ''policy_revision'', ''retry_after_seconds'']" by code_simp
  then have "field_name ''decision''" "field_name ''status''" "field_name ''request_id''" "field_name ''public_reason''" 
    "field_name ''cache_ttl_ms''" "field_name ''resource_id''" "field_name ''site_id''" 
    "field_name ''challenge_url''" "field_name ''challenge_token''" "field_name ''challenge_auto_start''" "field_name ''cacheable''" 
    "field_name ''cache_key''" "field_name ''cache_key_scope''" "field_name ''decision_scope''" 
    "field_name ''policy_revision''" "field_name ''retry_after_seconds''"
    by simp_all
  note n = this
  show "entry responseFields ''decision'' (set_string (\<lambda>v r. r\<lparr>r_decision := v\<rparr>))"
    "entry responseFields ''status'' (set_int (\<lambda>v r. r\<lparr>r_status := v\<rparr>))"
    "entry responseFields ''request_id'' (set_string (\<lambda>v r. r\<lparr>r_requestID := v\<rparr>))"
    "entry responseFields ''public_reason'' (set_string (\<lambda>v r. r\<lparr>r_publicReason := v\<rparr>))"
    "entry responseFields ''cache_ttl_ms'' (set_int (\<lambda>v r. r\<lparr>r_cacheTTLMS := v\<rparr>))"
    "entry responseFields ''resource_id'' (set_string (\<lambda>v r. r\<lparr>r_resourceID := v\<rparr>))"
    "entry responseFields ''site_id'' (set_string (\<lambda>v r. r\<lparr>r_siteID := v\<rparr>))"
    "entry responseFields ''challenge_url'' (set_string (\<lambda>v r. r\<lparr>r_challengeURL := v\<rparr>))"
    "entry responseFields ''challenge_token'' (set_string (\<lambda>v r. r\<lparr>r_challengeToken := v\<rparr>))"
    "entry responseFields ''challenge_auto_start'' (set_bool (\<lambda>v r. r\<lparr>r_challengeAutoStart := v\<rparr>))"
    "entry responseFields ''cacheable'' (set_bool (\<lambda>v r. r\<lparr>r_cacheable := v\<rparr>))"
    "entry responseFields ''cache_key'' (set_string (\<lambda>v r. r\<lparr>r_cacheKey := v\<rparr>))"
    "entry responseFields ''cache_key_scope'' (set_string (\<lambda>v r. r\<lparr>r_cacheKeyScope := v\<rparr>))"
    "entry responseFields ''decision_scope'' (set_string (\<lambda>v r. r\<lparr>r_decisionScope := v\<rparr>))"
    "entry responseFields ''policy_revision'' (set_uint (\<lambda>v r. r\<lparr>r_policyRevision := v\<rparr>))"
    "entry responseFields ''retry_after_seconds'' (set_int (\<lambda>v r. r\<lparr>r_retryAfterSeconds := v\<rparr>))"
    by (rule response_entry, rule n, simp add: responseFields_def)+
qed

lemma response_json_ok: "json_ok 1 (JObject (response_members r))"
  by (auto simp: response_members_def opt_string_def opt_bool_def opt_int_def opt_uint_def)

text \<open>Responses whose strings are UTF-8 and whose numbers fit into their types.\<close>

definition encodable :: "evaluationResponse \<Rightarrow> bool" where
  "encodable r \<longleftrightarrow>
     list_all valid_utf8 [r_decision r, r_requestID r, r_publicReason r, r_resourceID r, r_siteID r,
       r_challengeURL r, r_challengeToken r, r_cacheKey r, r_cacheKeyScope r, r_decisionScope r]
     \<and> list_all int64 [r_status r, r_cacheTTLMS r, r_retryAfterSeconds r]
     \<and> int (r_policyRevision r) < 2 ^ 64"

lemma response_filled:
  assumes "encodable r"
  shows "fill_members responseFields (texts (response_members r)) emptyResponse = Some r"
proof -
  have last: "fill_members responseFields (texts (opt_int ''retry_after_seconds'' v)) x
      = Some (x\<lparr>r_retryAfterSeconds := v\<rparr>)" if "int64 v" "r_retryAfterSeconds x = 0" for v x
    using fill_opt_int [OF response_entries(16) that(1), of x "[]"] that(2) by simp
  show ?thesis
    using assms unfolding response_members_def map_append encodable_def
    by (simp del: fill_members.simps add: fill_simps response_entries last emptyResponse_def)
qed

lemma response_received:
  assumes "encodable r"
  shows "scan_value (marshalResponse r @ rest) = ValueEnds (length (marshalResponse r))"
    "unmarshalResponse (marshalResponse r) = Some r"
proof -
  have d: "1 \<le> maxNestingDepth" by (simp add: maxNestingDepth_def)
  show "scan_value (marshalResponse r @ rest) = ValueEnds (length (marshalResponse r))"
    unfolding marshalResponse_def by (rule scan_value_object [OF response_json_ok d])
  have "skip_space (marshalResponse r) = marshalResponse r" "marshalResponse r \<noteq> []"
    "hd (marshalResponse r) = CHR ''{''"
    by (simp_all add: marshalResponse_def json_space_def)
  moreover have "members (tl (marshalResponse r)) = texts (response_members r)"
    unfolding marshalResponse_def by (rule object_members [OF response_json_ok d response_names(2)])
  ultimately show "unmarshalResponse (marshalResponse r) = Some r"
    using response_filled [OF assms] by (simp add: unmarshalResponse_def fill_struct_def)
qed

section \<open>Types of decoded values\<close>

text \<open>A field that keeps a property of the struct, whatever text it is filled from.\<close>

definition keeps_typed :: "('a \<Rightarrow> bool) \<Rightarrow> 'a field \<Rightarrow> bool" where
  "keeps_typed P f \<longleftrightarrow> (\<forall>raw x x'. P x \<longrightarrow> snd f raw x = Some x' \<longrightarrow> P x')"

lemma string_field:
  assumes "\<And>v x. valid_utf8 v \<Longrightarrow> P x \<Longrightarrow> P (f v x)"
  shows "keeps_typed P (name, set_string f)"
  unfolding keeps_typed_def set_string_def using assms [OF valid_unquote]
  by (auto split: if_splits)

lemma int_field:
  assumes "\<And>v x. int64 v \<Longrightarrow> P x \<Longrightarrow> P (f v x)"
  shows "keeps_typed P (name, set_int f)"
proof -
  have "parse_int raw = Some v \<Longrightarrow> int64 v" for raw v
    by (auto simp: parse_int_def int64_def Let_def split: if_splits)
  with assms show ?thesis by (auto simp: keeps_typed_def set_int_def split: if_splits option.splits)
qed

lemma uint_field:
  assumes "\<And>v x. int v < 2 ^ 64 \<Longrightarrow> P x \<Longrightarrow> P (f v x)"
  shows "keeps_typed P (name, set_uint f)"
proof -
  have "parse_uint raw = Some v \<Longrightarrow> int v < 2 ^ 64" for raw v
    by (auto simp: parse_uint_def split: if_splits)
  with assms show ?thesis by (auto simp: keeps_typed_def set_uint_def split: if_splits option.splits)
qed

lemma bool_field: "(\<And>v x. P x \<Longrightarrow> P (f v x)) \<Longrightarrow> keeps_typed P (name, set_bool f)"
  by (auto simp: keeps_typed_def set_bool_def split: if_splits)

lemma fill_members_inv:
  assumes "list_all (keeps_typed P) table"
  shows "fill_members table ms x = Some y \<Longrightarrow> P x \<Longrightarrow> P y"
proof (induction ms arbitrary: x)
  case (Cons m ms)
  obtain name raw where m: "m = (name, raw)" by (cases m)
  from Cons.prems(1) obtain f x' where f: "find (\<lambda>f. equal_fold (fst f) name) table = Some f"
      "snd f raw x = Some x'" "fill_members table ms x' = Some y"
    unfolding m by (auto split: option.splits)
  from f(1) have "f \<in> set table" by (auto simp: find_Some_iff)
  with assms f(2) Cons.prems(2) have "P x'" by (auto simp: list_all_iff keeps_typed_def)
  with Cons.IH f(3) show ?case by blast
qed simp

lemma fill_struct_inv:
  "list_all (keeps_typed P) table \<Longrightarrow> fill_struct table x text0 = Some y \<Longrightarrow> P x \<Longrightarrow> P y"
  using fill_members_inv [of P table] by (auto simp: fill_struct_def Let_def split: if_splits)

lemma responseFields_typed: "list_all (keeps_typed encodable) responseFields"
  unfolding responseFields_def list.pred_inject
  by (intro conjI TrueI string_field int_field uint_field bool_field) (simp_all add: encodable_def)

lemma decoded_response: "unmarshalResponse text0 = Some r \<Longrightarrow> encodable r"
  using fill_struct_inv [OF responseFields_typed]
  by (simp add: unmarshalResponse_def encodable_def emptyResponse_def int64_def)

section \<open>Properties\<close>

lemma encoded_next_value:
  "json_ok d (JObject ms) \<Longrightarrow> d \<le> maxNestingDepth \<Longrightarrow>
     next_value (encode (JObject ms) @ rest) ending = NextValue (encode (JObject ms)) rest"
  using scan_value_object [of d ms rest] by (simp add: next_value_def del: encode.simps)

text \<open>
  A response survives the wire. The strict decoder reads a response that is encoded as its field
  tags say, with fields left out where they may be, as exactly that response, and takes exactly its
  bytes off the stream, whatever follows them and however the stream ends.
\<close>

lemma response_roundtrip:
  assumes "encodable r"
  shows "next_value (marshalResponse r @ rest) ending = NextValue (marshalResponse r) rest
     \<and> unmarshalResponse (marshalResponse r) = Some r"
  using response_received(2) [OF assms] encoded_next_value [OF response_json_ok, of r rest ending]
  by (simp add: marshalResponse_def maxNestingDepth_def del: encode.simps)

definition exampleObserve :: evaluationResponse where
  "exampleObserve = emptyResponse\<lparr>r_decision := ''observe'', r_status := 200,
     r_requestID := [CHR 0x22, CHR 0xC3, CHR 0xA9, CHR 0x0A, CHR ''<''], r_publicReason := ''ok''\<rparr>"

lemma response_roundtrip_witness: "unmarshalResponse (marshalResponse exampleObserve) = Some exampleObserve"
proof -
  have "encodable exampleObserve" by code_simp
  from response_roundtrip [OF this] show ?thesis by blast
qed

text \<open>
  C15. The type of decoded responses. What the strict decoder can make of any bytes are exactly the
  values of the Go struct that hold text: strings of valid UTF-8, 64-bit signed numbers, a
  64-bit unsigned revision. So no accepted number is out of the range of its field, and no
  string, the request ID included, holds bytes that are no UTF-8.
\<close>

theorem decoded_responses_are_typed: "(\<exists>body. unmarshalResponse body = Some r) \<longleftrightarrow> encodable r"
  using decoded_response response_received(2) by blast

text \<open>The string map a receiver reads under a name.\<close>

definition read_map :: "string \<Rightarrow> string \<Rightarrow> (string \<times> string) list option" where
  "read_map name body =
     map_option (\<lambda>raw. map (\<lambda>(k, v). (k, unquote v)) (members (tl raw))) (map_of (members (tl body)) name)"

lemma subseq_distinct: "subseq xs ys \<Longrightarrow> distinct ys \<Longrightarrow> distinct xs"
  by (induction rule: list_emb.induct) (auto dest: list_emb_set)

lemma opt_names:
  "subseq (map fst (opt_string name v)) [name]" "subseq (map fst (opt_strings name vs)) [name]"
  "subseq (map fst (opt_bool name b)) [name]" "subseq (map fst (opt_bytes name v)) [name]"
  by (simp_all add: opt_string_def opt_strings_def opt_bool_def opt_bytes_def)

lemma evaluation_distinct: "distinct (map fst (evaluation_members q))"
proof (rule subseq_distinct)
  let ?names = "[''request_id'', ''client_ip''] @ [''client_ip_source'']
      @ [''method'', ''scheme'', ''host'', ''path'', ''query'', ''headers'', ''cookies'']
      @ [''header_mode''] @ [''cookie_mode''] @ [''allowlisted_headers''] @ [''allowlisted_cookies'']
      @ [''headers_truncated''] @ [''cookies_truncated''] @ [''protocol_type''] @ [''http_version'']
      @ [''body''] @ [''body_truncated''] @ [''resource_hint'']"
  show "subseq (map fst (evaluation_members q)) ?names"
    unfolding evaluation_members_def map_append list.map fst_conv
    by (intro list_emb_append_mono opt_names subseq_order.order_refl)
  show "distinct ?names" by code_simp
qed

lemma evaluation_member:
  assumes "marshalEvaluation q = Some body" "(name, v) \<in> set (evaluation_members q)"
  shows "map_of (members (tl body)) name = Some (encode v)"
proof -
  have "distinct (map fst (texts (evaluation_members q)))"
    using evaluation_distinct by (simp add: comp_def)
  moreover have "(name, encode v) \<in> set (texts (evaluation_members q))" using assms(2) by force
  ultimately show ?thesis unfolding evaluation_read(2) [OF assms(1)] by (rule map_of_is_SomeI)
qed

lemma json_map_members:
  "map (\<lambda>(k, v). (k, unquote v)) (members (tl (encode (json_map JString m))))
   = map (\<lambda>(k, v). (to_valid_utf8 k, to_valid_utf8 v)) (sort_key fst m)"
proof -
  let ?ms = "map (\<lambda>(k, v). (k, JString v)) (sort_key fst m)"
  have "\<forall>m \<in> set ?ms. value_text 0 (encode (snd m))" by (auto simp: value_text_quote)
  from members_encoded [OF this, of "[]"]
  have "members (encode_members ?ms @ ''}'') = map (\<lambda>m. (unquote (quote (fst m)), encode (snd m))) ?ms" by simp
  then show ?thesis
    by (simp add: json_map_def comp_def case_prod_unfold unquote_quote)
qed

text \<open>
  C14. No input changes the message. Whatever bytes a request's fields hold, quotes and bytes that are
  no UTF-8 included, the body the Agent is sent is one JSON object, with nothing after it, whose
  members are those of the struct in their order; each string reads as the field's value with
  invalid bytes replaced, and the headers and cookies as the forwarded ones, sorted by name.
\<close>

theorem no_input_changes_the_message:
  assumes "marshalEvaluation q = Some body"
  shows "next_value (body @ rest) ending = NextValue body rest
     \<and> map fst (members (tl body)) = map fst (evaluation_members q)
     \<and> (\<forall>name v. (name, JString v) \<in> set (evaluation_members q)
          \<longrightarrow> read_string name body = Some (to_valid_utf8 v))
     \<and> read_map ''headers'' body
         = Some (map (\<lambda>(k, v). (to_valid_utf8 k, to_valid_utf8 v)) (sort_key fst (q_headers q)))
     \<and> read_map ''cookies'' body
         = Some (map (\<lambda>(k, v). (to_valid_utf8 k, to_valid_utf8 v)) (sort_key fst (q_cookies q)))"
proof (intro conjI allI impI)
  show "next_value (body @ rest) ending = NextValue body rest"
    using assms encoded_next_value [OF evaluation_json_ok, of q rest ending]
    by (simp add: marshalEvaluation_def maxNestingDepth_def del: encode.simps)
  show "map fst (members (tl body)) = map fst (evaluation_members q)"
    by (simp add: evaluation_read(2) [OF assms])
  show "read_string name body = Some (to_valid_utf8 v)"
    if "(name, JString v) \<in> set (evaluation_members q)" for name v
    by (simp add: read_string_def evaluation_member [OF assms that] unquote_quote)
  have m: "(''headers'', json_map JString (q_headers q)) \<in> set (evaluation_members q)"
    "(''cookies'', json_map JString (q_cookies q)) \<in> set (evaluation_members q)"
    by (simp_all add: evaluation_members_def)
  show "read_map ''headers'' body
      = Some (map (\<lambda>(k, v). (to_valid_utf8 k, to_valid_utf8 v)) (sort_key fst (q_headers q)))"
    "read_map ''cookies'' body
      = Some (map (\<lambda>(k, v). (to_valid_utf8 k, to_valid_utf8 v)) (sort_key fst (q_cookies q)))"
    unfolding read_map_def evaluation_member [OF assms m(1)] evaluation_member [OF assms m(2)]
    by (simp_all only: option.map json_map_members)
qed

definition exampleMessage :: evaluationRequest where
  "exampleMessage = \<lparr>q_requestID = [CHR 0x22, CHR '','', CHR 0xFF], q_clientIP = ''192.0.2.1'',
     q_clientIPSource = ''direct'', q_method = ''GET'', q_scheme = ''http'', q_host = ''h'', q_path = ''/'',
     q_query = [], q_headers = [(''B'', ''2''), (''A'', ''1'')], q_cookies = [], q_headerMode = [],
     q_cookieMode = [], q_allowlistedHeaders = [], q_allowlistedCookies = [],
     q_headersTruncated = False, q_cookiesTruncated = False, q_protocolType = ''http'',
     q_httpVersion = [], q_body = [], q_bodyTruncated = False, q_resourceHint = []\<rparr>"

theorem no_input_changes_the_message_witness:
  "read_map ''headers'' (the (marshalEvaluation exampleMessage)) = Some [(''A'', ''1''), (''B'', ''2'')]
   \<and> read_string ''request_id'' (the (marshalEvaluation exampleMessage))
     = Some (CHR 0x22 # '','' @ replacement)"
proof -
  have m: "marshalEvaluation exampleMessage = Some (the (marshalEvaluation exampleMessage))"
    by (simp add: marshalEvaluation_def)
  note t = no_input_changes_the_message [OF m, THEN conjunct2, THEN conjunct2]
  have "read_string ''request_id'' (the (marshalEvaluation exampleMessage))
      = Some (to_valid_utf8 (q_requestID exampleMessage))"
    using t by (simp add: evaluation_members_def)
  moreover have "to_valid_utf8 (q_requestID exampleMessage) = CHR 0x22 # '','' @ replacement" by code_simp
  moreover have "map (\<lambda>(k, v). (to_valid_utf8 k, to_valid_utf8 v)) (sort_key fst (q_headers exampleMessage))
      = [(''A'', ''1''), (''B'', ''2'')]" by code_simp
  ultimately show ?thesis using t by simp
qed

end
