(* ===== verification/Agent.thy ===== *)
theory Agent
  imports Validation Cache GoURL Wire
begin

text \<open>
  The client of the local Agent (\<open>agent.go\<close>): the request it sends, how it classifies what comes
  back, the checks on an evaluation response, the two challenge calls, and the dialer that only
  connects to local addresses.

  The network is the environment: \<open>client.Do\<close> is a function from the outgoing request to an error or
  a reply. A reply says what the program reads of it: the status, the content type, the body as a
  reader, and how far the reads had run ahead when the decoder had its first value.
\<close>

section \<open>Values\<close>

definition lowerHex :: "string \<Rightarrow> bool" where
  "lowerHex value =
     list_all (\<lambda>c. \<not> ((c < CHR ''0'' \<or> CHR ''9'' < c) \<and> (c < CHR ''a'' \<or> CHR ''f'' < c))) value"

definition validPublicReason :: "string \<Rightarrow> bool" where
  "validPublicReason value =
     (if length value < 1 \<or> 64 < length value then False
      else list_all (\<lambda>c. \<not> ((c < CHR ''a'' \<or> CHR ''z'' < c) \<and> (c < CHR ''0'' \<or> CHR ''9'' < c)
             \<and> c \<noteq> CHR ''_'')) value)"

definition maximumAgentResponseBytes :: int where "maximumAgentResponseBytes = 32768"
definition agentFeaturesHeader :: string where "agentFeaturesHeader = ''X-Sokol-Features''"
definition agentFeatures :: string where "agentFeatures = ''retry-after''"
definition maximumRetryAfter :: int where "maximumRetryAfter = 86400"

section \<open>The evaluation response\<close>

text \<open>The error message, or \<open>None\<close> where the response is valid.\<close>

definition validateEvaluationResponse :: "string \<Rightarrow> evaluationResponse \<Rightarrow> string option" where
  "validateEvaluationResponse requestID response =
     (let d = r_decision response;
          expectedStatus =
            (if d = ''allow'' \<or> d = ''observe'' then 200
             else if d = ''block'' \<or> d = ''challenge'' then 403
             else if d = ''rate_limit'' then 429 else (0 :: int))
      in
      if r_requestID response \<noteq> requestID
      then Some ''local agent response request ID mismatch''
      else if d = ''error'' \<and> (r_status response < 400 \<or> 599 < r_status response)
      then Some ''local agent error status is invalid''
      else if d \<notin> {''allow'', ''observe'', ''block'', ''challenge'', ''rate_limit'', ''error''}
      then Some ''local agent decision is invalid''
      else if expectedStatus \<noteq> 0 \<and> r_status response \<noteq> expectedStatus
      then Some ''local agent status does not match decision''
      else if \<not> validPublicReason (r_publicReason response)
           \<or> 128 < length (r_resourceID response) \<or> 128 < length (r_siteID response)
      then Some ''local agent public fields are invalid''
      else if r_retryAfterSeconds response < 0 \<or> maximumRetryAfter < r_retryAfterSeconds response
           \<or> (0 < r_retryAfterSeconds response \<and> d \<noteq> ''rate_limit'' \<and> d \<noteq> ''block'')
      then Some ''local agent retry-after is invalid''
      else if r_cacheTTLMS response < 0
           \<or> maximumCacheTTL div millisecond < r_cacheTTLMS response
      then Some ''local agent cache TTL is invalid''
      else if r_challengeURL response \<noteq> []
           \<and> (\<not> has_prefix (r_challengeURL response) ''/'' \<or> has_prefix (r_challengeURL response) ''//''
              \<or> 2048 < int (length (r_challengeURL response))
              \<or> contains_any (r_challengeURL response) [CHR 0x0D, CHR 0x0A])
      then Some ''local agent challenge URL is invalid''
      else if 4096 < int (length (r_challengeToken response))
           \<or> contains_any (r_challengeToken response) [CHR 0x0D, CHR 0x0A]
      then Some ''local agent challenge token is invalid''
      else if d = ''challenge''
           \<and> (r_challengeURL response = [] \<or> r_challengeToken response = []
              \<or> r_resourceID response = [] \<or> r_siteID response = [])
      then Some ''local agent challenge response is incomplete''
      else if r_cacheable response then
        (if d \<noteq> ''block'' \<and> d \<noteq> ''rate_limit''
         then Some ''only local deny decisions may be cached''
         else if r_cacheTTLMS response \<le> 0 \<or> length (r_cacheKey response) \<noteq> 64
              \<or> r_cacheKeyScope response \<noteq> ''request''
              \<or> length (r_decisionScope response) < 1 \<or> 256 < length (r_decisionScope response)
              \<or> r_policyRevision response = 0
              \<or> \<not> lowerHex (r_cacheKey response)
              \<or> contains_any (r_decisionScope response) [CHR 0x0D, CHR 0x0A, CHR 0x00]
         then Some ''local agent cache authorization is invalid''
         else None)
      else if r_cacheKey response \<noteq> [] \<or> r_cacheKeyScope response \<noteq> []
           \<or> r_decisionScope response \<noteq> [] \<or> r_policyRevision response \<noteq> 0
      then Some ''non-cacheable local response contains cache metadata''
      else None)"

section \<open>Calls\<close>

record agentClient =
  agc_evaluateURL :: string
  agc_challengeCreateURL :: string
  agc_challengeVerifyURL :: string
  agc_token :: string
  agc_timeout :: duration
  agc_challengeTimeout :: duration

text \<open>The request the client sends: URL, headers, body, and the time it may take.\<close>

record agentHTTPRequest =
  ar_url :: string
  ar_headers :: "(string \<times> string) list"
  ar_body :: string
  ar_timeout :: duration

record agentReply =
  rp_status :: int
  rp_contentType :: string
  rp_body :: bodyReader
  rp_ahead :: nat

type_synonym agentNetwork = "agentHTTPRequest \<Rightarrow> string + agentReply"

text \<open>\<open>io.LimitedReader\<close>: at most \<open>n\<close> bytes, and the end of the stream once it gave them all.\<close>

definition limited_reader :: "nat \<Rightarrow> bodyReader \<Rightarrow> string \<times> streamEnd" where
  "limited_reader n body =
     (take n (b_bytes body),
      if length (b_bytes body) < n \<and> b_fails body then StreamFails else EndOfStream)"

definition reply_stream :: "agentReply \<Rightarrow> string \<times> streamEnd" where
  "reply_stream r = limited_reader (nat (maximumAgentResponseBytes + 1)) (rp_body r)"

text \<open>The first \<open>Decode\<close>, which refuses unknown fields.\<close>

definition reply_value :: "(string \<Rightarrow> 'o option) \<Rightarrow> agentReply \<Rightarrow> 'o option" where
  "reply_value unmarshal r =
     (case reply_stream r of (bytes, ending) \<Rightarrow>
        (case next_value bytes ending of NextValue text0 rest \<Rightarrow> unmarshal text0 | _ \<Rightarrow> None))"

text \<open>
  What it had read of the stream by then: the value, the byte that ended a literal, and what the
  reads ran ahead; and whether the second \<open>Decode\<close> returns \<open>io.EOF\<close>.
\<close>

definition reply_read :: "agentReply \<Rightarrow> int" where
  "reply_read r =
     (case reply_stream r of (bytes, ending) \<Rightarrow>
        (case next_value bytes ending of
           NextValue text0 rest \<Rightarrow>
             int (max (length text0 + (if rest \<noteq> [] \<and> last text0 \<notin> {CHR ''}'', CHR '']''} then 1 else 0))
                    (min (rp_ahead r) (length bytes)))
         | _ \<Rightarrow> int (length bytes)))"

definition reply_atEOF :: "agentReply \<Rightarrow> bool" where
  "reply_atEOF r =
     (case reply_stream r of (bytes, ending) \<Rightarrow>
        (case next_value bytes ending of NextValue text0 rest \<Rightarrow> at_eof rest ending | _ \<Rightarrow> False))"

definition malformed :: "string \<Rightarrow> agentError" where
  "malformed message = \<lparr>ae_kind = AgentMalformed, ae_err = message\<rparr>"

definition unavailable :: "string \<Rightarrow> agentError" where
  "unavailable message = \<lparr>ae_kind = AgentUnavailable, ae_err = message\<rparr>"

text \<open>\<open>http.NewRequestWithContext\<close> with method \<open>POST\<close> fails exactly where the URL does not parse.\<close>

definition evaluate ::
    "agentClient \<Rightarrow> agentNetwork \<Rightarrow> evaluationRequest \<Rightarrow> agentError + evaluationResponse" where
  "evaluate c network input =
     (case marshalEvaluation input of None \<Rightarrow> Inl (malformed ''encode local evaluation'')
      | Some encoded \<Rightarrow>
      if url_parse (agc_evaluateURL c) = None then Inl (malformed ''construct local evaluation'')
      else case network \<lparr>ar_url = agc_evaluateURL c,
               ar_headers = [(''Authorization'', ''Bearer '' @ agc_token c),
                 (''Content-Type'', ''application/json''), (''Accept'', ''application/json''),
                 (agentFeaturesHeader, agentFeatures)],
               ar_body = encoded, ar_timeout = agc_timeout c\<rparr> of
        Inl e \<Rightarrow> Inl (unavailable (''local agent request: '' @ e))
      | Inr response \<Rightarrow>
          if rp_status response \<noteq> 200
          then Inl (unavailable (''local agent status '' @ dec_of_int (rp_status response)))
          else if \<not> has_prefix (to_lower (rp_contentType response)) ''application/json''
          then Inl (malformed ''local agent returned a non-JSON response'')
          else case reply_value unmarshalResponse response of
            None \<Rightarrow> Inl (malformed ''decode local agent response'')
          | Some output \<Rightarrow>
              if maximumAgentResponseBytes + 1 - reply_read response \<le> 0
              then Inl (malformed ''local agent response exceeds limit'')
              else if \<not> reply_atEOF response
              then Inl (malformed ''local agent response has trailing data'')
              else case validateEvaluationResponse (q_requestID input) output of
                Some err \<Rightarrow> Inl (malformed err)
              | None \<Rightarrow> Inr output)"

definition challengeRequest ::
    "agentClient \<Rightarrow> ('i \<Rightarrow> string option) \<Rightarrow> (string \<Rightarrow> 'o option) \<Rightarrow> agentNetwork
       \<Rightarrow> string \<Rightarrow> string \<Rightarrow> 'i \<Rightarrow> agentError + 'o" where
  "challengeRequest c marshal unmarshal network endpoint requestID input =
     (case marshal input of None \<Rightarrow> Inl (malformed ''encode local challenge request'')
      | Some encoded \<Rightarrow>
      if url_parse endpoint = None then Inl (malformed ''construct local challenge request'')
      else case network \<lparr>ar_url = endpoint,
               ar_headers = [(''Authorization'', ''Bearer '' @ agc_token c),
                 (''Content-Type'', ''application/json''), (''Accept'', ''application/json''),
                 (''X-Request-ID'', requestID)],
               ar_body = encoded, ar_timeout = agc_challengeTimeout c\<rparr> of
        Inl e \<Rightarrow> Inl (unavailable (''local challenge request: '' @ e))
      | Inr response \<Rightarrow>
          if rp_status response \<noteq> 200
          then Inl (unavailable (''local challenge status '' @ dec_of_int (rp_status response)))
          else if \<not> has_prefix (to_lower (rp_contentType response)) ''application/json''
          then Inl (malformed ''local challenge returned non-JSON'')
          else case reply_value unmarshal response of
            None \<Rightarrow> Inl (malformed ''decode local challenge response'')
          | Some output \<Rightarrow>
              if maximumAgentResponseBytes + 1 - reply_read response \<le> 0
              then Inl (malformed ''decode local challenge response'')
              else if \<not> reply_atEOF response
              then Inl (malformed ''local challenge response has trailing data'')
              else Inr output)"

definition challengeCreate ::
    "agentClient \<Rightarrow> agentNetwork \<Rightarrow> string \<Rightarrow> challengeCreateRequest \<Rightarrow> agentError + string" where
  "challengeCreate c network requestID input =
     (case challengeRequest c marshalCreate unmarshalRaw network (agc_challengeCreateURL c) requestID input of
        Inl e \<Rightarrow> Inl e
      | Inr output \<Rightarrow>
          if output = [] then Inl (malformed ''local challenge response is empty'') else Inr output)"

definition challengeVerify ::
    "agentClient \<Rightarrow> agentNetwork \<Rightarrow> string \<Rightarrow> challengeVerifyRequest
       \<Rightarrow> agentError + challengeVerifyResponse" where
  "challengeVerify c network requestID input =
     (case challengeRequest c marshalVerify unmarshalVerification network (agc_challengeVerifyURL c) requestID input of
        Inl e \<Rightarrow> Inl e
      | Inr output \<Rightarrow>
          if \<not> validPublicReason (v_publicReason output) \<or> v_cookieMaxAge output < 0
             \<or> 604800 < v_cookieMaxAge output \<or> 4096 < int (length (v_cookieValue output))
          then Inl (malformed ''local challenge verification response is invalid'')
          else if v_verified output
             \<and> (v_cookieName output \<noteq> ''__Host-sokol_trust'' \<or> v_cookieValue output = []
                \<or> v_cookieMaxAge output = 0)
          then Inl (malformed ''local challenge cookie response is invalid'')
          else Inr output)"

section \<open>Dialing\<close>

definition localAgentIP :: "ip \<Rightarrow> bool" where
  "localAgentIP ip = (ip \<noteq> [] \<and> (is_loopback ip \<or> is_private ip \<or> is_link_local_unicast ip))"

definition join_host_port :: "string \<Rightarrow> string \<Rightarrow> string" where
  "join_host_port host port =
     (if contains_char host CHR '':'' then ''['' @ host @ '']:'' @ port else host @ '':'' @ port)"

text \<open>
  Both operations return, beside the connection or the error, the addresses that were dialed, in
  order. \<open>dial\<close> is \<open>dialer.DialContext\<close>, \<open>resolve\<close> the resolver.
\<close>

fun dial_candidates ::
    "(string \<Rightarrow> string + 'c) \<Rightarrow> string \<Rightarrow> ip list \<Rightarrow> string option \<Rightarrow> ip list
       \<Rightarrow> (string + 'c) \<times> ip list" where
  "dial_candidates dial port [] lastError dialed =
     (Inl (case lastError of
             Some e \<Rightarrow> ''connect to local agent: '' @ e
           | None \<Rightarrow> ''local agent DNS name did not resolve to a local address''), dialed)"
| "dial_candidates dial port (candidate # addresses) lastError dialed =
     (if \<not> localAgentIP candidate then dial_candidates dial port addresses lastError dialed
      else case dial (join_host_port (ip_string candidate) port) of
             Inr connection \<Rightarrow> (Inr connection, dialed @ [candidate])
           | Inl e \<Rightarrow> dial_candidates dial port addresses (Some e) (dialed @ [candidate]))"

definition dialLocalAgent ::
    "(string \<Rightarrow> string + 'c) \<Rightarrow> (string \<Rightarrow> string + ip list) \<Rightarrow> string
       \<Rightarrow> (string + 'c) \<times> ip list" where
  "dialLocalAgent dial resolve address =
     (case split_host_port address of
        None \<Rightarrow> (Inl ''local agent dial address is invalid'', [])
      | Some (host, port) \<Rightarrow>
          (case parse_ip (trim_chars host ''[]'') of
             Some ip \<Rightarrow>
               if \<not> localAgentIP ip then (Inl ''local agent resolved to a public address'', [])
               else (dial (join_host_port (ip_string ip) port), [ip])
           | None \<Rightarrow>
               (case resolve host of
                  Inl e \<Rightarrow> (Inl (''resolve local agent: '' @ e), [])
                | Inr addresses \<Rightarrow>
                    dial_candidates dial port
                      (if 16 < length addresses then take 16 addresses else addresses) None [])))"

section \<open>What a call promises\<close>

text \<open>
  A reply the strict decoder accepts as \<open>output\<close>: a JSON content type, one value and nothing after
  it, within the size limit.
\<close>

definition well_formed :: "(string \<Rightarrow> 'o option) \<Rightarrow> agentReply \<Rightarrow> 'o \<Rightarrow> bool" where
  "well_formed unmarshal r output \<longleftrightarrow>
     has_prefix (to_lower (rp_contentType r)) ''application/json''
     \<and> reply_value unmarshal r = Some output \<and> reply_read r \<le> maximumAgentResponseBytes
     \<and> reply_atEOF r"

text \<open>
  The contract of the three calls: a message that cannot be sent is malformed, an Agent that cannot
  be reached or does not answer 200 is unavailable, any other bad answer is malformed, and a
  well-formed answer that passes the call's own checks is returned as it is.
\<close>

locale classified_call =
  fixes call :: "agentNetwork \<Rightarrow> agentError + 'o"
    and ready :: bool
    and request :: agentHTTPRequest
    and unmarshal :: "string \<Rightarrow> 'o option"
    and accepts :: "'o \<Rightarrow> bool"
  assumes unsent: "\<not> ready \<Longrightarrow> \<exists>m. call network = Inl (malformed m)"
    and unreachable: "ready \<Longrightarrow> network request = Inl e \<Longrightarrow> \<exists>m. call network = Inl (unavailable m)"
    and refused: "ready \<Longrightarrow> network request = Inr r \<Longrightarrow> rp_status r \<noteq> 200 \<Longrightarrow>
      \<exists>m. call network = Inl (unavailable m)"
    and answered: "ready \<Longrightarrow> network request = Inr r \<Longrightarrow> rp_status r = 200 \<Longrightarrow>
      well_formed unmarshal r output \<Longrightarrow> accepts output \<Longrightarrow> call network = Inr output"
    and rejected: "ready \<Longrightarrow> network request = Inr r \<Longrightarrow> rp_status r = 200 \<Longrightarrow>
      \<not> (\<exists>output. well_formed unmarshal r output \<and> accepts output) \<Longrightarrow>
      \<exists>m. call network = Inl (malformed m)"
begin

lemma outcome_cases:
  obtains (unready) m where "\<not> ready" "call network = Inl (malformed m)"
  | (down) m where "ready" "call network = Inl (unavailable m)"
      "\<And>r. network request = Inr r \<Longrightarrow> rp_status r \<noteq> 200"
  | (bad) r m where "ready" "network request = Inr r" "rp_status r = 200"
      "\<not> (\<exists>output. well_formed unmarshal r output \<and> accepts output)" "call network = Inl (malformed m)"
  | (good) r out where "ready" "network request = Inr r" "rp_status r = 200"
      "well_formed unmarshal r out" "accepts out" "call network = Inr out"
proof (cases "ready")
  case False
  with unsent show ?thesis by (auto intro: unready)
next
  case True
  show ?thesis
  proof (cases "network request")
    case (Inl e)
    with unreachable [of network, OF True Inl] True show ?thesis by (auto intro: down)
  next
    case (Inr r)
    consider "rp_status r \<noteq> 200" | out where "rp_status r = 200" "well_formed unmarshal r out" "accepts out"
      | "rp_status r = 200" "\<not> (\<exists>output. well_formed unmarshal r output \<and> accepts output)" by blast
    then show ?thesis
    proof cases
      case 1
      with refused [of network, OF True Inr] True Inr show ?thesis by (auto intro: down)
    next
      case 2
      with answered [of network, OF True Inr] True Inr show ?thesis by (auto intro: good)
    next
      case 3
      with rejected [of network, OF True Inr] True Inr show ?thesis by (auto intro: bad)
    qed
  qed
qed

lemma success_iff:
  "call network = Inr output \<longleftrightarrow>
     ready \<and> (\<exists>r. network request = Inr r \<and> rp_status r = 200 \<and> well_formed unmarshal r output
       \<and> accepts output)"
proof (cases rule: outcome_cases [of network])
  case (good r out)
  then show ?thesis by (auto simp: well_formed_def)
qed auto

lemma unavailable_iff:
  "(\<exists>e. call network = Inl e \<and> ae_kind e = AgentUnavailable) \<longleftrightarrow>
     ready \<and> (\<forall>r. network request = Inr r \<longrightarrow> rp_status r \<noteq> 200)"
  by (cases rule: outcome_cases [of network]) (auto simp: unavailable_def malformed_def)

end

definition evaluation_call :: "agentClient \<Rightarrow> string \<Rightarrow> agentHTTPRequest" where
  "evaluation_call c encoded = \<lparr>ar_url = agc_evaluateURL c,
     ar_headers = [(''Authorization'', ''Bearer '' @ agc_token c),
       (''Content-Type'', ''application/json''), (''Accept'', ''application/json''),
       (agentFeaturesHeader, agentFeatures)],
     ar_body = encoded, ar_timeout = agc_timeout c\<rparr>"

definition challenge_call :: "agentClient \<Rightarrow> string \<Rightarrow> string \<Rightarrow> string \<Rightarrow> agentHTTPRequest" where
  "challenge_call c endpoint requestID encoded = \<lparr>ar_url = endpoint,
     ar_headers = [(''Authorization'', ''Bearer '' @ agc_token c),
       (''Content-Type'', ''application/json''), (''Accept'', ''application/json''),
       (''X-Request-ID'', requestID)],
     ar_body = encoded, ar_timeout = agc_challengeTimeout c\<rparr>"

definition verification_ok :: "challengeVerifyResponse \<Rightarrow> bool" where
  "verification_ok v \<longleftrightarrow>
     validPublicReason (v_publicReason v) \<and> 0 \<le> v_cookieMaxAge v \<and> v_cookieMaxAge v \<le> 604800
     \<and> int (length (v_cookieValue v)) \<le> 4096
     \<and> (v_verified v \<longrightarrow> v_cookieName v = defaultTrustCookieName \<and> v_cookieValue v \<noteq> []
          \<and> 0 < v_cookieMaxAge v)"

text \<open>The body of an evaluation.\<close>

definition evaluation_body :: "evaluationRequest \<Rightarrow> string" where
  "evaluation_body q = encode (JObject (evaluation_members q))"

lemma marshalEvaluation_body: "marshalEvaluation q = Some (evaluation_body q)"
  by (simp add: marshalEvaluation_def evaluation_body_def)

lemmas call_defs = well_formed_def maximumAgentResponseBytes_def

interpretation evaluate_call: classified_call
    "\<lambda>network. evaluate c network input" "url_parse (agc_evaluateURL c) \<noteq> None"
    "evaluation_call c (evaluation_body input)" unmarshalResponse
    "\<lambda>output. validateEvaluationResponse (q_requestID input) output = None"
    for c input
  by unfold_locales
    (auto simp: evaluate_def marshalEvaluation_body evaluation_call_def call_defs split: option.split)

interpretation challenge_request: classified_call
    "\<lambda>network. challengeRequest c marshal unmarshal network endpoint requestID input"
    "marshal input \<noteq> None \<and> url_parse endpoint \<noteq> None"
    "challenge_call c endpoint requestID (the (marshal input))" unmarshal "\<lambda>_. True"
    for c marshal unmarshal endpoint requestID input
  by unfold_locales
    (auto simp: challengeRequest_def challenge_call_def call_defs split: option.split)

interpretation create_call: classified_call
    "\<lambda>network. challengeCreate c network requestID input"
    "marshalCreate input \<noteq> None \<and> url_parse (agc_challengeCreateURL c) \<noteq> None"
    "challenge_call c (agc_challengeCreateURL c) requestID (the (marshalCreate input))" unmarshalRaw
    "\<lambda>output. output \<noteq> []"
    for c requestID input
  by unfold_locales
    (auto simp: challengeCreate_def challengeRequest_def challenge_call_def call_defs split: option.split)

interpretation verify_call: classified_call
    "\<lambda>network. challengeVerify c network requestID input"
    "marshalVerify input \<noteq> None \<and> url_parse (agc_challengeVerifyURL c) \<noteq> None"
    "challenge_call c (agc_challengeVerifyURL c) requestID (the (marshalVerify input))"
    unmarshalVerification verification_ok
    for c requestID input
  by unfold_locales
    (auto simp: challengeVerify_def challengeRequest_def challenge_call_def call_defs
      verification_ok_def defaultTrustCookieName_def split: option.split)

section \<open>Lemmas\<close>

lemma evaluate_accepted:
  "evaluate c network input = Inr r \<Longrightarrow> validateEvaluationResponse (q_requestID input) r = None"
  by (auto simp: evaluate_call.success_iff)

text \<open>An evaluation depends on the network only through the one request it sends.\<close>

lemma evaluate_network:
  "network (evaluation_call c (evaluation_body input)) = network' (evaluation_call c (evaluation_body input)) \<Longrightarrow>
     evaluate c network input = evaluate c network' input"
  by (simp add: evaluate_def marshalEvaluation_body evaluation_call_def)

lemma evaluate_unreachable:
  "network (evaluation_call c (evaluation_body input)) = Inl e \<Longrightarrow> url_parse (agc_evaluateURL c) \<noteq> None \<Longrightarrow>
     evaluate c network input = Inl (unavailable (''local agent request: '' @ e))"
  by (auto simp: evaluate_def marshalEvaluation_body evaluation_call_def)

lemma verify_accepted:
  "challengeVerify c network requestID input = Inr v \<Longrightarrow> verification_ok v"
  by (auto simp: verify_call.success_iff)

text \<open>The decisions and the statuses they come with.\<close>

definition decision_status :: "string \<Rightarrow> int \<Rightarrow> bool" where
  "decision_status d s \<longleftrightarrow>
     (d \<in> {''allow'', ''observe''} \<and> s = 200) \<or> (d \<in> {''block'', ''challenge''} \<and> s = 403)
     \<or> (d = ''rate_limit'' \<and> s = 429) \<or> (d = ''error'' \<and> 400 \<le> s \<and> s \<le> 599)"

definition local_path :: "string \<Rightarrow> bool" where
  "local_path u \<longleftrightarrow> has_prefix u ''/'' \<and> \<not> has_prefix u ''//'' \<and> int (length u) \<le> 2048
     \<and> \<not> contains_any u [CHR 0x0D, CHR 0x0A]"

text \<open>What a valid response cannot carry is rejected, field group by field group.\<close>

lemma valid_decision:
  assumes valid: "validateEvaluationResponse requestID r = None"
  shows "r_requestID r = requestID" "decision_status (r_decision r) (r_status r)"
proof -
  note checks = valid [unfolded validateEvaluationResponse_def Let_def, simplified if_Some_None]
  show "r_requestID r = requestID" using checks by blast
  from checks have
    "\<not> (r_decision r = ''error'' \<and> (r_status r < 400 \<or> 599 < r_status r))"
    "r_decision r \<in> {''allow'', ''observe'', ''block'', ''challenge'', ''rate_limit'', ''error''}"
    and e: "\<not> ((if r_decision r = ''allow'' \<or> r_decision r = ''observe'' then 200
             else if r_decision r = ''block'' \<or> r_decision r = ''challenge'' then 403
             else if r_decision r = ''rate_limit'' then 429 else (0 :: int)) \<noteq> 0
       \<and> r_status r \<noteq> (if r_decision r = ''allow'' \<or> r_decision r = ''observe'' then 200
             else if r_decision r = ''block'' \<or> r_decision r = ''challenge'' then 403
             else if r_decision r = ''rate_limit'' then 429 else (0 :: int)))"
    by blast+
  then show "decision_status (r_decision r) (r_status r)"
    unfolding decision_status_def by (auto split: if_splits)
qed

lemma valid_fields:
  assumes valid: "validateEvaluationResponse requestID r = None"
  shows "validPublicReason (r_publicReason r)" "length (r_resourceID r) \<le> 128" "length (r_siteID r) \<le> 128"
  "0 \<le> r_retryAfterSeconds r" "r_retryAfterSeconds r \<le> 86400"
  "0 < r_retryAfterSeconds r \<Longrightarrow> r_decision r \<in> {''rate_limit'', ''block''}"
  "0 \<le> r_cacheTTLMS r" "r_cacheTTLMS r \<le> 5000"
proof -
  note checks = valid [unfolded validateEvaluationResponse_def Let_def, simplified if_Some_None]
  from checks have
    "\<not> (\<not> validPublicReason (r_publicReason r) \<or> 128 < length (r_resourceID r) \<or> 128 < length (r_siteID r))"
    "\<not> (r_retryAfterSeconds r < 0 \<or> maximumRetryAfter < r_retryAfterSeconds r
       \<or> 0 < r_retryAfterSeconds r \<and> r_decision r \<noteq> ''rate_limit'' \<and> r_decision r \<noteq> ''block'')"
    "\<not> (r_cacheTTLMS r < 0 \<or> maximumCacheTTL div millisecond < r_cacheTTLMS r)"
    by blast+
  then show "validPublicReason (r_publicReason r)" "length (r_resourceID r) \<le> 128"
    "length (r_siteID r) \<le> 128" "0 \<le> r_retryAfterSeconds r" "r_retryAfterSeconds r \<le> 86400"
    "0 < r_retryAfterSeconds r \<Longrightarrow> r_decision r \<in> {''rate_limit'', ''block''}"
    "0 \<le> r_cacheTTLMS r" "r_cacheTTLMS r \<le> 5000"
    by (auto simp: maximumRetryAfter_def maximumCacheTTL_def second_def millisecond_def)
qed

lemma valid_challenge:
  assumes valid: "validateEvaluationResponse requestID r = None"
  shows "r_challengeURL r = [] \<or> local_path (r_challengeURL r)"
  "int (length (r_challengeToken r)) \<le> 4096 \<and> \<not> contains_any (r_challengeToken r) [CHR 0x0D, CHR 0x0A]"
  "r_decision r = ''challenge'' \<Longrightarrow>
     r_challengeURL r \<noteq> [] \<and> r_challengeToken r \<noteq> [] \<and> r_resourceID r \<noteq> [] \<and> r_siteID r \<noteq> []"
proof -
  note checks = valid [unfolded validateEvaluationResponse_def Let_def, simplified if_Some_None]
  from checks have u: "\<not> (r_challengeURL r \<noteq> []
      \<and> (\<not> has_prefix (r_challengeURL r) ''/'' \<or> has_prefix (r_challengeURL r) ''//''
         \<or> 2048 < int (length (r_challengeURL r)) \<or> contains_any (r_challengeURL r) [CHR 0x0D, CHR 0x0A]))"
    and t: "\<not> (4096 < int (length (r_challengeToken r))
      \<or> contains_any (r_challengeToken r) [CHR 0x0D, CHR 0x0A])"
    and c: "\<not> (r_decision r = ''challenge''
      \<and> (r_challengeURL r = [] \<or> r_challengeToken r = [] \<or> r_resourceID r = [] \<or> r_siteID r = []))"
    by blast+
  from u show "r_challengeURL r = [] \<or> local_path (r_challengeURL r)"
    unfolding local_path_def by linarith
  from t show "int (length (r_challengeToken r)) \<le> 4096
      \<and> \<not> contains_any (r_challengeToken r) [CHR 0x0D, CHR 0x0A]" by linarith
  from c show "r_decision r = ''challenge'' \<Longrightarrow>
     r_challengeURL r \<noteq> [] \<and> r_challengeToken r \<noteq> [] \<and> r_resourceID r \<noteq> [] \<and> r_siteID r \<noteq> []"
    by blast
qed

lemma valid_cacheable:
  assumes valid: "validateEvaluationResponse requestID r = None"
  shows "r_cacheable r \<Longrightarrow> r_decision r \<in> {''block'', ''rate_limit''} \<and> 0 < r_cacheTTLMS r
     \<and> length (r_cacheKey r) = 64 \<and> lowerHex (r_cacheKey r) \<and> r_cacheKeyScope r = ''request''
     \<and> r_decisionScope r \<noteq> [] \<and> length (r_decisionScope r) \<le> 256 \<and> r_policyRevision r \<noteq> 0
     \<and> \<not> contains_any (r_decisionScope r) [CHR 0x0D, CHR 0x0A, CHR 0x00]"
  "\<not> r_cacheable r \<Longrightarrow> r_cacheKey r = [] \<and> r_cacheKeyScope r = [] \<and> r_decisionScope r = []
     \<and> r_policyRevision r = 0"
proof -
  note checks = valid [unfolded validateEvaluationResponse_def Let_def, simplified if_Some_None]
  from checks have "(if r_cacheable r then
        (if r_decision r \<noteq> ''block'' \<and> r_decision r \<noteq> ''rate_limit''
         then Some ''only local deny decisions may be cached''
         else if r_cacheTTLMS r \<le> 0 \<or> length (r_cacheKey r) \<noteq> 64
              \<or> r_cacheKeyScope r \<noteq> ''request''
              \<or> length (r_decisionScope r) < 1 \<or> 256 < length (r_decisionScope r)
              \<or> r_policyRevision r = 0
              \<or> \<not> lowerHex (r_cacheKey r)
              \<or> contains_any (r_decisionScope r) [CHR 0x0D, CHR 0x0A, CHR 0x00]
         then Some ''local agent cache authorization is invalid''
         else None)
      else if r_cacheKey r \<noteq> [] \<or> r_cacheKeyScope r \<noteq> []
           \<or> r_decisionScope r \<noteq> [] \<or> r_policyRevision r \<noteq> 0
      then Some ''non-cacheable local response contains cache metadata''
      else None) = None"
    by (elim conjE)
  then show "r_cacheable r \<Longrightarrow> r_decision r \<in> {''block'', ''rate_limit''} \<and> 0 < r_cacheTTLMS r
     \<and> length (r_cacheKey r) = 64 \<and> lowerHex (r_cacheKey r) \<and> r_cacheKeyScope r = ''request''
     \<and> r_decisionScope r \<noteq> [] \<and> length (r_decisionScope r) \<le> 256 \<and> r_policyRevision r \<noteq> 0
     \<and> \<not> contains_any (r_decisionScope r) [CHR 0x0D, CHR 0x0A, CHR 0x00]"
    and "\<not> r_cacheable r \<Longrightarrow> r_cacheKey r = [] \<and> r_cacheKeyScope r = [] \<and> r_decisionScope r = []
     \<and> r_policyRevision r = 0"
    by (auto split: if_splits)
qed

text \<open>The alphabets of a public reason and of a cache key.\<close>

lemma public_reason_alphabet:
  "validPublicReason v \<longleftrightarrow> 1 \<le> length v \<and> length v \<le> 64
     \<and> set v \<subseteq> {CHR ''a''..CHR ''z''} \<union> {CHR ''0''..CHR ''9''} \<union> {CHR ''_''}"
  by (cases "v = []")
    (simp_all add: validPublicReason_def list_all_iff subset_iff not_less disj_ac Ball_def Suc_le_eq)

lemma lowerHex_alphabet: "lowerHex v \<longleftrightarrow> set v \<subseteq> {CHR ''0''..CHR ''9''} \<union> {CHR ''a''..CHR ''f''}"
  by (simp add: lowerHex_def list_all_iff subset_iff not_less disj_ac Ball_def)

lemma contains_none: "\<not> contains_any s cs \<longleftrightarrow> set s \<inter> set cs = {}"
  by (auto simp: contains_any_def list_ex_iff)

text \<open>The dialer tries local candidates in order and stops at the first that answers.\<close>

lemma dial_candidates_trace:
  "\<exists>tried. snd (dial_candidates dial port addresses lastError dialed) = dialed @ tried
     \<and> prefix tried (filter localAgentIP addresses)
     \<and> (case fst (dial_candidates dial port addresses lastError dialed) of
          Inr connection \<Rightarrow> tried \<noteq> []
            \<and> dial (join_host_port (ip_string (last tried)) port) = Inr connection
        | Inl e \<Rightarrow> tried = filter localAgentIP addresses
            \<and> list_all (\<lambda>ip. isl (dial (join_host_port (ip_string ip) port))) tried)"
proof (induction addresses arbitrary: lastError dialed)
  case (Cons ip addresses)
  show ?case
  proof (cases "localAgentIP ip")
    case False
    then have skip: "dial_candidates dial port (ip # addresses) lastError dialed
        = dial_candidates dial port addresses lastError dialed"
      "filter localAgentIP (ip # addresses) = filter localAgentIP addresses" by simp_all
    show ?thesis unfolding skip by (rule Cons.IH)
  next
    case True
    show ?thesis
    proof (cases "dial (join_host_port (ip_string ip) port)")
      case (Inl e)
      from Cons.IH [of "Some e" "dialed @ [ip]"] obtain tried where
        "snd (dial_candidates dial port addresses (Some e) (dialed @ [ip])) = dialed @ ip # tried"
        "prefix tried (filter localAgentIP addresses)"
        "case fst (dial_candidates dial port addresses (Some e) (dialed @ [ip])) of
           Inr connection \<Rightarrow> tried \<noteq> []
             \<and> dial (join_host_port (ip_string (last tried)) port) = Inr connection
         | Inl e \<Rightarrow> tried = filter localAgentIP addresses
             \<and> list_all (\<lambda>ip. isl (dial (join_host_port (ip_string ip) port))) tried"
        by auto
      with True Inl show ?thesis
        by (intro exI [of _ "ip # tried"]) (auto split: sum.splits)
    next
      case (Inr x)
      with True show ?thesis by (intro exI [of _ "[ip]"]) simp
    qed
  qed
qed simp

section \<open>Properties\<close>

definition exampleClient :: agentClient where
  "exampleClient = \<lparr>agc_evaluateURL = ''http://agent/v1/evaluate'',
     agc_challengeCreateURL = ''http://agent/v1/challenge/create'',
     agc_challengeVerifyURL = ''http://agent/v1/challenge/verify'',
     agc_token = ''secret'', agc_timeout = 500000000, agc_challengeTimeout = 2000000000\<rparr>"

text \<open>A reply of status 200 whose body is the whole message.\<close>

definition exampleReply :: "string \<Rightarrow> agentReply" where
  "exampleReply body = \<lparr>rp_status = 200, rp_contentType = ''application/json'',
     rp_body = \<lparr>b_bytes = body, b_fails = False\<rparr>, rp_ahead = 0\<rparr>"

lemma exampleReply_well_formed:
  assumes "scan_value body = ValueEnds (length body)" "int (length body) \<le> maximumAgentResponseBytes"
    and "unmarshal body = Some output"
  shows "well_formed unmarshal (exampleReply body) output"
proof -
  have "reply_stream (exampleReply body) = (body, EndOfStream)"
    using assms(2) by (simp add: reply_stream_def limited_reader_def exampleReply_def maximumAgentResponseBytes_def)
  moreover have "next_value body EndOfStream = NextValue body []" by (simp add: next_value_def assms(1))
  moreover have "has_prefix (to_lower ''application/json'') ''application/json''" by code_simp
  ultimately show ?thesis
    using assms(2,3)
    by (simp add: well_formed_def reply_value_def reply_read_def reply_atEOF_def at_eof_def exampleReply_def)
qed

text \<open>A response that is encoded as it should is received as it was.\<close>

lemma response_well_formed:
  assumes "encodable r" "int (length (marshalResponse r)) \<le> maximumAgentResponseBytes"
  shows "well_formed unmarshalResponse (exampleReply (marshalResponse r)) r"
  using response_received(1) [OF assms(1), of "[]"] response_received(2) [OF assms(1)] assms(2)
  by (intro exampleReply_well_formed) simp_all

definition exampleDeny :: evaluationResponse where
  "exampleDeny = emptyResponse\<lparr>r_decision := ''block'', r_status := 403, r_requestID := ''r1'',
     r_publicReason := ''policy_denied'', r_cacheTTLMS := 1000, r_cacheable := True,
     r_cacheKey := replicate 64 CHR ''a'', r_cacheKeyScope := ''request'',
     r_decisionScope := ''site'', r_policyRevision := 7\<rparr>"

definition exampleInput :: evaluationRequest where
  "exampleInput = exampleRequest\<lparr>q_requestID := ''r1''\<rparr>"

lemma exampleDeny_valid: "validateEvaluationResponse ''r1'' exampleDeny = None"
  by code_simp

lemma exampleClient_ready:
  "url_parse (agc_evaluateURL exampleClient) \<noteq> None"
  "url_parse (agc_challengeCreateURL exampleClient) \<noteq> None"
  "url_parse (agc_challengeVerifyURL exampleClient) \<noteq> None"
  by code_simp+

lemma exampleDeny_received: "well_formed unmarshalResponse (exampleReply (marshalResponse exampleDeny)) exampleDeny"
proof (rule response_well_formed)
  show "encodable exampleDeny" by code_simp
  show "int (length (marshalResponse exampleDeny)) \<le> maximumAgentResponseBytes" by code_simp
qed

lemma exampleDeny_evaluated:
  "evaluate exampleClient (\<lambda>_. Inr (exampleReply (marshalResponse exampleDeny))) exampleInput
   = Inr exampleDeny"
  using exampleDeny_received exampleDeny_valid exampleClient_ready(1)
  by (auto simp: evaluate_call.success_iff exampleInput_def exampleReply_def)

text \<open>
  C20. How an evaluation ends. \<open>evaluate\<close> returns a response exactly when the URL parses and the Agent
  answered 200 with a JSON content type and a body that decodes strictly to that response, within
  the limit and with nothing after it, and the response passes validation. It fails as unavailable
  exactly when there was no answer of status 200; every other failure is malformed.
\<close>

theorem evaluate_outcome:
  "(evaluate c network input = Inr output \<longleftrightarrow>
      url_parse (agc_evaluateURL c) \<noteq> None
      \<and> (\<exists>r. network (evaluation_call c (evaluation_body input)) = Inr r \<and> rp_status r = 200
           \<and> well_formed unmarshalResponse r output
           \<and> validateEvaluationResponse (q_requestID input) output = None))
   \<and> ((\<exists>e. evaluate c network input = Inl e \<and> ae_kind e = AgentUnavailable) \<longleftrightarrow>
      url_parse (agc_evaluateURL c) \<noteq> None
      \<and> (\<forall>r. network (evaluation_call c (evaluation_body input)) = Inr r \<longrightarrow> rp_status r \<noteq> 200))"
  by (intro conjI evaluate_call.success_iff evaluate_call.unavailable_iff)

theorem evaluate_outcome_witness:
  "evaluate exampleClient (\<lambda>_. Inr (exampleReply (marshalResponse exampleDeny))) exampleInput
   = Inr exampleDeny"
proof -
  have "rp_status (exampleReply (marshalResponse exampleDeny)) = 200" by (simp add: exampleReply_def)
  moreover have "q_requestID exampleInput = ''r1''" by (simp add: exampleInput_def)
  ultimately show ?thesis
    using evaluate_outcome [of exampleClient "\<lambda>_. Inr (exampleReply (marshalResponse exampleDeny))"
        exampleInput exampleDeny] exampleDeny_received exampleDeny_valid exampleClient_ready(1)
    by auto
qed

text \<open>
  C10. An accepted response is consistent. It answers this request and its status is the one of its
  decision; its reason, resource and site, retry delay, cache lifetime, challenge URL and
  challenge token are within their bounds and alphabets; a retry delay comes only with a block or
  a rate limit, a challenge has a URL of this site, a token, a resource and a site; a cacheable
  response is a block or a rate limit with a lifetime, a lower-case hex key of 64 characters of
  scope \<open>request\<close>, a decision scope and a revision, and any other one has no cache metadata.
\<close>

theorem accepted_response_is_consistent:
  assumes "evaluate c network input = Inr r"
  shows "r_requestID r = q_requestID input \<and> decision_status (r_decision r) (r_status r)
     \<and> 1 \<le> length (r_publicReason r) \<and> length (r_publicReason r) \<le> 64
     \<and> set (r_publicReason r) \<subseteq> {CHR ''a''..CHR ''z''} \<union> {CHR ''0''..CHR ''9''} \<union> {CHR ''_''}
     \<and> length (r_resourceID r) \<le> 128 \<and> length (r_siteID r) \<le> 128
     \<and> 0 \<le> r_retryAfterSeconds r \<and> r_retryAfterSeconds r \<le> 86400
     \<and> (0 < r_retryAfterSeconds r \<longrightarrow> r_decision r \<in> {''rate_limit'', ''block''})
     \<and> 0 \<le> r_cacheTTLMS r \<and> r_cacheTTLMS r \<le> 5000
     \<and> (r_challengeURL r = [] \<or> local_path (r_challengeURL r))
     \<and> length (r_challengeToken r) \<le> 4096 \<and> set (r_challengeToken r) \<inter> {CHR 0x0D, CHR 0x0A} = {}
     \<and> (r_decision r = ''challenge'' \<longrightarrow> local_path (r_challengeURL r) \<and> r_challengeToken r \<noteq> []
          \<and> r_resourceID r \<noteq> [] \<and> r_siteID r \<noteq> [])
     \<and> (if r_cacheable r
        then r_decision r \<in> {''block'', ''rate_limit''} \<and> 0 < r_cacheTTLMS r
          \<and> length (r_cacheKey r) = 64
          \<and> set (r_cacheKey r) \<subseteq> {CHR ''0''..CHR ''9''} \<union> {CHR ''a''..CHR ''f''}
          \<and> r_cacheKeyScope r = ''request''
          \<and> 1 \<le> length (r_decisionScope r) \<and> length (r_decisionScope r) \<le> 256
          \<and> set (r_decisionScope r) \<inter> {CHR 0x0D, CHR 0x0A, CHR 0x00} = {}
          \<and> r_policyRevision r \<noteq> 0
        else r_cacheKey r = [] \<and> r_cacheKeyScope r = [] \<and> r_decisionScope r = []
          \<and> r_policyRevision r = 0)"
proof -
  note v = evaluate_accepted [OF assms]
  have reason: "1 \<le> length (r_publicReason r) \<and> length (r_publicReason r) \<le> 64
      \<and> set (r_publicReason r) \<subseteq> {CHR ''a''..CHR ''z''} \<union> {CHR ''0''..CHR ''9''} \<union> {CHR ''_''}"
    using valid_fields(1) [OF v] unfolding public_reason_alphabet .
  have token: "length (r_challengeToken r) \<le> 4096 \<and> set (r_challengeToken r) \<inter> {CHR 0x0D, CHR 0x0A} = {}"
    using valid_challenge(2) [OF v] unfolding contains_none by simp
  have challenge: "r_decision r = ''challenge'' \<longrightarrow> local_path (r_challengeURL r) \<and> r_challengeToken r \<noteq> []
      \<and> r_resourceID r \<noteq> [] \<and> r_siteID r \<noteq> []"
    using valid_challenge(1,3) [OF v] by blast
  have cache: "if r_cacheable r
      then r_decision r \<in> {''block'', ''rate_limit''} \<and> 0 < r_cacheTTLMS r
        \<and> length (r_cacheKey r) = 64
        \<and> set (r_cacheKey r) \<subseteq> {CHR ''0''..CHR ''9''} \<union> {CHR ''a''..CHR ''f''}
        \<and> r_cacheKeyScope r = ''request''
        \<and> 1 \<le> length (r_decisionScope r) \<and> length (r_decisionScope r) \<le> 256
        \<and> set (r_decisionScope r) \<inter> {CHR 0x0D, CHR 0x0A, CHR 0x00} = {}
        \<and> r_policyRevision r \<noteq> 0
      else r_cacheKey r = [] \<and> r_cacheKeyScope r = [] \<and> r_decisionScope r = []
        \<and> r_policyRevision r = 0"
    using valid_cacheable [OF v] unfolding contains_none lowerHex_alphabet
    by (cases "r_cacheable r") (simp_all add: Suc_le_eq)
  show ?thesis
    using valid_decision [OF v] valid_fields(2-8) [OF v] valid_challenge(1) [OF v] reason token challenge cache
    by (intro conjI) blast+
qed

theorem accepted_response_is_consistent_witness:
  "decision_status (r_decision exampleDeny) (r_status exampleDeny)"
  using accepted_response_is_consistent [OF exampleDeny_evaluated] by simp

text \<open>
  What the validation lets through, the cache can hold. An accepted cacheable response is a
  deny with a status of 400 or more; the cache then refuses it only when it is switched off or
  the response carries a challenge token, and the entry lives between one millisecond and the
  smaller of five seconds and the configured limit.
\<close>

lemma accepted_cacheable_is_stored:
  assumes "evaluate c network input = Inr r" "r_cacheable r"
    and "maximumEntries cache \<noteq> 0" "0 < maximumTTL cache"
  shows "r_decision r \<in> {''block'', ''rate_limit''} \<and> 400 \<le> r_status r
     \<and> (put_refused cache r \<longleftrightarrow> r_challengeToken r \<noteq> [])
     \<and> entry_ttl cache r = min (maximumTTL cache) (r_cacheTTLMS r * millisecond)
     \<and> 0 < entry_ttl cache r \<and> entry_ttl cache r \<le> maximumCacheTTL"
proof -
  note v = evaluate_accepted [OF assms(1)]
  note c = valid_cacheable(1) [OF v assms(2)]
  have ttl: "wrap64 (r_cacheTTLMS r * millisecond) = r_cacheTTLMS r * millisecond"
    "r_cacheTTLMS r * millisecond \<le> maximumCacheTTL"
    using valid_fields(7,8) [OF v]
    by (simp_all add: wrap64_def millisecond_def maximumCacheTTL_def second_def)
  have "400 \<le> r_status r" using valid_decision(2) [OF v] c by (auto simp: decision_status_def)
  moreover have "put_refused cache r \<longleftrightarrow> r_challengeToken r \<noteq> []"
    using c assms by (auto simp: put_refused_def)
  ultimately show ?thesis
    using c ttl assms(4) by (auto simp: entry_ttl_def Let_def millisecond_def)
qed

lemma accepted_cacheable_is_stored_witness:
  "\<not> put_refused (newDecisionCache 10 1000000000) exampleDeny"
proof -
  have "put_refused (newDecisionCache 10 1000000000) exampleDeny \<longleftrightarrow> r_challengeToken exampleDeny \<noteq> []"
    using accepted_cacheable_is_stored [OF exampleDeny_evaluated, of "newDecisionCache 10 1000000000"]
    by (simp add: exampleDeny_def newDecisionCache_def)
  then show ?thesis by (simp add: exampleDeny_def emptyResponse_def)
qed

text \<open>
  C16. Only local addresses are dialed. Whatever the address and the resolver say, every address
  the client connects to is loopback, private or link-local, at most sixteen are tried, and a
  connection that is returned is the one to the last of them.
\<close>

theorem only_local_addresses_are_dialed:
  "list_all localAgentIP (snd (dialLocalAgent dial resolve address))
   \<and> length (snd (dialLocalAgent dial resolve address)) \<le> 16
   \<and> (case fst (dialLocalAgent dial resolve address) of
        Inr connection \<Rightarrow> snd (dialLocalAgent dial resolve address) \<noteq> []
          \<and> (\<exists>port. dial (join_host_port
               (ip_string (last (snd (dialLocalAgent dial resolve address)))) port) = Inr connection)
      | Inl e \<Rightarrow> True)"
proof -
  consider (none) e where "dialLocalAgent dial resolve address = (Inl e, [])"
    | (literal) ip port where "localAgentIP ip"
        "dialLocalAgent dial resolve address = (dial (join_host_port (ip_string ip) port), [ip])"
    | (names) port addresses where "length addresses \<le> 16"
        "dialLocalAgent dial resolve address = dial_candidates dial port addresses None []"
  proof (cases "split_host_port address")
    case None
    then show ?thesis by (intro none) (simp add: dialLocalAgent_def)
  next
    case (Some hp)
    obtain host port where h: "hp = (host, port)" by (cases hp)
    show ?thesis
    proof (cases "parse_ip (trim_chars host ''[]'')")
      case (Some ip)
      with \<open>split_host_port address = Some hp\<close> h show ?thesis
        by (cases "localAgentIP ip") (auto intro: none literal simp: dialLocalAgent_def)
    next
      case None
      show ?thesis
      proof (cases "resolve host")
        case (Inl e)
        with None \<open>split_host_port address = Some hp\<close> h show ?thesis
          by (intro none) (simp add: dialLocalAgent_def)
      next
        case (Inr addresses)
        with None \<open>split_host_port address = Some hp\<close> h show ?thesis
          by (intro names [of "if 16 < length addresses then take 16 addresses else addresses" port])
            (simp_all add: dialLocalAgent_def)
      qed
    qed
  qed
  then show ?thesis
  proof cases
    case none
    then show ?thesis by simp
  next
    case literal
    then show ?thesis by (auto split: sum.split)
  next
    case names
    from dial_candidates_trace [of dial port addresses None "[]"] obtain tried where
      t: "snd (dial_candidates dial port addresses None []) = tried"
        "prefix tried (filter localAgentIP addresses)"
        "\<And>x. fst (dial_candidates dial port addresses None []) = Inr x \<Longrightarrow>
           tried \<noteq> [] \<and> dial (join_host_port (ip_string (last tried)) port) = Inr x"
      by (auto split: sum.splits)
    have "set tried \<subseteq> set (filter localAgentIP addresses)"
      "length tried \<le> length (filter localAgentIP addresses)"
      using t(2) set_mono_prefix prefix_length_le by blast+
    moreover have "length (filter localAgentIP addresses) \<le> 16"
      using length_filter_le names(1) by (rule order_trans)
    ultimately have "list_all localAgentIP tried" "length tried \<le> 16"
      by (auto simp: list_all_iff)
    with t names(2) show ?thesis by (auto split: sum.split)
  qed
qed

text \<open>
  A passed challenge sets only the trust cookie. When the Agent's verification is accepted and
  says verified, the cookie is \<open>__Host-sokol_trust\<close> with a value of 1 to 4096 bytes and a life
  between one second and seven days.
\<close>

lemma verified_challenge_sets_trust_cookie:
  assumes "challengeVerify c network requestID input = Inr v" "v_verified v"
  shows "v_cookieName v = defaultTrustCookieName
     \<and> 1 \<le> length (v_cookieValue v) \<and> int (length (v_cookieValue v)) \<le> 4096
     \<and> 1 \<le> v_cookieMaxAge v \<and> v_cookieMaxAge v \<le> 604800"
  using verify_accepted [OF assms(1)] assms(2)
  by (cases "v_cookieValue v") (auto simp: verification_ok_def)

definition exampleVerified :: challengeVerifyResponse where
  "exampleVerified = \<lparr>v_verified = True, v_publicReason = ''ok'',
     v_cookieName = ''__Host-sokol_trust'', v_cookieValue = ''t'', v_cookieMaxAge = 60\<rparr>"

definition exampleContext :: challengeContext where
  "exampleContext = \<lparr>cx_resourceID = ''r'', cx_siteID = ''s'', cx_clientIP = ''192.0.2.1'',
     cx_userAgent = [], cx_path = ''/''\<rparr>"

text \<open>The verification as its tags encode it.\<close>

definition exampleVerifiedBody :: string where
  "exampleVerifiedBody = encode (JObject [(''verified'', JBool True), (''public_reason'', JString ''ok''),
     (''cookie_name'', JString ''__Host-sokol_trust''), (''cookie_value'', JString ''t''),
     (''cookie_max_age'', JInt 60)])"

lemma exampleVerified_received:
  "well_formed unmarshalVerification (exampleReply exampleVerifiedBody) exampleVerified"
proof (rule exampleReply_well_formed)
  show "scan_value exampleVerifiedBody = ValueEnds (length exampleVerifiedBody)" by code_simp
  show "int (length exampleVerifiedBody) \<le> maximumAgentResponseBytes" by code_simp
  show "unmarshalVerification exampleVerifiedBody = Some exampleVerified" by code_simp
qed

definition exampleVerification :: challengeVerifyRequest where
  "exampleVerification = \<lparr>cv_token = ''t'', cv_payload = ''{}'', cv_context = exampleContext\<rparr>"

lemma exampleVerified_returned:
  "marshalVerify message \<noteq> None \<Longrightarrow>
     challengeVerify exampleClient (\<lambda>_. Inr (exampleReply exampleVerifiedBody)) requestID message
     = Inr exampleVerified"
proof -
  have "verification_ok exampleVerified" "rp_status (exampleReply exampleVerifiedBody) = 200"
    by (code_simp, simp add: exampleReply_def)
  then show "marshalVerify message \<noteq> None \<Longrightarrow> ?thesis"
    using exampleVerified_received exampleClient_ready(3) by (auto simp: verify_call.success_iff)
qed

lemma verified_challenge_sets_trust_cookie_witness:
  "v_cookieName exampleVerified = defaultTrustCookieName"
proof -
  have m: "marshalVerify exampleVerification \<noteq> None" by code_simp
  have "v_verified exampleVerified" by code_simp
  with exampleVerified_returned [OF m] show ?thesis
    by (rule verified_challenge_sets_trust_cookie [THEN conjunct1])
qed

end
