(* ===== verification/GoWriter.thy ===== *)
theory GoWriter
  imports GoHttp GoJson
begin

text \<open>
  What the program writes a response with: a header map, the status, the bytes of the body, cookie
  serialization, HTML escaping and \<open>strings.ReplaceAll\<close>.
\<close>

section \<open>Responses\<close>

record httpResponse =
  o_header :: "string list gomap"
  o_status :: int
  o_body :: string

definition header_set :: "string \<Rightarrow> string \<Rightarrow> string list gomap \<Rightarrow> string list gomap" where
  "header_set name v h = AList.update (canonical_header_key name) [v] h"

definition header_add :: "string \<Rightarrow> string \<Rightarrow> string list gomap \<Rightarrow> string list gomap" where
  "header_add name v h = AList.update (canonical_header_key name) (header_values h name @ [v]) h"

lemma header_values_set:
  "header_values (header_set name v h) name' =
     (if canonical_header_key name' = canonical_header_key name then [v] else header_values h name')"
  by (simp add: header_values_def header_set_def map_of_update_if)

lemma header_values_add:
  "header_values (header_add name v h) name' =
     (if canonical_header_key name' = canonical_header_key name then header_values h name @ [v]
      else header_values h name')"
  by (simp add: header_values_def header_add_def map_of_update_if)

section \<open>Cookies\<close>

text \<open>The fields of \<open>http.Cookie\<close> the program sets; \<open>SameSite\<close> is \<open>Lax\<close>.\<close>

record httpCookie =
  k_name :: string
  k_value :: string
  k_path :: string
  k_maxAge :: int
  k_secure :: bool
  k_httpOnly :: bool

definition sanitize_cookie_value :: "string \<Rightarrow> string" where
  "sanitize_cookie_value v0 =
     (let v = filter cookie_value_byte v0 in
      if v = [] then v
      else if contains_any v [CHR 0x20, CHR '',''] then [CHR 0x22] @ v @ [CHR 0x22] else v)"

definition cookie_path_byte :: "char \<Rightarrow> bool" where
  "cookie_path_byte c \<longleftrightarrow> CHR 0x20 \<le> c \<and> c < CHR 0x7F \<and> c \<noteq> CHR '';''"

text \<open>\<open>Cookie.String\<close>, empty where the name is no token.\<close>

definition cookie_string :: "httpCookie \<Rightarrow> string" where
  "cookie_string k =
     (if \<not> is_token (k_name k) then []
      else k_name k @ ''='' @ sanitize_cookie_value (k_value k)
           @ (if k_path k \<noteq> [] then ''; Path='' @ filter cookie_path_byte (k_path k) else [])
           @ (if 0 < k_maxAge k then ''; Max-Age='' @ dec_of_int (k_maxAge k)
              else if k_maxAge k < 0 then ''; Max-Age=0'' else [])
           @ (if k_httpOnly k then ''; HttpOnly'' else [])
           @ (if k_secure k then ''; Secure'' else [])
           @ ''; SameSite=Lax'')"

definition set_cookie :: "httpCookie \<Rightarrow> string list gomap \<Rightarrow> string list gomap" where
  "set_cookie k h = (if cookie_string k \<noteq> [] then header_add ''Set-Cookie'' (cookie_string k) h else h)"

lemma split_append_sep: "c \<notin> set w \<Longrightarrow> split c (w @ c # s) = w # split c s"
  by (induction w) auto

lemma split_plain: "c \<notin> set w \<Longrightarrow> split c w = [w]"
  by (induction w) auto

lemma cookie_value_no_sep: "CHR '';'' \<notin> set (sanitize_cookie_value v)"
  by (auto simp: sanitize_cookie_value_def Let_def cookie_value_byte_def)

lemma digit_char_no_sep: "d < 10 \<Longrightarrow> digit_char d \<noteq> CHR '';''"
proof -
  have "list_all (\<lambda>d. digit_char d \<noteq> CHR '';'') [0..<10]" by code_simp
  then show "d < 10 \<Longrightarrow> digit_char d \<noteq> CHR '';''" by (simp add: list_all_iff)
qed

lemma dec_of_nat_no_sep: "CHR '';'' \<notin> set (dec_of_nat n)"
proof (induction n rule: dec_of_nat.induct)
  case (1 n)
  then show ?case
    using digit_char_no_sep [of n] digit_char_no_sep [of "n mod 10"]
    by (subst dec_of_nat.simps) auto
qed

lemma dec_of_int_no_sep: "CHR '';'' \<notin> set (dec_of_int i)"
  using dec_of_nat_no_sep by (simp add: dec_of_int_def)

lemma token_no_sep: "is_token s \<Longrightarrow> CHR '';'' \<notin> set s"
proof -
  have "\<not> token_char CHR '';''" by code_simp
  then show "is_token s \<Longrightarrow> CHR '';'' \<notin> set s" by (auto simp: is_token_def list_all_iff)
qed

text \<open>The attributes of a serialized cookie are the ones the program set, whatever the value.\<close>

lemma cookie_attributes:
  assumes "is_token (k_name k)" "k_path k = ''/''" "0 < k_maxAge k" "k_httpOnly k" "k_secure k"
  shows "split CHR '';'' (cookie_string k) =
     [k_name k @ ''='' @ sanitize_cookie_value (k_value k), '' Path=/'',
      '' Max-Age='' @ dec_of_int (k_maxAge k), '' HttpOnly'', '' Secure'', '' SameSite=Lax'']"
proof -
  have p: "filter cookie_path_byte ''/'' = ''/''" by code_simp
  have eq: "cookie_string k =
      (k_name k @ ''='' @ sanitize_cookie_value (k_value k)) @ CHR '';'' # '' Path=/'' @ CHR '';''
      # ('' Max-Age='' @ dec_of_int (k_maxAge k)) @ CHR '';'' # '' HttpOnly; Secure; SameSite=Lax''"
    using assms p by (simp add: cookie_string_def)
  have n: "CHR '';'' \<notin> set (k_name k @ ''='' @ sanitize_cookie_value (k_value k))"
    using token_no_sep [OF assms(1)] cookie_value_no_sep by simp
  have m: "CHR '';'' \<notin> set ('' Max-Age='' @ dec_of_int (k_maxAge k))"
    using dec_of_int_no_sep by simp
  have q: "CHR '';'' \<notin> set '' Path=/''" by simp
  show ?thesis
    unfolding eq split_append_sep [OF n] split_append_sep [OF q] split_append_sep [OF m] by simp
qed

section \<open>Text\<close>

definition html_char :: "char \<Rightarrow> string" where
  "html_char c =
     (if c = CHR ''&'' then ''&amp;'' else if c = CHR 0x27 then ''&#39;''
      else if c = CHR ''<'' then ''&lt;'' else if c = CHR ''>'' then ''&gt;''
      else if c = CHR 0x22 then ''&#34;'' else [c])"

definition html_escape :: "string \<Rightarrow> string" where
  "html_escape s = concat (map html_char s)"

text \<open>\<open>strings.ReplaceAll\<close> for a non-empty \<open>old\<close>.\<close>

function replace_all :: "string \<Rightarrow> string \<Rightarrow> string \<Rightarrow> string" where
  "replace_all old new [] = []"
| "replace_all old new (c # s) =
     (if old \<noteq> [] \<and> has_prefix (c # s) old
      then new @ replace_all old new (drop (length old - 1) s)
      else c # replace_all old new s)"
  by pat_completeness auto
termination
  by (relation "measure (\<lambda>(old, new, s). length s)") auto

lemma html_escape_safe:
  "set (html_escape s) \<inter> {CHR ''<'', CHR ''>'', CHR 0x22, CHR 0x27} = {}"
  by (induction s) (auto simp: html_escape_def html_char_def)

end
