(* ===== verification/GoFloat.thy ===== *)
theory GoFloat
  imports GoStrings
begin

text \<open>
  \<open>strconv.ParseFloat(s, 64)\<close> as far as quality values need it. A quality is read as a number
  between 0 and 1, so the model distinguishes: not a number (which Go's comparisons treat in
  their own way), a float64 between 0 and 1 (an integer over a power of two), and everything
  else, a syntax or range error or a number outside these bounds, which the program replaces by 0.
  A negative number or minus zero counts as outside: the program treats it like 0.
\<close>

datatype parsedQuality = QualityNaN | QualityNumber int nat | QualityRejected

section \<open>Syntax\<close>

definition lower_ascii :: "char \<Rightarrow> char" where
  "lower_ascii c = lower_char c"

definition dec_digit :: "char \<Rightarrow> bool" where
  "dec_digit c \<longleftrightarrow> CHR ''0'' \<le> c \<and> c \<le> CHR ''9''"

definition hex_letter :: "char \<Rightarrow> bool" where
  "hex_letter c \<longleftrightarrow> CHR ''a'' \<le> lower_ascii c \<and> lower_ascii c \<le> CHR ''f''"

definition digit_int :: "char \<Rightarrow> int" where
  "digit_int c = (if dec_digit c then of_char c - 48 else of_char (lower_ascii c) - 87)"

text \<open>
  \<open>underscoreOK\<close>: \<open>prev\<close> is the class of the last character, as the code has it: \<open>0\<close> for a digit
  or the base prefix, \<open>_\<close> for an underscore, \<open>!\<close> for anything else, \<open>^\<close> for the beginning.
\<close>

fun underscore_scan :: "bool \<Rightarrow> char \<Rightarrow> string \<Rightarrow> bool" where
  "underscore_scan hex prev [] = (prev \<noteq> CHR ''_'')"
| "underscore_scan hex prev (c # s) =
     (if dec_digit c \<or> (hex \<and> hex_letter c) then underscore_scan hex CHR ''0'' s
      else if c = CHR ''_'' then (if prev \<noteq> CHR ''0'' then False else underscore_scan hex CHR ''_'' s)
      else if prev = CHR ''_'' then False
      else underscore_scan hex CHR ''!'' s)"

definition underscore_ok :: "string \<Rightarrow> bool" where
  "underscore_ok s0 =
     (let s = (case s0 of c # t \<Rightarrow> if c = CHR ''-'' \<or> c = CHR ''+'' then t else s0 | [] \<Rightarrow> s0)
      in case s of
           a # b # t \<Rightarrow>
             if a = CHR ''0'' \<and> lower_ascii b \<in> set ''box''
             then underscore_scan (lower_ascii b = CHR ''x'') CHR ''0'' t
             else underscore_scan False CHR ''^'' s
         | _ \<Rightarrow> underscore_scan False CHR ''^'' s)"

text \<open>
  The digits: mantissa, digits after the point, whether a point, a digit or an underscore was
  seen, and the rest.
\<close>

record mantissaScan =
  ms_value :: int
  ms_fraction :: nat
  ms_dot :: bool
  ms_digits :: bool
  ms_underscores :: bool

fun scan_mantissa :: "int \<Rightarrow> string \<Rightarrow> mantissaScan \<Rightarrow> mantissaScan \<times> string" where
  "scan_mantissa base [] m = (m, [])"
| "scan_mantissa base (c # s) m =
     (if c = CHR ''_'' then scan_mantissa base s (m\<lparr>ms_underscores := True\<rparr>)
      else if c = CHR ''.'' then
        (if ms_dot m then (m, c # s) else scan_mantissa base s (m\<lparr>ms_dot := True\<rparr>))
      else if dec_digit c \<or> (base = 16 \<and> hex_letter c)
      then scan_mantissa base s (m\<lparr>ms_digits := True, ms_value := ms_value m * base + digit_int c,
             ms_fraction := (if ms_dot m then Suc (ms_fraction m) else ms_fraction m)\<rparr>)
      else (m, c # s))"

text \<open>The exponent's digits, whose value stops growing at 10000, and whether there were underscores.\<close>

fun scan_exponent :: "string \<Rightarrow> int \<Rightarrow> bool \<Rightarrow> int \<times> bool \<times> string" where
  "scan_exponent [] e u = (e, u, [])"
| "scan_exponent (c # s) e u =
     (if c = CHR ''_'' then scan_exponent s e True
      else if dec_digit c
      then scan_exponent s (if e < 10000 then e * 10 + digit_int c else e) u
      else (e, u, c # s))"

text \<open>
  A signless number: mantissa, its base, the digits after the point and the exponent; \<open>None\<close> where
  \<open>readFloat\<close> fails or does not read to the end.
\<close>

definition read_number :: "string \<Rightarrow> (int \<times> int \<times> nat \<times> int) option" where
  "read_number s =
     (let hex = (case s of a # b # c # t \<Rightarrow> a = CHR ''0'' \<and> lower_ascii b = CHR ''x'' | _ \<Rightarrow> False);
          base = (if hex then 16 else 10);
          expChar = (if hex then CHR ''p'' else CHR ''e'')
      in case scan_mantissa base (if hex then drop 2 s else s)
                \<lparr>ms_value = 0, ms_fraction = 0, ms_dot = False, ms_digits = False, ms_underscores = False\<rparr>
         of (m, rest) \<Rightarrow>
           if \<not> ms_digits m then None
           else case rest of
             [] \<Rightarrow> if hex \<or> (ms_underscores m \<and> \<not> underscore_ok s) then None
                   else Some (ms_value m, base, ms_fraction m, 0)
           | c # rest1 \<Rightarrow>
               if lower_ascii c \<noteq> expChar then None
               else let neg = (rest1 \<noteq> [] \<and> hd rest1 = CHR ''-'');
                        rest2 = (if rest1 \<noteq> [] \<and> (hd rest1 = CHR ''-'' \<or> hd rest1 = CHR ''+'')
                                 then tl rest1 else rest1)
               in if rest2 = [] \<or> \<not> dec_digit (hd rest2) then None
                  else case scan_exponent rest2 0 (ms_underscores m) of (e, u, rest3) \<Rightarrow>
                    if rest3 \<noteq> [] \<or> (u \<and> \<not> underscore_ok s) then None
                    else Some (ms_value m, base, ms_fraction m, if neg then - e else e))"

section \<open>Rounding\<close>

text \<open>The nearest integer to \<open>n / d\<close>, the even one of two.\<close>

definition round_half_even :: "int \<Rightarrow> int \<Rightarrow> int" where
  "round_half_even n d =
     (let q = n div d; r = n mod d in
      if 2 * r < d then q else if d < 2 * r then q + 1 else if even q then q else q + 1)"

text \<open>
  The number of binary places a float64 of the size of \<open>n / d\<close> has: enough for 53 bits, at least
  52 and at most 1074, which covers the numbers below 2.
\<close>

function binary_places :: "int \<Rightarrow> int \<Rightarrow> nat \<Rightarrow> nat" where
  "binary_places n d k =
     (if 1074 \<le> k \<or> d * 2 ^ 52 \<le> n * 2 ^ k then k else binary_places n d (Suc k))"
  by pat_completeness auto
termination
  by (relation "measure (\<lambda>(n, d, k). 1074 - k)") auto

declare binary_places.simps [simp del]

text \<open>\<open>n / d\<close> as a float64, where that is at most 1.\<close>

definition to_float :: "int \<Rightarrow> int \<Rightarrow> parsedQuality" where
  "to_float n d =
     (if 2 * d \<le> n then QualityRejected
      else let k = binary_places n d 52; m = round_half_even (n * 2 ^ k) d
      in if 2 ^ k < m then QualityRejected else QualityNumber m k)"

definition parse_quality :: "string \<Rightarrow> parsedQuality" where
  "parse_quality s =
     (if map lower_ascii s = ''nan'' then QualityNaN
      else case s of
        [] \<Rightarrow> QualityRejected
      | c # t \<Rightarrow>
          if c = CHR ''-'' then QualityRejected
          else (case read_number (if c = CHR ''+'' then t else s) of
                  None \<Rightarrow> QualityRejected
                | Some (mantissa, base, fraction, e) \<Rightarrow>
                    if mantissa = 0 then QualityNumber 0 0
                    else let scale = (if base = 16 then 4 * int fraction else int fraction);
                             b = (if base = 16 then 2 else 10 :: int);
                             p = e - scale
                    in if 0 \<le> p then to_float (mantissa * b ^ nat p) 1
                       else to_float mantissa (b ^ nat (- p))))"

text \<open>Comparison of two such numbers, and the replacement of the rejected ones by 0.\<close>

type_synonym quality = "int \<times> nat"

definition quality_less :: "quality \<Rightarrow> quality \<Rightarrow> bool" where
  "quality_less a b \<longleftrightarrow> fst a * 2 ^ snd b < fst b * 2 ^ snd a"

lemma quality_less_irrefl [simp]: "\<not> quality_less a a"
  by (simp add: quality_less_def)

lemma quality_less_trans:
  assumes "quality_less a b" "quality_less b c"
  shows "quality_less a c"
proof -
  obtain m1 k1 m2 k2 m3 k3 where p: "a = (m1, k1)" "b = (m2, k2)" "c = (m3, k3)" by fastforce
  have l: "m1 * 2 ^ k2 < m2 * 2 ^ k1" "m2 * 2 ^ k3 < m3 * 2 ^ k2"
    using assms p by (simp_all add: quality_less_def)
  have "(m1 * 2 ^ k3) * 2 ^ k2 = (m1 * 2 ^ k2) * 2 ^ k3" by (simp only: ac_simps)
  also have "\<dots> < (m2 * 2 ^ k1) * 2 ^ k3" by (rule mult_strict_right_mono [OF l(1)]) simp
  also have "\<dots> = (m2 * 2 ^ k3) * 2 ^ k1" by (simp only: ac_simps)
  also have "\<dots> < (m3 * 2 ^ k2) * 2 ^ k1" by (rule mult_strict_right_mono [OF l(2)]) simp
  also have "\<dots> = (m3 * 2 ^ k1) * 2 ^ k2" by (simp only: ac_simps)
  finally show ?thesis using p by (simp add: quality_less_def)
qed

lemma quality_not_less_trans:
  assumes "\<not> quality_less b a" "\<not> quality_less c b"
  shows "\<not> quality_less c a"
proof -
  obtain m1 k1 m2 k2 m3 k3 where p: "a = (m1, k1)" "b = (m2, k2)" "c = (m3, k3)" by fastforce
  have l: "m1 * 2 ^ k2 \<le> m2 * 2 ^ k1" "m2 * 2 ^ k3 \<le> m3 * 2 ^ k2"
    using assms p by (simp_all add: quality_less_def not_less)
  have "(m1 * 2 ^ k3) * 2 ^ k2 = (m1 * 2 ^ k2) * 2 ^ k3" by (simp only: ac_simps)
  also have "\<dots> \<le> (m2 * 2 ^ k1) * 2 ^ k3" by (rule mult_right_mono [OF l(1)]) simp
  also have "\<dots> = (m2 * 2 ^ k3) * 2 ^ k1" by (simp only: ac_simps)
  also have "\<dots> \<le> (m3 * 2 ^ k2) * 2 ^ k1" by (rule mult_right_mono [OF l(2)]) simp
  also have "\<dots> = (m3 * 2 ^ k1) * 2 ^ k2" by (simp only: ac_simps)
  finally show ?thesis using p by (simp add: quality_less_def not_less)
qed

lemma quality_not_less_less:
  assumes "\<not> quality_less b a" "quality_less b c"
  shows "quality_less a c"
proof -
  obtain m1 k1 m2 k2 m3 k3 where p: "a = (m1, k1)" "b = (m2, k2)" "c = (m3, k3)" by fastforce
  have l: "m1 * 2 ^ k2 \<le> m2 * 2 ^ k1" "m2 * 2 ^ k3 < m3 * 2 ^ k2"
    using assms p by (simp_all add: quality_less_def not_less)
  have "(m1 * 2 ^ k3) * 2 ^ k2 = (m1 * 2 ^ k2) * 2 ^ k3" by (simp only: ac_simps)
  also have "\<dots> \<le> (m2 * 2 ^ k1) * 2 ^ k3" by (rule mult_right_mono [OF l(1)]) simp
  also have "\<dots> = (m2 * 2 ^ k3) * 2 ^ k1" by (simp only: ac_simps)
  also have "\<dots> < (m3 * 2 ^ k2) * 2 ^ k1" by (rule mult_strict_right_mono [OF l(2)]) simp
  also have "\<dots> = (m3 * 2 ^ k1) * 2 ^ k2" by (simp only: ac_simps)
  finally show ?thesis using p by (simp add: quality_less_def)
qed

section \<open>Qualities are not negative\<close>

lemma digit_int_nonneg:
  "dec_digit c \<or> hex_letter c \<Longrightarrow> 0 \<le> digit_int c"
proof -
  have n: "(of_char x :: int) = int (of_char x)" for x :: char by (simp add: of_nat_of_char)
  show "dec_digit c \<or> hex_letter c \<Longrightarrow> 0 \<le> digit_int c"
    unfolding digit_int_def n
    by (auto simp: dec_digit_def hex_letter_def less_eq_char_def)
qed

lemma scan_mantissa_nonneg:
  "scan_mantissa base s m = (m', rest) \<Longrightarrow> 0 \<le> ms_value m \<Longrightarrow> 0 \<le> base \<Longrightarrow> 0 \<le> ms_value m'"
proof (induction base s m arbitrary: m' rest rule: scan_mantissa.induct)
  case (2 base c s m)
  then show ?case
    using digit_int_nonneg [of c] by (auto split: if_splits)
qed simp

lemma read_number_nonneg:
  assumes "read_number s = Some (v, b, f, e)"
  shows "0 \<le> v"
proof -
  define hex where "hex = (case s of a # b # c # t \<Rightarrow> a = CHR ''0'' \<and> lower_ascii b = CHR ''x'' | _ \<Rightarrow> False)"
  obtain m rest where m: "scan_mantissa (if hex then 16 else 10) (if hex then drop 2 s else s)
      \<lparr>ms_value = 0, ms_fraction = 0, ms_dot = False, ms_digits = False, ms_underscores = False\<rparr>
      = (m, rest)" by fastforce
  have "0 \<le> ms_value m" by (rule scan_mantissa_nonneg [OF m]) simp_all
  moreover have "v = ms_value m"
    using assms unfolding read_number_def Let_def hex_def [symmetric] m
    by (auto split: list.splits if_splits prod.splits)
  ultimately show ?thesis by simp
qed

lemma round_nonneg: "0 \<le> n \<Longrightarrow> 0 < d \<Longrightarrow> 0 \<le> round_half_even n d"
  by (simp add: round_half_even_def Let_def pos_imp_zdiv_nonneg_iff)

lemma to_float_nonneg: "to_float n d = QualityNumber m k \<Longrightarrow> 0 \<le> n \<Longrightarrow> 0 < d \<Longrightarrow> 0 \<le> m"
  by (auto simp: to_float_def Let_def round_nonneg split: if_splits)

lemma parse_quality_nonneg:
  assumes "parse_quality s = QualityNumber m k"
  shows "0 \<le> m"
proof -
  have "read_number t = Some (v, b, f, e) \<Longrightarrow> to_float (v * x) 1 = QualityNumber m k \<Longrightarrow> 0 \<le> x \<Longrightarrow> 0 \<le> m"
    "read_number t = Some (v, b, f, e) \<Longrightarrow> to_float v x = QualityNumber m k \<Longrightarrow> 0 < x \<Longrightarrow> 0 \<le> m"
    for t v b f e x
    using read_number_nonneg to_float_nonneg by (metis mult_nonneg_nonneg zero_less_one) (metis read_number_nonneg to_float_nonneg)
  with assms show ?thesis
    unfolding parse_quality_def Let_def
    by (simp split: list.splits if_splits option.splits prod.splits)
qed

end
