(* ===== verification/Pages.thy ===== *)
theory Pages
  imports GoStrings
begin

text \<open>
  The two built-in pages and the content security policy of \<open>responses.go\<close>, byte for byte, as the concatenation of their pieces;
  quotes, apostrophes, newlines and non-ASCII bytes are written by their code.
\<close>

definition fallbackPage :: string where
  "fallbackPage = concat
     [''<!doctype html>'', [CHR 0x0A], ''<html lang='', [CHR 0x22], ''en'', [CHR 0x22],
      '' data-sokol-system-page='', [CHR 0x22], ''edge-response'', [CHR 0x22],
      ''><head><meta charset='', [CHR 0x22], ''utf-8'', [CHR 0x22], ''><meta name='', [CHR 0x22],
      ''viewport'', [CHR 0x22], '' content='', [CHR 0x22], ''width=device-width'', [CHR 0x22],
      ''>'', [CHR 0x0A],
      ''<title>Request unavailable</title></head><body><main><h1>Request unavailable</h1>'',
      [CHR 0x0A],
      ''<p>The request could not be completed.</p><p>Request ID: {{SOKOL_REQUEST_ID}}</p>'',
      ''</main></body></html>'']"

definition fallbackChallengePage :: string where
  "fallbackChallengePage = concat
     [''<!doctype html>'', [CHR 0x0A], ''<html lang='', [CHR 0x22], ''en'', [CHR 0x22],
      '' data-sokol-system-page='', [CHR 0x22], ''challenge'', [CHR 0x22],
      ''><head><meta charset='', [CHR 0x22], ''utf-8'', [CHR 0x22], ''><meta name='', [CHR 0x22],
      ''viewport'', [CHR 0x22], '' content='', [CHR 0x22], ''width=device-width'', [CHR 0x22],
      ''>'', [CHR 0x0A], ''<meta name='', [CHR 0x22], ''robots'', [CHR 0x22], '' content='',
      [CHR 0x22], ''noindex,nofollow'', [CHR 0x22], ''><title>Sokol verification</title>'',
      [CHR 0x0A],
      ''<style>body{margin:0;min-height:100vh;display:grid;place-items:center;background:'',
      ''#0b1220;color:#eef6f7;font-family:system-ui,sans-serif}main{width:min(36rem,calc('',
      ''100% - 2rem));padding:2rem}button{padding:.7rem 1rem}#warning{color:#fde68a}</sty'',
      ''le></head>'', [CHR 0x0A], ''<body><main id='', [CHR 0x22], ''challenge'', [CHR 0x22],
      '' data-url='', [CHR 0x22], ''{{SOKOL_CHALLENGE_URL}}'', [CHR 0x22], '' data-token='',
      [CHR 0x22], ''{{SOKOL_CHALLENGE_TOKEN}}'', [CHR 0x22], '' data-resource='', [CHR 0x22],
      ''{{SOKOL_CHALLENGE_RESOURCE_ID}}'', [CHR 0x22], '' data-site='', [CHR 0x22],
      ''{{SOKOL_CHALLENGE_SITE_ID}}'', [CHR 0x22], '' data-path='', [CHR 0x22],
      ''{{SOKOL_PATH}}'', [CHR 0x22], '' data-auto='', [CHR 0x22],
      ''{{SOKOL_CHALLENGE_AUTO_START}}'', [CHR 0x22], ''>'', [CHR 0x0A],
      ''<h1>Verification required</h1><p>Sokol needs a brief proof-of-work check.</p>'',
      [CHR 0x0A], ''<sokol-captcha id='', [CHR 0x22], ''widget'', [CHR 0x22], '' name='',
      [CHR 0x22], ''sokol'', [CHR 0x22], '' challenge-url='', [CHR 0x22],
      ''{{SOKOL_CHALLENGE_URL}}'', [CHR 0x22], '' gate-submit='', [CHR 0x22], ''false'',
      [CHR 0x22], '' auto='', [CHR 0x22], ''off'', [CHR 0x22], ''></sokol-captcha>'', [CHR 0x0A],
      ''<p id='', [CHR 0x22], ''status'', [CHR 0x22], '' role='', [CHR 0x22], ''status'',
      [CHR 0x22], ''></p>'', [CHR 0x0A], ''<p id='', [CHR 0x22], ''warning'', [CHR 0x22],
      '' hidden>If verification assets are blocked, allow sokol-static.my-k.cloud and sok'',
      ''ol.my-k.cloud, or disable the blocker for this site.</p>'', [CHR 0x0A],
      ''<p>Request ID: {{SOKOL_REQUEST_ID}}</p></main>'', [CHR 0x0A], ''<script nonce='',
      [CHR 0x22], ''{{SOKOL_CSP_NONCE}}'', [CHR 0x22], '' data-sokol-site='', [CHR 0x22],
      ''{{SOKOL_CHALLENGE_SITE_ID}}'', [CHR 0x22], '' src='', [CHR 0x22],
      ''https://sokol-static.my-k.cloud/v1/sokol.iife.js'', [CHR 0x22], '' defer></script>'',
      [CHR 0x0A], ''<script nonce='', [CHR 0x22], ''{{SOKOL_CSP_NONCE}}'', [CHR 0x22],
      ''>(()=>{const r=document.getElementById('', [CHR 0x27], ''challenge'', [CHR 0x27],
      ''),w=document.getElementById('', [CHR 0x27], ''widget'', [CHR 0x27],
      ''),s=document.getElementById('', [CHR 0x27], ''status'', [CHR 0x27],
      ''),n=document.getElementById('', [CHR 0x27], ''warning'', [CHR 0x27],
      '');let q=false;const blocked=()=>{n.hidden=false};const fail=()=>{blocked();s.text'',
      ''Content='', [CHR 0x27], ''Verification did not complete. Please retry.'', [CHR 0x27],
      '';q=false};const payload=x=>x&&x.payload||r.querySelector('', [CHR 0x27], ''input[name='',
      [CHR 0x22], ''sokol'', [CHR 0x22], '']'', [CHR 0x27],
      '')?.value;const complete=async x=>{if(q)return;q=true;s.textContent='', [CHR 0x27],
      ''Finishing verification'', [CHR 0xE2], [CHR 0x80], [CHR 0xA6], [CHR 0x27],
      '';try{const p=payload(x);if(!p)throw Error('', [CHR 0x27], ''payload'', [CHR 0x27],
      '');const u=new URL(r.dataset.url,location.href),z=await fetch(u.pathname+'', [CHR 0x27],
      ''/verify'', [CHR 0x27], '',{method:'', [CHR 0x27], ''POST'', [CHR 0x27],
      '',credentials:'', [CHR 0x27], ''same-origin'', [CHR 0x27], '',headers:{'', [CHR 0x27],
      ''Content-Type'', [CHR 0x27], '':'', [CHR 0x27], ''application/json'', [CHR 0x27], '','',
      [CHR 0x27], ''Accept'', [CHR 0x27], '':'', [CHR 0x27], ''application/json'', [CHR 0x27],
      ''},body:JSON.stringify({challenge_token:r.dataset.token,resource_id:r.dataset.reso'',
      ''urce,site_id:r.dataset.site,path:r.dataset.path,payload:p})}),j=await z.json();if'',
      ''(!z.ok||!j.verified)throw Error('', [CHR 0x27], ''rejected'', [CHR 0x27],
      '');const d=new URL(location.href);d.pathname=r.dataset.path;d.search='', [CHR 0x27],
      [CHR 0x27], '';d.hash='', [CHR 0x27], [CHR 0x27],
      '';location.assign(d.href)}catch(e){fail()}};w.addEventListener('', [CHR 0x27],
      ''verified'', [CHR 0x27], '',e=>complete(e.detail));w.addEventListener('', [CHR 0x27],
      ''statechange'', [CHR 0x27], '',e=>{if(e.detail&&e.detail.state==='', [CHR 0x27],
      ''verified'', [CHR 0x27], '')complete(e.detail)});const run=async()=>{s.textContent='',
      [CHR 0x27], ''Verifying'', [CHR 0xE2], [CHR 0x80], [CHR 0xA6], [CHR 0x27],
      '';try{await complete(await w.verify({timeout:180000}))}catch(e){fail()}};const t=s'',
      ''etTimeout(fail,8000);customElements.whenDefined('', [CHR 0x27], ''sokol-captcha'',
      [CHR 0x27], '').then(()=>{clearTimeout(t);if(r.dataset.auto==='', [CHR 0x27], ''true'',
      [CHR 0x27], '')run();else s.textContent='', [CHR 0x27],
      ''Use the verification control when you are ready.'', [CHR 0x27],
      ''}).catch(fail);fetch('', [CHR 0x27], ''https://sokol.my-k.cloud/api/tools/identity'',
      [CHR 0x27], '',{mode:'', [CHR 0x27], ''cors'', [CHR 0x27], '',cache:'', [CHR 0x27],
      ''no-store'', [CHR 0x27], '',credentials:'', [CHR 0x27], ''include'', [CHR 0x27],
      ''}).catch(blocked)})()</script>'', [CHR 0x0A], ''</body></html>'']"

definition csp_before_nonce :: string where
  "csp_before_nonce = concat
     [''default-src '', [CHR 0x27], ''none'', [CHR 0x27], ''; base-uri '', [CHR 0x27], ''none'',
      [CHR 0x27], ''; form-action '', [CHR 0x27], ''self'', [CHR 0x27], ''; frame-ancestors '',
      [CHR 0x27], ''none'', [CHR 0x27], ''; img-src '', [CHR 0x27], ''self'', [CHR 0x27],
      '' data: https://sokol-static.my-k.cloud; style-src '', [CHR 0x27], ''unsafe-inline'',
      [CHR 0x27],
      '' https://sokol-static.my-k.cloud; font-src https://sokol-static.my-k.cloud; scrip'',
      ''t-src '', [CHR 0x27], ''nonce-'']"

definition csp_after_nonce :: string where
  "csp_after_nonce = concat
     [[CHR 0x27], '' '', [CHR 0x27], ''wasm-unsafe-eval'', [CHR 0x27],
      '' https://sokol-static.my-k.cloud; worker-src blob:; connect-src '', [CHR 0x27], ''self'',
      [CHR 0x27], '' https://sokol-static.my-k.cloud https://sokol.my-k.cloud'']"

end
