(* ===== verification/Responses.thy ===== *)
theory Responses
  imports Validation Messages GoWriter GoJsonFacts GoURL GoFloat Pages
begin

text \<open>
  The enforcement responses (\<open>responses.go\<close>): the status and headers, the choice between JSON and
  HTML, the page store with its reload interval and its file checks, and the page template.

  The environment: a file system (resolving symbolic links, opening, reading), the random bytes of
  the nonce, the clock and its formatted forms, and the order in which the replacements map is
  ranged over.
\<close>

section \<open>Headers and status\<close>

definition setEnforcementHeaders :: "string list gomap \<Rightarrow> string list gomap" where
  "setEnforcementHeaders header =
     header_set ''X-Robots-Tag'' ''noindex, nofollow, noarchive''
       (header_set ''X-Content-Type-Options'' ''nosniff''
         (header_set ''Referrer-Policy'' ''no-referrer''
           (header_set ''Cache-Control'' ''no-store, private'' header)))"

definition enforcementStatus :: "evaluationResponse \<Rightarrow> int" where
  "enforcementStatus response =
     (if r_decision response = ''block'' \<or> r_decision response = ''challenge'' then 403
      else if r_decision response = ''rate_limit'' then 429
      else if r_decision response = ''error'' then
        (if 400 \<le> r_status response \<and> r_status response \<le> 599 then r_status response else 503)
      else 403)"

definition setJSONCORSHeaders :: "string list gomap \<Rightarrow> string \<Rightarrow> string list gomap" where
  "setJSONCORSHeaders header origin0 =
     (let origin = trim_space origin0 in
      case url_parse origin of
        None \<Rightarrow> header
      | Some parsed \<Rightarrow>
          if u_host parsed = [] \<or> u_user parsed
             \<or> (u_scheme parsed \<noteq> ''http'' \<and> u_scheme parsed \<noteq> ''https'')
             \<or> u_path parsed \<noteq> [] \<or> u_rawQuery parsed \<noteq> [] \<or> u_fragment parsed \<noteq> []
          then header
          else header_add ''Vary'' ''Origin''
                 (header_set ''Access-Control-Expose-Headers'' ''Retry-After''
                   (header_set ''Access-Control-Allow-Credentials'' ''true''
                     (header_set ''Access-Control-Allow-Origin'' origin header))))"

section \<open>Content negotiation\<close>

text \<open>The quality of one item of an \<open>Accept\<close> header, \<open>None\<close> where it is not a number for Go.\<close>

fun item_quality :: "string list \<Rightarrow> quality option \<Rightarrow> quality option" where
  "item_quality [] q = q"
| "item_quality (parameter # parameters) q =
     (case cut CHR ''='' (trim_space parameter) of (name, v, ok) \<Rightarrow>
        if ok \<and> trim_space name = ''q''
        then item_quality parameters
               (case parse_quality (trim_space v) of
                  QualityNaN \<Rightarrow> None
                | QualityNumber m k \<Rightarrow> Some (m, k)
                | QualityRejected \<Rightarrow> Some (0, 0))
        else item_quality parameters q)"

definition media_matches :: "string list \<Rightarrow> string \<Rightarrow> string \<Rightarrow> bool" where
  "media_matches targetParts target mediaType =
     (let mediaParts = split CHR ''/'' mediaType in
      \<not> (length mediaParts \<noteq> 2
         \<or> (mediaType \<noteq> ''*/*'' \<and> mediaType \<noteq> target
            \<and> \<not> (mediaParts ! 0 = targetParts ! 0 \<and> mediaParts ! 1 = ''*''))))"

definition item_parts :: "string \<Rightarrow> string \<times> string list" where
  "item_parts item = (let parts = split CHR '';'' item in (trim_space (hd parts), tl parts))"

text \<open>The loop over the items; \<open>order\<close> counts them.\<close>

fun media_scan :: "string \<Rightarrow> string list \<Rightarrow> int \<Rightarrow> quality \<Rightarrow> int \<Rightarrow> quality \<times> int" where
  "media_scan target [] order bestQuality bestOrder = (bestQuality, bestOrder)"
| "media_scan target (item # items) order bestQuality bestOrder =
     (case item_parts item of (mediaType, parameters) \<Rightarrow>
        if \<not> media_matches (split CHR ''/'' target) target mediaType
        then media_scan target items (order + 1) bestQuality bestOrder
        else (case item_quality parameters (Some (1, 0)) of
                None \<Rightarrow> media_scan target items (order + 1) bestQuality bestOrder
              | Some q \<Rightarrow>
                  if quality_less bestQuality q then media_scan target items (order + 1) q order
                  else media_scan target items (order + 1) bestQuality bestOrder))"

definition mediaQuality :: "string \<Rightarrow> string \<Rightarrow> quality \<times> int" where
  "mediaQuality accept target =
     (case media_scan target (split CHR '','' accept) 0 (- 1, 0) (2 ^ 63 - 1) of
        (bestQuality, bestOrder) \<Rightarrow>
          if quality_less bestQuality (0, 0) then ((0, 0), bestOrder) else (bestQuality, bestOrder))"

definition prefersJSON :: "string \<Rightarrow> string \<Rightarrow> bool" where
  "prefersJSON accept0 defaultFormat =
     (let accept = trim_space (to_lower accept0) in
      if accept = [] then defaultFormat = ''json''
      else case mediaQuality accept ''application/json'' of (jsonQuality, jsonOrder) \<Rightarrow>
        case mediaQuality accept ''text/html'' of (htmlQuality, htmlOrder) \<Rightarrow>
          if quality_less htmlQuality jsonQuality then True
          else if quality_less jsonQuality htmlQuality then False
          else if quality_less (0, 0) jsonQuality \<and> quality_less (0, 0) htmlQuality
                  \<and> jsonOrder \<noteq> htmlOrder
          then jsonOrder < htmlOrder
          else defaultFormat = ''json'')"

section \<open>The page store\<close>

record pageEntry =
  pe_content :: string
  pe_nextCheck :: gotime

record pageStore =
  ps_config :: responsesConfig
  ps_root :: string
  ps_reloadInterval :: duration
  ps_cache :: "pageEntry gomap"

definition newPageStore :: "responsesConfig \<Rightarrow> string \<Rightarrow> duration \<Rightarrow> pageStore" where
  "newPageStore config root reloadInterval =
     \<lparr>ps_config = config, ps_root = root, ps_reloadInterval = reloadInterval, ps_cache = []\<rparr>"

text \<open>
  The file system: \<open>filepath.EvalSymlinks\<close>, and what opening a file gives: whether \<open>Stat\<close> succeeds
  and then the size and whether it is a regular file, and a reader for the content.
\<close>

record openFile =
  of_stat :: "(bool \<times> int) option"
  of_reader :: bodyReader

record fileSystem =
  fs_resolve :: "string \<Rightarrow> string option"
  fs_open :: "string \<Rightarrow> openFile option"

definition pathWithin :: "string \<Rightarrow> string \<Rightarrow> bool" where
  "pathWithin root candidate =
     (case path_rel root candidate of
        None \<Rightarrow> False
      | Some relative \<Rightarrow> relative \<noteq> ''..'' \<and> \<not> has_prefix relative ''../'')"

text \<open>\<open>None\<close> where \<open>load\<close> returns an error; its text is never looked at.\<close>

definition read_page :: "pageStore \<Rightarrow> openFile \<Rightarrow> string option" where
  "read_page p file =
     (case of_stat file of
        None \<Rightarrow> None
      | Some (regular, fileSize) \<Rightarrow>
          let maxBytes = rs_maximumFileBytes (ps_config p) in
          if \<not> regular \<or> maxBytes < fileSize then None
          else if b_fails (of_reader file) \<and> int (length (b_bytes (of_reader file))) < maxBytes + 1 then None
          else let content = take (nat (maxBytes + 1)) (b_bytes (of_reader file)) in
            if maxBytes + 1 \<le> int (length content) then None
            else if \<not> valid_utf8 content then None
            else Some content)"

definition page_load :: "fileSystem \<Rightarrow> pageStore \<Rightarrow> string \<Rightarrow> string option" where
  "page_load fs p name =
     (if \<not> validateRelativePagePath (ps_root p) name then None
      else let candidate = path_clean (path_join (ps_root p) name) in
        case fs_resolve fs (ps_root p) of None \<Rightarrow> None
        | Some resolvedRoot0 \<Rightarrow>
          (case fs_resolve fs candidate of None \<Rightarrow> None
           | Some resolvedCandidate0 \<Rightarrow>
             let resolvedRoot = path_clean resolvedRoot0;
                 resolvedCandidate = path_clean resolvedCandidate0
             in if \<not> pathWithin resolvedRoot resolvedCandidate then None
             else if \<not> rs_allowSymlinks (ps_config p)
                  \<and> (resolvedRoot \<noteq> path_clean (ps_root p) \<or> resolvedCandidate \<noteq> candidate)
             then None
             else (case fs_open fs resolvedCandidate of
                     None \<Rightarrow> None
                   | Some file \<Rightarrow> read_page p file)))"

definition page_name :: "pageStore \<Rightarrow> string \<Rightarrow> string" where
  "page_name p decision =
     (if decision = ''block'' then rs_blockFile (ps_config p)
      else if decision = ''challenge'' then rs_challengeFile (ps_config p)
      else if decision = ''rate_limit'' then rs_rateLimitFile (ps_config p)
      else rs_unavailableFile (ps_config p))"

definition page :: "fileSystem \<Rightarrow> pageStore \<Rightarrow> string \<Rightarrow> gotime \<Rightarrow> string \<times> pageStore" where
  "page fs p decision now =
     (let name = page_name p decision;
          fresh = (let content = (case page_load fs p name of
                                    Some c \<Rightarrow> c
                                  | None \<Rightarrow> if decision = ''challenge'' then fallbackChallengePage
                                            else fallbackPage)
                   in (content, p\<lparr>ps_cache := AList.update name
                         \<lparr>pe_content = content, pe_nextCheck = now + ps_reloadInterval p\<rparr> (ps_cache p)\<rparr>))
      in case map_of (ps_cache p) name of
           Some entry \<Rightarrow> if now < pe_nextCheck entry then (pe_content entry, p) else fresh
         | None \<Rightarrow> fresh)"

section \<open>The nonce\<close>

definition base64_alphabet :: string where
  "base64_alphabet = ''ABCDEFGHIJKLMNOPQRSTUVWXYZabcdefghijklmnopqrstuvwxyz0123456789-_''"

definition base64_char :: "nat \<Rightarrow> char" where
  "base64_char n = base64_alphabet ! n"

text \<open>\<open>base64.RawURLEncoding\<close>.\<close>

fun base64_raw :: "string \<Rightarrow> string" where
  "base64_raw [] = []"
| "base64_raw [a] = [base64_char (of_char a div 4), base64_char (of_char a mod 4 * 16)]"
| "base64_raw [a, b] =
     [base64_char (of_char a div 4), base64_char (of_char a mod 4 * 16 + of_char b div 16),
      base64_char (of_char b mod 16 * 4)]"
| "base64_raw (a # b # c # s) =
     base64_char (of_char a div 4) # base64_char (of_char a mod 4 * 16 + of_char b div 16)
     # base64_char (of_char b mod 16 * 4 + of_char c div 64) # base64_char (of_char c mod 64)
     # base64_raw s"

text \<open>\<open>random\<close> is what \<open>rand.Read\<close> yields, \<open>stamp\<close> the formatted time used when it fails.\<close>

definition randomNonce :: "string option \<Rightarrow> string \<Rightarrow> string" where
  "randomNonce random stamp =
     (case random of None \<Rightarrow> base64_raw stamp | Some v \<Rightarrow> base64_raw v)"

section \<open>Writing a response\<close>

text \<open>
  What the environment supplies to one call of \<open>write\<close>: the file system, the random bytes of the
  nonce and the time text used without them, the clock and its formatted form, and the order in
  which the replacements are ranged over.
\<close>

record writeEnv =
  we_files :: fileSystem
  we_random :: "string option"
  we_stamp :: string
  we_now :: gotime
  we_timestamp :: string
  we_order :: range_order

definition contentSecurityPolicy :: "string \<Rightarrow> string" where
  "contentSecurityPolicy nonce = csp_before_nonce @ nonce @ csp_after_nonce"

definition challengeQuery :: "evaluationResponse \<Rightarrow> string \<Rightarrow> string" where
  "challengeQuery response path =
     ''token='' @ escape EncodeQuery (r_challengeToken response)
     @ ''&resource='' @ escape EncodeQuery (r_resourceID response)
     @ ''&site='' @ escape EncodeQuery (r_siteID response)
     @ ''&path='' @ escape EncodeQuery path"

definition challengeCreateURL :: "evaluationResponse \<Rightarrow> string \<Rightarrow> string" where
  "challengeCreateURL response path = r_challengeURL response @ ''?'' @ challengeQuery response path"

definition replacements ::
    "writeEnv \<Rightarrow> string \<Rightarrow> httpRequest \<Rightarrow> evaluationResponse \<Rightarrow> string gomap" where
  "replacements env nonce request response =
     [(''{{SOKOL_REQUEST_ID}}'', html_escape (r_requestID response)),
      (''{{SOKOL_HOST}}'', html_escape (h_host request)),
      (''{{SOKOL_PATH}}'', html_escape (escaped_path (h_path request) (h_rawPath request))),
      (''{{SOKOL_TIMESTAMP}}'', html_escape (we_timestamp env)),
      (''{{SOKOL_CHALLENGE_URL}}'', html_escape (challengeCreateURL response (h_path request))),
      (''{{SOKOL_CHALLENGE_TOKEN}}'', html_escape (r_challengeToken response)),
      (''{{SOKOL_CHALLENGE_RESOURCE_ID}}'', html_escape (r_resourceID response)),
      (''{{SOKOL_CHALLENGE_SITE_ID}}'', html_escape (r_siteID response)),
      (''{{SOKOL_CHALLENGE_AUTO_START}}'',
         if r_challengeAutoStart response then ''true'' else ''false''),
      (''{{SOKOL_CSP_NONCE}}'', html_escape nonce)]"

definition fill_template :: "range_order \<Rightarrow> string gomap \<Rightarrow> string \<Rightarrow> string" where
  "fill_template ord values template =
     fold (\<lambda>placeholder t. replace_all placeholder
             (case map_of values placeholder of Some v \<Rightarrow> v | None \<Rightarrow> []) t)
       (ord (keys values)) template"

definition enforcement_header :: "string list gomap \<Rightarrow> evaluationResponse \<Rightarrow> string list gomap" where
  "enforcement_header header response =
     (let h = setEnforcementHeaders header; status = enforcementStatus response in
      if 0 < r_retryAfterSeconds response \<and> (status = 429 \<or> status = 403)
      then header_set ''Retry-After'' (dec_of_int (r_retryAfterSeconds response)) h else h)"

definition page_write ::
    "writeEnv \<Rightarrow> pageStore \<Rightarrow> string list gomap \<Rightarrow> httpRequest \<Rightarrow> evaluationResponse
       \<Rightarrow> httpResponse \<times> pageStore" where
  "page_write env p header request response =
     (let h = enforcement_header header response;
          status = enforcementStatus response
      in if prefersJSON (header_get (h_header request) ''Accept'') (rs_defaultFormat (ps_config p))
         then (\<lparr>o_header = header_set ''Content-Type'' ''application/json; charset=utf-8''
                  (setJSONCORSHeaders h (header_get (h_header request) ''Origin'')),
                o_status = status,
                o_body = json_line [(''decision'', JString (r_decision response)), (''status'', JInt status),
                  (''request_id'', JString (r_requestID response)),
                  (''public_reason'', JString (r_publicReason response))]\<rparr>, p)
         else let nonce = randomNonce (we_random env) (we_stamp env) in
           case page (we_files env) p (r_decision response) (we_now env) of (template, p') \<Rightarrow>
             (\<lparr>o_header = header_set ''Content-Security-Policy'' (contentSecurityPolicy nonce)
                 (header_set ''Content-Type'' ''text/html; charset=utf-8'' h),
               o_status = status,
               o_body = fill_template (we_order env)
                 (replacements env nonce request response) template\<rparr>, p'))"

section \<open>Lemmas\<close>

named_theorems header_names "the header names of the program in canonical form"

lemma canonical_names [header_names]:
  "canonical_header_key ''Cache-Control'' = ''Cache-Control''"
  "canonical_header_key ''Referrer-Policy'' = ''Referrer-Policy''"
  "canonical_header_key ''X-Content-Type-Options'' = ''X-Content-Type-Options''"
  "canonical_header_key ''X-Robots-Tag'' = ''X-Robots-Tag''"
  "canonical_header_key ''Retry-After'' = ''Retry-After''"
  "canonical_header_key ''Content-Type'' = ''Content-Type''"
  "canonical_header_key ''Content-Security-Policy'' = ''Content-Security-Policy''"
  "canonical_header_key ''Access-Control-Allow-Origin'' = ''Access-Control-Allow-Origin''"
  "canonical_header_key ''Access-Control-Allow-Credentials'' = ''Access-Control-Allow-Credentials''"
  "canonical_header_key ''Access-Control-Expose-Headers'' = ''Access-Control-Expose-Headers''"
  "canonical_header_key ''Vary'' = ''Vary''"
  "canonical_header_key ''Origin'' = ''Origin''"
  "canonical_header_key ''Accept'' = ''Accept''"
  "canonical_header_key ''Set-Cookie'' = ''Set-Cookie''"
  by code_simp+

lemmas header_simps = header_values_set header_values_add header_names

definition enforcement_headers_set :: "string list gomap \<Rightarrow> bool" where
  "enforcement_headers_set h \<longleftrightarrow>
     header_values h ''Cache-Control'' = [''no-store, private'']
     \<and> header_values h ''Referrer-Policy'' = [''no-referrer'']
     \<and> header_values h ''X-Content-Type-Options'' = [''nosniff'']
     \<and> header_values h ''X-Robots-Tag'' = [''noindex, nofollow, noarchive'']"

lemma setEnforcementHeaders_sets: "enforcement_headers_set (setEnforcementHeaders h)"
  by (simp add: enforcement_headers_set_def setEnforcementHeaders_def header_simps)

lemma enforcement_headers_keep:
  "canonical_header_key name \<notin> {''Cache-Control'', ''Referrer-Policy'', ''X-Content-Type-Options'', ''X-Robots-Tag''} \<Longrightarrow>
     enforcement_headers_set (header_set name v h) = enforcement_headers_set h"
  "canonical_header_key name \<notin> {''Cache-Control'', ''Referrer-Policy'', ''X-Content-Type-Options'', ''X-Robots-Tag''} \<Longrightarrow>
     enforcement_headers_set (header_add name v h) = enforcement_headers_set h"
  by (auto simp: enforcement_headers_set_def header_simps)

lemma enforcement_header_sets: "enforcement_headers_set (enforcement_header h response)"
  by (simp add: enforcement_header_def Let_def enforcement_headers_keep setEnforcementHeaders_sets header_names)

lemma cors_keeps: "enforcement_headers_set (setJSONCORSHeaders h origin) = enforcement_headers_set h"
  by (simp add: setJSONCORSHeaders_def Let_def enforcement_headers_keep header_names split: option.split)

lemma status_range: "400 \<le> enforcementStatus response \<and> enforcementStatus response \<le> 599"
  by (simp add: enforcementStatus_def)

lemma base64_chars: "set (base64_raw s) \<subseteq> set base64_alphabet"
proof -
  have al: "n < 64 \<Longrightarrow> base64_char n \<in> set base64_alphabet" for n
    unfolding base64_char_def by (rule nth_mem) (simp add: base64_alphabet_def)
  have lt: "(of_char c :: nat) div 4 < 64" "(of_char c :: nat) div 16 < 16" "(of_char c :: nat) div 64 < 4"
    for c :: char
    using of_char_less [of c] by (auto simp: div_less_iff_less_mult)
  have m: "(of_char c :: nat) mod 4 < 4" "(of_char c :: nat) mod 16 < 16" "(of_char c :: nat) mod 64 < 64"
    for c :: char by simp_all
  have parts: "(of_char a :: nat) mod 4 * 16 < 64" "(of_char b :: nat) mod 16 * 4 < 64"
    "(of_char a :: nat) mod 4 * 16 + of_char b div 16 < 64"
    "(of_char b :: nat) mod 16 * 4 + of_char c div 64 < 64" for a b c :: char
    using m(1) [of a] m(2) [of b] lt(2) [of b] lt(3) [of c] by linarith+
  show ?thesis
    by (induction s rule: base64_raw.induct) (auto intro!: al lt m parts)
qed

lemma nonce_chars: "set (randomNonce random stamp) \<subseteq> set base64_alphabet"
  using base64_chars by (simp add: randomNonce_def split: option.split)

section \<open>Properties\<close>

text \<open>
  C19. An enforcement response is never a success and never cached. Whatever the decision, the
  request, the environment and the headers set before, the status lies between 400 and 599 and the
  response may not be stored, sniffed or indexed. It is either declared JSON and holds no character
  that HTML gives a meaning to, or declared HTML under a policy that allows only the scripts of its
  own nonce, a text of letters, digits, \<open>-\<close> and \<open>_\<close> that no quote can break out of.
\<close>

theorem enforcement_response_is_safe:
  "400 \<le> o_status (fst (page_write env p header request response))
   \<and> o_status (fst (page_write env p header request response)) \<le> 599
   \<and> enforcement_headers_set (o_header (fst (page_write env p header request response)))
   \<and> (header_values (o_header (fst (page_write env p header request response))) ''Content-Type''
        = [''application/json; charset=utf-8'']
      \<and> \<not> contains_any (o_body (fst (page_write env p header request response))) ''<>&''
      \<or> (\<exists>nonce. set nonce \<subseteq> set base64_alphabet
           \<and> header_values (o_header (fst (page_write env p header request response))) ''Content-Type''
             = [''text/html; charset=utf-8'']
           \<and> header_values (o_header (fst (page_write env p header request response)))
               ''Content-Security-Policy'' = [csp_before_nonce @ nonce @ csp_after_nonce]))"
proof (cases "prefersJSON (header_get (h_header request) ''Accept'') (rs_defaultFormat (ps_config p))")
  case True
  then show ?thesis
    by (simp add: page_write_def Let_def status_range enforcement_headers_keep cors_keeps
        enforcement_header_sets header_simps json_line_html_safe)
next
  case False
  obtain t p' where "page (we_files env) p (r_decision response) (we_now env) = (t, p')"
    by (cases "page (we_files env) p (r_decision response) (we_now env)")
  with False show ?thesis
    using nonce_chars [of "we_random env" "we_stamp env"]
    by (auto simp: page_write_def Let_def status_range enforcement_headers_keep
        enforcement_header_sets header_simps contentSecurityPolicy_def)
qed

text \<open>What \<open>load\<close> checks before it opens a file, and what it returns.\<close>

lemma pathWithin_prefix:
  "is_abs root \<Longrightarrow> is_abs candidate \<Longrightarrow>
     pathWithin root candidate \<longleftrightarrow> prefix (elements root) (elements candidate)"
  using rel_escapes [of root candidate] by (auto simp: pathWithin_def escapes_def)

lemma read_page_content:
  assumes "read_page p file = Some content"
  shows "int (length content) \<le> rs_maximumFileBytes (ps_config p)" "valid_utf8 content"
    "content = b_bytes (of_reader file)" "\<exists>n. of_stat file = Some (True, n)"
proof -
  let ?m = "rs_maximumFileBytes (ps_config p)" and ?b = "b_bytes (of_reader file)"
  from assms have c: "content = take (nat (?m + 1)) ?b" "int (length content) < ?m + 1"
      "valid_utf8 content" "\<exists>n. of_stat file = Some (True, n)"
    by (auto simp: read_page_def Let_def split: option.splits prod.splits if_splits)
  then show "int (length content) \<le> ?m" "valid_utf8 content" "\<exists>n. of_stat file = Some (True, n)"
    by simp_all
  from c(1,2) have "length content < nat (?m + 1)" by linarith
  with c(1) show "content = ?b" by simp
qed

lemma page_load_cases:
  assumes "page_load fs p name = Some content"
  obtains root candidate f where
    "fs_resolve fs (ps_root p) = Some root"
    "fs_resolve fs (path_clean (path_join (ps_root p) name)) = Some candidate"
    "pathWithin (path_clean root) (path_clean candidate)"
    "\<not> rs_allowSymlinks (ps_config p) \<Longrightarrow> path_clean root = path_clean (ps_root p)
       \<and> path_clean candidate = path_clean (path_join (ps_root p) name)"
    "fs_open fs (path_clean candidate) = Some f" "read_page p f = Some content"
  using assms by (auto simp: page_load_def Let_def split: if_splits option.splits)

text \<open>
  C18. A page lies inside the root. The root is an absolute path, and the file system resolves
  absolute paths to absolute ones (what it makes of relative paths does not matter). When the page
  store returns a file's content, it opened the path the page name resolves to, whose elements
  extend those of the resolved root; the file is regular, its whole content is returned, within
  the size limit and in valid UTF-8. When symbolic links are not allowed, the opened path is the
  root joined with the name, link-free.
\<close>

theorem page_stays_inside_root:
  assumes "page_load fs p name = Some content"
    and "is_abs (ps_root p)"
    and "\<forall>path resolved. is_abs path \<and> fs_resolve fs path = Some resolved \<longrightarrow> is_abs resolved"
  shows "\<exists>root resolved file.
     fs_resolve fs (ps_root p) = Some root
     \<and> fs_resolve fs (path_clean (path_join (ps_root p) name)) = Some resolved
     \<and> fs_open fs (path_clean resolved) = Some file
     \<and> prefix (elements root) (elements (path_clean resolved))
     \<and> content = b_bytes (of_reader file) \<and> (\<exists>n. of_stat file = Some (True, n))
     \<and> int (length content) \<le> rs_maximumFileBytes (ps_config p) \<and> valid_utf8 content
     \<and> (rs_allowSymlinks (ps_config p)
        \<or> path_clean resolved = path_clean (path_join (ps_root p) name)
          \<and> path_clean root = path_clean (ps_root p))"
  using assms(1)
proof (rule page_load_cases)
  fix root candidate f
  assume r: "fs_resolve fs (ps_root p) = Some root"
    and c: "fs_resolve fs (path_clean (path_join (ps_root p) name)) = Some candidate"
    and w: "pathWithin (path_clean root) (path_clean candidate)"
    and s: "\<not> rs_allowSymlinks (ps_config p) \<Longrightarrow> path_clean root = path_clean (ps_root p)
       \<and> path_clean candidate = path_clean (path_join (ps_root p) name)"
    and o: "fs_open fs (path_clean candidate) = Some f" "read_page p f = Some content"
  have j: "is_abs (path_clean (path_join (ps_root p) name))"
    using assms(2) by (intro elements_clean(1) path_join_abs)
  from assms(2,3) r c j have "is_abs root" "is_abs candidate" by blast+
  note a = elements_clean [OF this(1)] elements_clean [OF this(2)]
  from w a have "prefix (elements root) (elements (path_clean candidate))"
    by (simp add: pathWithin_prefix)
  with r c s o read_page_content [OF o(2)] show ?thesis by blast
qed

definition exampleStorePages :: pageStore where
  "exampleStorePages =
     \<lparr>ps_config = \<lparr>rs_root = ''/p'', rs_blockFile = ''b'', rs_challengeFile = ''c'',
        rs_rateLimitFile = ''r'', rs_unavailableFile = ''u'', rs_maximumFileBytes = 16,
        rs_reloadInterval = ''30s'', rs_defaultFormat = ''html'', rs_allowSymlinks = False\<rparr>,
      ps_root = ''/p'', ps_reloadInterval = 30, ps_cache = []\<rparr>"

definition exampleFiles :: fileSystem where
  "exampleFiles = \<lparr>fs_resolve = Some,
     fs_open = (\<lambda>path. if path = ''/p/b''
        then Some \<lparr>of_stat = Some (True, 2), of_reader = \<lparr>b_bytes = ''no'', b_fails = False\<rparr>\<rparr>
        else None)\<rparr>"

theorem page_stays_inside_root_witness:
  "\<exists>resolved file. fs_resolve exampleFiles ''/p/b'' = Some resolved
     \<and> fs_open exampleFiles (path_clean resolved) = Some file
     \<and> ''no'' = b_bytes (of_reader file) \<and> (\<exists>n. of_stat file = Some (True, n))"
proof -
  have l: "page_load exampleFiles exampleStorePages ''b'' = Some ''no''" by code_simp
  have a: "is_abs (ps_root exampleStorePages)" by code_simp
  have r: "\<forall>path resolved. is_abs path \<and> fs_resolve exampleFiles path = Some resolved \<longrightarrow> is_abs resolved"
    by (simp add: exampleFiles_def)
  have "path_clean (path_join (ps_root exampleStorePages) ''b'') = ''/p/b''" by code_simp
  with page_stays_inside_root [OF l a r] show ?thesis by auto
qed

text \<open>What one load leaves in the store and returns.\<close>

definition loaded_page :: "fileSystem \<Rightarrow> pageStore \<Rightarrow> string \<Rightarrow> string" where
  "loaded_page fs p decision =
     (case page_load fs p (page_name p decision) of
        Some c \<Rightarrow> c
      | None \<Rightarrow> if decision = ''challenge'' then fallbackChallengePage else fallbackPage)"

lemma page_load_cong:
  "ps_root p = ps_root q \<Longrightarrow> ps_config p = ps_config q \<Longrightarrow> page_load fs p name = page_load fs q name"
proof -
  assume e: "ps_root p = ps_root q" "ps_config p = ps_config q"
  have r: "read_page p f = read_page q f" for f unfolding read_page_def e ..
  show ?thesis unfolding page_load_def e r ..
qed

text \<open>A call of \<open>page\<close> as an operation of the store: file system, decision and time.\<close>

definition page_op :: "pageStore \<Rightarrow> fileSystem \<times> string \<times> gotime \<Rightarrow> pageStore \<times> string" where
  "page_op p x = (case x of (fs, decision, now) \<Rightarrow> prod.swap (page fs p decision now))"

text \<open>
  The invariant of a store that has served the calls \<open>seen\<close>: every entry was loaded in one of them,
  for a decision with the same page, and is checked again one reload interval later.
\<close>

definition loaded_by ::
    "pageStore \<Rightarrow> (fileSystem \<times> string \<times> gotime) list \<Rightarrow> string \<Rightarrow> pageEntry \<Rightarrow> bool" where
  "loaded_by p0 seen name e \<longleftrightarrow>
     (\<exists>fs decision t. (fs, decision, t) \<in> set seen \<and> page_name p0 decision = name
        \<and> pe_content e = loaded_page fs p0 decision \<and> pe_nextCheck e = t + ps_reloadInterval p0)"

definition page_inv :: "pageStore \<Rightarrow> (fileSystem \<times> string \<times> gotime) list \<Rightarrow> pageStore \<Rightarrow> bool" where
  "page_inv p0 seen p \<longleftrightarrow>
     ps_root p = ps_root p0 \<and> ps_config p = ps_config p0 \<and> ps_reloadInterval p = ps_reloadInterval p0
     \<and> (\<forall>name e. map_of (ps_cache p) name = Some e \<longrightarrow> loaded_by p0 seen name e)"

lemma loaded_by_append: "loaded_by p0 seen name e \<Longrightarrow> loaded_by p0 (seen @ later) name e"
  unfolding loaded_by_def set_append by blast

lemma page_name_cong: "ps_config p = ps_config q \<Longrightarrow> page_name p d = page_name q d"
  by (simp add: page_name_def)

lemma loaded_page_cong:
  "ps_root p = ps_root q \<Longrightarrow> ps_config p = ps_config q \<Longrightarrow> loaded_page fs p d = loaded_page fs q d"
  using page_load_cong [of p q fs "page_name p d"]
  by (simp add: loaded_page_def page_name_cong [of p q])

lemma page_eq:
  "page fs p decision now =
     (case map_of (ps_cache p) (page_name p decision) of
        Some e \<Rightarrow> if now < pe_nextCheck e then (pe_content e, p)
          else (loaded_page fs p decision, p\<lparr>ps_cache := AList.update (page_name p decision)
            \<lparr>pe_content = loaded_page fs p decision, pe_nextCheck = now + ps_reloadInterval p\<rparr> (ps_cache p)\<rparr>)
      | None \<Rightarrow> (loaded_page fs p decision, p\<lparr>ps_cache := AList.update (page_name p decision)
            \<lparr>pe_content = loaded_page fs p decision, pe_nextCheck = now + ps_reloadInterval p\<rparr> (ps_cache p)\<rparr>))"
  by (simp add: page_def loaded_page_def Let_def split: option.split)

lemma page_step_inv:
  assumes "page_inv p0 seen p" "page fs p decision now = (c, p')"
  shows "page_inv p0 (seen @ [(fs, decision, now)]) p'"
proof -
  have same: "ps_root p = ps_root p0" "ps_config p = ps_config p0" "ps_reloadInterval p = ps_reloadInterval p0"
    and old: "\<And>name e. map_of (ps_cache p) name = Some e \<Longrightarrow>
      loaded_by p0 (seen @ [(fs, decision, now)]) name e"
    using assms(1) loaded_by_append by (auto simp: page_inv_def)
  have n: "page_name p decision = page_name p0 decision" "loaded_page fs p decision = loaded_page fs p0 decision"
    using same page_name_cong loaded_page_cong by metis+
  have "loaded_by p0 (seen @ [(fs, decision, now)]) (page_name p0 decision)
      \<lparr>pe_content = loaded_page fs p0 decision, pe_nextCheck = now + ps_reloadInterval p0\<rparr>"
    unfolding loaded_by_def by (intro exI [of _ fs] exI [of _ decision] exI [of _ now]) simp
  with assms(2) same old show ?thesis
    unfolding page_eq n
    by (auto simp: page_inv_def map_of_update_if split: option.splits if_splits)
qed

lemma page_step_recent:
  assumes "page_inv p0 seen p" "page fs p decision now = (c, p')"
  shows "\<exists>fs0 d0 t0. (fs0, d0, t0) \<in> set (seen @ [(fs, decision, now)])
       \<and> page_name p0 d0 = page_name p0 decision \<and> c = loaded_page fs0 p0 d0
       \<and> (now < t0 + ps_reloadInterval p0 \<or> (fs0, d0, t0) = (fs, decision, now))"
proof -
  let ?n = "page_name p0 decision"
  have same: "ps_root p = ps_root p0" "ps_config p = ps_config p0" "ps_reloadInterval p = ps_reloadInterval p0"
    and old: "\<And>name e. map_of (ps_cache p) name = Some e \<Longrightarrow> loaded_by p0 seen name e"
    using assms(1) by (auto simp: page_inv_def)
  have n: "page_name p decision = ?n" "loaded_page fs p decision = loaded_page fs p0 decision"
    using same page_name_cong loaded_page_cong by metis+
  consider (hit) e where "map_of (ps_cache p) ?n = Some e" "now < pe_nextCheck e" "c = pe_content e"
    | (miss) "c = loaded_page fs p0 decision"
    using assms(2) unfolding page_eq n by (auto split: option.splits if_splits)
  then show ?thesis
  proof cases
    case hit
    from old [OF hit(1)] obtain fs0 d0 t0 where "(fs0, d0, t0) \<in> set seen" "page_name p0 d0 = ?n"
        "pe_content e = loaded_page fs0 p0 d0" "pe_nextCheck e = t0 + ps_reloadInterval p0"
      unfolding loaded_by_def by blast
    with hit show ?thesis
      by (intro exI [of _ fs0] exI [of _ d0] exI [of _ t0]) simp
  next
    case miss
    then show ?thesis
      by (intro exI [of _ fs] exI [of _ decision] exI [of _ now]) simp
  qed
qed

lemma page_op_apply: "page_op p (fs, d, now) = prod.swap (page fs p d now)"
  by (simp add: page_op_def)

lemma page_run_inv: "page_inv p0 [] p0 \<Longrightarrow> page_inv p0 ops (fst (run_ops page_op p0 ops))"
proof (induction ops rule: rev_induct)
  case (snoc x ops)
  obtain fs d now where x: "x = (fs, d, now)" by (cases x)
  obtain c p' where "page fs (fst (run_ops page_op p0 ops)) d now = (c, p')" by fastforce
  with page_step_inv [OF snoc.IH [OF snoc.prems] this] x show ?case
    by (simp add: run_ops_append page_op_apply)
qed simp

text \<open>
  C29. A page is never older than the reload interval. Whatever pages a store has served before, the
  text it serves next is what loading its page gave (the file, or the built-in page where that
  failed), in this call or in an earlier one less than a reload interval ago.
\<close>

theorem served_page_is_recent:
  "\<exists>fs0 d0 t0. (fs0, d0, t0) \<in> set (ops @ [(fs, decision, now)])
     \<and> page_name (newPageStore config root interval) d0 = page_name (newPageStore config root interval) decision
     \<and> fst (page fs (fst (run_ops page_op (newPageStore config root interval) ops)) decision now)
       = loaded_page fs0 (newPageStore config root interval) d0
     \<and> (now < t0 + interval \<or> (fs0, d0, t0) = (fs, decision, now))"
proof -
  let ?p0 = "newPageStore config root interval"
  have "page_inv ?p0 [] ?p0" by (simp add: page_inv_def newPageStore_def)
  note inv = page_run_inv [OF this, of ops]
  obtain c p' where p: "page fs (fst (run_ops page_op ?p0 ops)) decision now = (c, p')" by fastforce
  have "ps_reloadInterval ?p0 = interval" by (simp add: newPageStore_def)
  with page_step_recent [OF inv p] p show ?thesis by simp
qed

section \<open>The challenge URL\<close>

lemma escape_query_chars:
  "set (escape EncodeQuery s) \<inter> {CHR ''&'', CHR '';'', CHR ''='', CHR ''?'', CHR 0x23} = {}"
proof (induction s)
  case (Cons c s)
  have d: "n < 16 \<Longrightarrow> upper_hex_digits ! n \<notin> {CHR ''&'', CHR '';'', CHR ''='', CHR ''?'', CHR 0x23}" for n
  proof -
    have "list_all (\<lambda>n. upper_hex_digits ! n \<notin> {CHR ''&'', CHR '';'', CHR ''='', CHR ''?'', CHR 0x23}) [0..<16]"
      by code_simp
    then show "n < 16 \<Longrightarrow> ?thesis" by (simp add: list_all_iff)
  qed
  have e: "list_all (should_escape EncodeQuery) [CHR ''&'', CHR '';'', CHR ''='', CHR ''?'', CHR 0x23]"
    by code_simp
  have l: "(of_char c :: nat) div 16 < 16" "(of_char c :: nat) mod 16 < 16"
    using of_char_less [of c] by (auto simp: div_less_iff_less_mult)
  from Cons e d [OF l(1)] d [OF l(2)] show ?case by auto
qed simp

lemma split_pair: "c \<notin> set w \<Longrightarrow> split c (w @ c # s) = w # split c s"
  by (rule split_append_sep)

lemma cut_pair: "c \<notin> set w \<Longrightarrow> cut c (w @ c # s) = (w, s, True)"
  by (induction w) auto

lemma query_pair_escaped:
  assumes "set name \<inter> {CHR ''&'', CHR '';'', CHR ''='', CHR ''%'', CHR ''+''} = {}"
  shows "query_pair (name @ CHR ''='' # escape EncodeQuery v) = [(name, v)]"
proof -
  have "unescape EncodeQuery name = Some name" using assms by (induction name) auto
  moreover have "CHR ''='' \<notin> set name" "CHR '';'' \<notin> set name" using assms by auto
  moreover have "CHR '';'' \<notin> set (escape EncodeQuery v)" using escape_query_chars [of v] by auto
  ultimately show ?thesis
    by (simp add: query_pair_def contains_char_def cut_pair unescape_escape_query)
qed

lemma challenge_query_parsed:
  "parse_query (challengeQuery response path) =
     [(''token'', r_challengeToken response), (''resource'', r_resourceID response),
      (''site'', r_siteID response), (''path'', path)]"
proof -
  let ?e = "escape EncodeQuery"
  have no: "CHR ''&'' \<notin> set (?e s)" for s using escape_query_chars [of s] by auto
  have n: "CHR ''&'' \<notin> set (''token'' @ CHR ''='' # ?e s)" "CHR ''&'' \<notin> set (''resource'' @ CHR ''='' # ?e s)"
    "CHR ''&'' \<notin> set (''site'' @ CHR ''='' # ?e s)" "CHR ''&'' \<notin> set (''path'' @ CHR ''='' # ?e s)" for s
    using no by simp_all
  have eq: "challengeQuery response path =
      (''token'' @ CHR ''='' # ?e (r_challengeToken response)) @ CHR ''&'' #
      (''resource'' @ CHR ''='' # ?e (r_resourceID response)) @ CHR ''&'' #
      (''site'' @ CHR ''='' # ?e (r_siteID response)) @ CHR ''&'' # (''path'' @ CHR ''='' # ?e path)"
    by (simp add: challengeQuery_def)
  have parts: "split CHR ''&'' (challengeQuery response path) =
      [''token'' @ CHR ''='' # ?e (r_challengeToken response),
       ''resource'' @ CHR ''='' # ?e (r_resourceID response),
       ''site'' @ CHR ''='' # ?e (r_siteID response), ''path'' @ CHR ''='' # ?e path]"
    unfolding eq split_pair [OF n(1)] split_pair [OF n(2)] split_pair [OF n(3)] split_plain [OF n(4)] ..
  have q: "query_pair (''token'' @ CHR ''='' # ?e s) = [(''token'', s)]"
    "query_pair (''resource'' @ CHR ''='' # ?e s) = [(''resource'', s)]"
    "query_pair (''site'' @ CHR ''='' # ?e s) = [(''site'', s)]"
    "query_pair (''path'' @ CHR ''='' # ?e s) = [(''path'', s)]" for s
    by (rule query_pair_escaped, simp)+
  show ?thesis unfolding parse_query_def parts list.map q by simp
qed

text \<open>
  C28. The challenge URL carries its fields. Parsing the query of the URL a challenge page is given
  returns the token, the resource, the site and the path it was made from, whatever bytes they
  hold.
\<close>

theorem challenge_url_roundtrip:
  "parse_query (challengeQuery response path) =
     [(''token'', r_challengeToken response), (''resource'', r_resourceID response),
      (''site'', r_siteID response), (''path'', path)]"
  by (rule challenge_query_parsed)

section \<open>The best quality\<close>

text \<open>The items of an \<open>Accept\<close> header that match a target, with their position and quality.\<close>

definition item_candidate :: "string \<Rightarrow> int \<times> string \<Rightarrow> (int \<times> quality) option" where
  "item_candidate target x =
     (case item_parts (snd x) of (mediaType, parameters) \<Rightarrow>
        if media_matches (split CHR ''/'' target) target mediaType
        then map_option (\<lambda>q. (fst x, q)) (item_quality parameters (Some (1, 0))) else None)"

fun number_items :: "int \<Rightarrow> string list \<Rightarrow> (int \<times> string) list" where
  "number_items n [] = []"
| "number_items n (item # items) = (n, item) # number_items (n + 1) items"

definition candidates :: "string \<Rightarrow> string \<Rightarrow> (int \<times> quality) list" where
  "candidates accept target = List.map_filter (item_candidate target) (number_items 0 (split CHR '','' accept))"

definition better :: "int \<times> quality \<Rightarrow> quality \<times> int \<Rightarrow> quality \<times> int" where
  "better c best = (if quality_less (fst best) (snd c) then (snd c, fst c) else best)"

lemma media_scan_fold:
  "media_scan target items n q i =
     fold better (List.map_filter (item_candidate target) (number_items n items)) (q, i)"
  by (induction items arbitrary: n q i)
    (auto simp: item_candidate_def better_def split: prod.split option.split)

text \<open>What the fold keeps: the best so far is the first of the greatest.\<close>

definition first_best :: "(int \<times> quality) list \<Rightarrow> quality \<times> int \<Rightarrow> bool" where
  "first_best cs best \<longleftrightarrow>
     (\<exists>xs ys. cs = xs @ (snd best, fst best) # ys
        \<and> list_all (\<lambda>c. quality_less (snd c) (fst best)) xs
        \<and> list_all (\<lambda>c. \<not> quality_less (fst best) (snd c)) ys)"

lemma first_best_snoc:
  assumes "first_best cs best"
  shows "first_best (cs @ [c]) (better c best)"
proof -
  obtain q i where b: "best = (q, i)" by (cases best)
  obtain j r where c: "c = (j, r)" by (cases c)
  obtain xs ys where s: "cs = xs @ (i, q) # ys" "list_all (\<lambda>c. quality_less (snd c) q) xs"
      "list_all (\<lambda>c. \<not> quality_less q (snd c)) ys"
    using assms b by (auto simp: first_best_def)
  show ?thesis
  proof (cases "quality_less q r")
    case False
    then have k: "better c best = (q, i)" using b c by (simp add: better_def)
    show ?thesis
      unfolding first_best_def k by (rule exI [of _ xs], rule exI [of _ "ys @ [c]"])
        (simp add: s c False)
  next
    case True
    have "\<And>x. quality_less x q \<Longrightarrow> quality_less x r" using True quality_less_trans by blast
    moreover have "\<And>x. \<not> quality_less q x \<Longrightarrow> quality_less x r"
      using True quality_not_less_less by blast
    ultimately have "list_all (\<lambda>c. quality_less (snd c) r) (xs @ (i, q) # ys)"
      using s(2,3) True unfolding list_all_iff set_append list.set by (metis Un_iff insert_iff snd_conv)
    moreover have k: "better c best = (r, j)" using b c True by (simp add: better_def)
    ultimately show ?thesis
      unfolding first_best_def k by (intro exI [of _ cs] exI [of _ "[]"]) (simp add: s(1) c)
  qed
qed

lemma fold_better:
  "first_best cs best \<Longrightarrow> first_best (cs @ ds) (fold better ds best)"
proof (induction ds arbitrary: cs best)
  case (Cons d ds)
  from Cons.IH [OF first_best_snoc [OF Cons.prems, of d]] show ?case by simp
qed simp

lemma item_quality_nonneg:
  "item_quality ps q0 = Some (m, k) \<Longrightarrow> (\<And>m k. q0 = Some (m, k) \<Longrightarrow> 0 \<le> m) \<Longrightarrow> 0 \<le> m"
proof (induction ps q0 rule: item_quality.induct)
  case (2 parameter parameters q)
  obtain name v ok where c: "cut CHR ''='' (trim_space parameter) = (name, v, ok)"
    by (metis prod_cases3)
  show ?case
  proof (cases "ok \<and> trim_space name = ''q''")
    case True
    let ?q = "case parse_quality (trim_space v) of QualityNaN \<Rightarrow> None
      | QualityNumber m k \<Rightarrow> Some (m, k) | QualityRejected \<Rightarrow> Some (0, 0)"
    have "?q = Some (m', k') \<Longrightarrow> 0 \<le> m'" for m' k'
      using parse_quality_nonneg [of "trim_space v" m' k'] by (auto split: parsedQuality.splits)
    moreover have "item_quality parameters ?q = Some (m, k)" using "2.prems"(1) c True by simp
    ultimately show ?thesis using "2.IH"(1) c True by simp
  next
    case False
    then have "item_quality parameters q = Some (m, k)" using "2.prems"(1) c by auto
    with "2.IH"(2) [OF c [symmetric] refl] False "2.prems"(2) show ?thesis by auto
  qed
qed simp

lemma candidates_nonneg: "(i, m, k) \<in> set (candidates accept target) \<Longrightarrow> 0 \<le> m"
proof -
  assume "(i, m, k) \<in> set (candidates accept target)"
  then obtain x where "item_candidate target x = Some (i, m, k)"
    by (auto simp: candidates_def List.map_filter_def)
  then show "0 \<le> m"
    by (auto simp: item_candidate_def split: prod.splits if_splits dest!: item_quality_nonneg)
qed



section \<open>Placeholders inside values\<close>

text \<open>
  HTML escaping leaves braces as they are, so a value may hold a placeholder, and the order in
  which Go ranges over the map then decides the page: with the request ID
  \<open>{{SOKOL_CSP_NONCE}}\<close>, which the client may send, the page holds the nonce or the placeholder.
\<close>

lemma template_depends_on_order:
  "fill_template id [(''{{SOKOL_REQUEST_ID}}'', html_escape ''{{SOKOL_CSP_NONCE}}''),
       (''{{SOKOL_CSP_NONCE}}'', ''bm9uY2U'')] ''ID: {{SOKOL_REQUEST_ID}}'' = ''ID: bm9uY2U''
   \<and> fill_template rev [(''{{SOKOL_REQUEST_ID}}'', html_escape ''{{SOKOL_CSP_NONCE}}''),
       (''{{SOKOL_CSP_NONCE}}'', ''bm9uY2U'')] ''ID: {{SOKOL_REQUEST_ID}}'' = ''ID: {{SOKOL_CSP_NONCE}}''"
  by code_simp

end
