(* ===== verification/ProviderRanges.thy ===== *)
theory ProviderRanges
  imports GoURL GoHttp
begin

text \<open>
  The CDN provider ranges (\<open>provider_ranges.go\<close>): the store of last-known-good source snapshots,
  the classification of an address, the parsing of the published lists, the updater that fetches
  them and its start. The network is a function from the request of a source to its reply, and
  \<open>encoding/xml\<close> a function from the bytes of a document to what it decodes. \<open>normalizeIP\<close> of
  \<open>client_ip.go\<close> is defined here because the store calls it.
\<close>

definition normalizeIP :: "ip \<Rightarrow> ip" where
  "normalizeIP ip =
     (case to4 ip of
        Some v4 \<Rightarrow> [v4 ! 0, v4 ! 1, v4 ! 2, v4 ! 3]
      | None \<Rightarrow> (case to16 ip of Some x \<Rightarrow> x | None \<Rightarrow> []))"

definition providerRefreshInterval :: duration where "providerRefreshInterval = 6 * hour"
definition providerMaximumStaleAge :: duration where "providerMaximumStaleAge = 48 * hour"
definition providerFetchTimeout :: duration where "providerFetchTimeout = 10 * second"
definition providerMaximumBytes :: int where "providerMaximumBytes = 2097152"
definition providerMaximumRanges :: int where "providerMaximumRanges = 8192"

datatype providerKind = ProviderNone | ProviderCloudflare | ProviderBunny

datatype providerSourceFormat = ProviderSourcePlain | ProviderSourceXML

record providerSource =
  ps_name :: string
  ps_provider :: providerKind
  ps_url :: string
  ps_format :: providerSourceFormat

definition defaultProviderSources :: "providerSource list" where
  "defaultProviderSources =
     [\<lparr>ps_name = ''cloudflare-ipv4'', ps_provider = ProviderCloudflare,
        ps_url = ''https://www.cloudflare.com/ips-v4'', ps_format = ProviderSourcePlain\<rparr>,
      \<lparr>ps_name = ''cloudflare-ipv6'', ps_provider = ProviderCloudflare,
        ps_url = ''https://www.cloudflare.com/ips-v6'', ps_format = ProviderSourcePlain\<rparr>,
      \<lparr>ps_name = ''bunny-edges'', ps_provider = ProviderBunny,
        ps_url = ''https://bunnycdn.com/api/system/edgeserverlist'', ps_format = ProviderSourceXML\<rparr>,
      \<lparr>ps_name = ''bunny-nodes'', ps_provider = ProviderBunny,
        ps_url = ''https://api.bunny.net/mc/nodes/plain'', ps_format = ProviderSourcePlain\<rparr>]"

section \<open>The store\<close>

record providerSourceState =
  s_provider :: providerKind
  s_networks :: "ipNet list"
  s_updatedAt :: gotime

record providerRangeStore =
  maximumStaleAge :: duration
  sources :: "providerSourceState gomap"

definition newProviderRangeStore :: "duration \<Rightarrow> providerRangeStore" where
  "newProviderRangeStore age = \<lparr>maximumStaleAge = age, sources = []\<rparr>"

definition store_replace ::
    "providerRangeStore \<Rightarrow> string \<Rightarrow> providerKind \<Rightarrow> ipNet list \<Rightarrow> gotime \<Rightarrow> providerRangeStore" where
  "store_replace store name provider networks updatedAt =
     store\<lparr>sources := AList.update name
       \<lparr>s_provider = provider, s_networks = networks, s_updatedAt = updatedAt\<rparr> (sources store)\<rparr>"

text \<open>
  The loop of \<open>providerFor\<close> over the sources, in the order the keys are given: the flags say
  whether a Cloudflare and a Bunny source has matched.
\<close>

fun scan_sources ::
    "providerRangeStore \<Rightarrow> ip \<Rightarrow> gotime \<Rightarrow> string list \<Rightarrow> bool \<times> bool \<Rightarrow> bool \<times> bool" where
  "scan_sources store ip now [] flags = flags"
| "scan_sources store ip now (name # names) (cloudflare, bunny) =
     (case map_of (sources store) name of
        None \<Rightarrow> scan_sources store ip now names (cloudflare, bunny)
      | Some source \<Rightarrow>
          if maximumStaleAge store < now - s_updatedAt source
          then scan_sources store ip now names (cloudflare, bunny)
          else if list_ex (\<lambda>n. net_contains n ip) (s_networks source)
          then scan_sources store ip now names
                 (cloudflare \<or> s_provider source = ProviderCloudflare,
                  bunny \<or> s_provider source = ProviderBunny)
          else scan_sources store ip now names (cloudflare, bunny))"

definition classify :: "bool \<times> bool \<Rightarrow> providerKind \<times> bool" where
  "classify flags = (case flags of (cloudflare, bunny) \<Rightarrow>
     if cloudflare \<and> bunny then (ProviderNone, True)
     else if cloudflare then (ProviderCloudflare, False)
     else if bunny then (ProviderBunny, False)
     else (ProviderNone, False))"

text \<open>\<open>providerFor\<close>: the provider of an address, and whether the lists disagree.\<close>

definition providerFor :: "providerRangeStore option \<Rightarrow> ip \<Rightarrow> gotime \<Rightarrow> providerKind \<times> bool" where
  "providerFor store ip now =
     (case store of
        None \<Rightarrow> (ProviderNone, False)
      | Some st \<Rightarrow>
          classify (scan_sources st (normalizeIP ip) now (keys (sources st)) (False, False)))"

section \<open>Lists of ranges\<close>

text \<open>The lines of the plain format; \<open>bufio.Scanner\<close> fails on a line of 64 KiB or more.\<close>

definition parsePlainProviderValues :: "string \<Rightarrow> string list option" where
  "parsePlainProviderValues data =
     (let ls = split CHR 0x0A data in
      if list_ex (\<lambda>l. 65536 \<le> int (length l)) ls then None
      else Some (filter (\<lambda>v. v \<noteq> []) (map trim_space ls)))"

text \<open>
  The XML format. The decoder gives an error or the root element's local name and the text of its
  \<open>string\<close> children.
\<close>

type_synonym xmlDecoder = "string \<Rightarrow> (string \<times> string list) option"

definition parseXMLProviderValues :: "xmlDecoder \<Rightarrow> string \<Rightarrow> string list option" where
  "parseXMLProviderValues decode data =
     (case decode data of
        None \<Rightarrow> None
      | Some (root, values) \<Rightarrow>
          if root \<noteq> ''ArrayOfstring'' then None else Some (map trim_space values))"

definition publicProviderIP :: "ip \<Rightarrow> bool" where
  "publicProviderIP ip \<longleftrightarrow>
     ip \<noteq> [] \<and> is_global_unicast ip \<and> \<not> is_private ip \<and> \<not> is_loopback ip
     \<and> \<not> is_link_local_unicast ip \<and> \<not> is_link_local_multicast ip"

text \<open>The network of one listed value, as a range or as a single address.\<close>

definition provider_network :: "string \<Rightarrow> ipNet option" where
  "provider_network value =
     (case parse_cidr value of
        Some (ip, network) \<Rightarrow>
          Some (network\<lparr>net_ip := normalizeIP
            (case ip_mask ip (net_mask network) of Some x \<Rightarrow> x | None \<Rightarrow> [])\<rparr>)
      | None \<Rightarrow>
          (case parse_ip value of
             None \<Rightarrow> None
           | Some ip \<Rightarrow>
               let ip' = normalizeIP ip in
               Some (if to4 ip' \<noteq> None then \<lparr>net_ip = ip', net_mask = cidr_mask 32 4\<rparr>
                     else \<lparr>net_ip = ip', net_mask = cidr_mask 128 16\<rparr>)))"

fun collect_networks :: "string list \<Rightarrow> string list \<Rightarrow> ipNet list \<Rightarrow> ipNet list option" where
  "collect_networks [] seen networks = Some networks"
| "collect_networks (value # values) seen networks =
     (case provider_network value of
        None \<Rightarrow> None
      | Some network \<Rightarrow>
          if \<not> publicProviderIP (net_ip network) then None
          else if net_string network \<in> set seen then collect_networks values seen networks
          else collect_networks values (net_string network # seen) (networks @ [network]))"

definition parseProviderNetworks :: "string list \<Rightarrow> ipNet list option" where
  "parseProviderNetworks values =
     (if values = [] then None
      else if providerMaximumRanges < int (length values) then None
      else case collect_networks values [] [] of
        None \<Rightarrow> None
      | Some networks \<Rightarrow> if networks = [] then None else Some networks)"

section \<open>Refresh\<close>

text \<open>The updater: what its HTTP client allows, and the sources it asks.\<close>

record providerRangeUpdater =
  up_timeout :: duration
  up_http2 :: bool
  up_tlsHandshakeTimeout :: duration
  up_responseHeaderTimeout :: duration
  up_idleConnTimeout :: duration
  up_followsRedirects :: bool
  up_sources :: "providerSource list"

definition newDefaultProviderRangeUpdater :: providerRangeUpdater where
  "newDefaultProviderRangeUpdater =
     \<lparr>up_timeout = providerFetchTimeout, up_http2 = True, up_tlsHandshakeTimeout = 5 * second,
      up_responseHeaderTimeout = 5 * second, up_idleConnTimeout = 30 * second,
      up_followsRedirects = False, up_sources = defaultProviderSources\<rparr>"

text \<open>The request for a source, which is a \<open>GET\<close> without a body, and what the client delivers for it.\<close>

record providerRequest =
  pq_url :: string
  pq_headers :: "(string \<times> string) list"

datatype fetchReply = FetchFailed | FetchReply (fr_status: int) (fr_body: bodyReader)

type_synonym providerNetwork = "providerRequest \<Rightarrow> fetchReply"

definition fetch :: "xmlDecoder \<Rightarrow> providerNetwork \<Rightarrow> providerSource \<Rightarrow> ipNet list option" where
  "fetch decode network source =
     (if url_parse (ps_url source) = None then None
      else case network \<lparr>pq_url = ps_url source,
             pq_headers = [(''Accept'', ''text/plain, application/xml, text/xml''),
               (''User-Agent'', ''sokol-traefik-plugin/provider-ranges'')]\<rparr> of
        FetchFailed \<Rightarrow> None
      | FetchReply status body \<Rightarrow>
          if status \<noteq> 200 then None
          else let data = take (nat (providerMaximumBytes + 1)) (b_bytes body) in
            if int (length data) \<le> providerMaximumBytes \<and> b_fails body then None
            else if providerMaximumBytes < int (length data) then None
            else (case (case ps_format source of
                          ProviderSourcePlain \<Rightarrow> parsePlainProviderValues data
                        | ProviderSourceXML \<Rightarrow> parseXMLProviderValues decode data) of
                    None \<Rightarrow> None
                  | Some values \<Rightarrow> parseProviderNetworks values))"

text \<open>One refresh at \<open>now\<close>.\<close>

fun refresh ::
    "xmlDecoder \<Rightarrow> providerSource list \<Rightarrow> providerNetwork \<Rightarrow> gotime \<Rightarrow> providerRangeStore
       \<Rightarrow> providerRangeStore" where
  "refresh decode [] network now store = store"
| "refresh decode (source # rest) network now store =
     refresh decode rest network now
       (case fetch decode network source of
          None \<Rightarrow> store
        | Some networks \<Rightarrow> store_replace store (ps_name source) (ps_provider source) networks now)"

text \<open>
  The refreshes a run of the updater performs, one at the start and one per tick of the clock, with
  the network as each finds it; the run ends when its context is cancelled.
\<close>

fun updater_run ::
    "xmlDecoder \<Rightarrow> providerSource list \<Rightarrow> (gotime \<times> providerNetwork) list \<Rightarrow> providerRangeStore
       \<Rightarrow> providerRangeStore" where
  "updater_run decode srcs [] store = store"
| "updater_run decode srcs ((now, network) # ticks) store =
     updater_run decode srcs ticks (refresh decode srcs network now store)"

text \<open>
  The start. The process has one store and one \<open>sync.Once\<close>; \<open>cancelled\<close> says that there is a context
  and it has an error. The result is the \<open>Once\<close> and the updater that starts to run, if one does.
\<close>

definition defaultProviderStore :: providerRangeStore where
  "defaultProviderStore = newProviderRangeStore providerMaximumStaleAge"

definition startDefaultProviderRefresh :: "bool \<Rightarrow> bool \<Rightarrow> bool \<times> providerRangeUpdater option" where
  "startDefaultProviderRefresh cancelled refreshed =
     (if cancelled then (refreshed, None)
      else if refreshed then (True, None) else (True, Some newDefaultProviderRangeUpdater))"

section \<open>Classification\<close>

lemma normalizeIP_to4: "length b = 4 \<Longrightarrow> [b ! 0, b ! 1, b ! 2, b ! 3] = b"
  by (auto simp: numeral_eq_Suc length_Suc_conv)

lemma normalizeIP_eq:
  "normalizeIP ip = (case to4 ip of Some x \<Rightarrow> x | None \<Rightarrow> (if length ip = 16 then ip else []))"
proof (cases "to4 ip")
  case None
  then show ?thesis by (auto simp: normalizeIP_def to16_def to4_def split: if_splits)
next
  case (Some x)
  then show ?thesis using normalizeIP_to4 [OF to4_length] by (simp add: normalizeIP_def)
qed

lemma normalizeIP_idem [simp]: "normalizeIP (normalizeIP ip) = normalizeIP ip"
  by (auto simp: normalizeIP_eq to4_def split: option.split)

lemma normalizeIP_length: "length (normalizeIP ip) \<in> {0, 4, 16}"
  by (auto simp: normalizeIP_eq to4_def split: option.split)

lemma normalizeIP_parsed: "parse_ip s = Some ip \<Longrightarrow> length (normalizeIP ip) \<in> {4, 16}"
  by (drule parse_ip_length) (auto simp: normalizeIP_eq to4_def split: option.split)

text \<open>Some source of the provider that is not stale has a range with the address.\<close>

definition listed_by :: "providerRangeStore \<Rightarrow> ip \<Rightarrow> gotime \<Rightarrow> providerKind \<Rightarrow> bool" where
  "listed_by st ip now p \<longleftrightarrow>
     (\<exists>name source. map_of (sources st) name = Some source \<and> s_provider source = p
        \<and> now - s_updatedAt source \<le> maximumStaleAge st
        \<and> (\<exists>n \<in> set (s_networks source). net_contains n (normalizeIP ip)))"

lemma scan_sources_listed:
  "scan_sources st ip now names (c, b) =
     (c \<or> (\<exists>name \<in> set names. \<exists>source. map_of (sources st) name = Some source
         \<and> s_provider source = ProviderCloudflare
         \<and> now - s_updatedAt source \<le> maximumStaleAge st
         \<and> (\<exists>n \<in> set (s_networks source). net_contains n ip)),
      b \<or> (\<exists>name \<in> set names. \<exists>source. map_of (sources st) name = Some source
         \<and> s_provider source = ProviderBunny
         \<and> now - s_updatedAt source \<le> maximumStaleAge st
         \<and> (\<exists>n \<in> set (s_networks source). net_contains n ip)))"
proof (induction names arbitrary: c b)
  case Nil
  then show ?case by simp
next
  case (Cons name names)
  show ?case
  proof (cases "map_of (sources st) name")
    case None
    then show ?thesis by (simp add: Cons.IH)
  next
    case (Some source)
    show ?thesis
    proof (cases "maximumStaleAge st < now - s_updatedAt source
        \<or> \<not> list_ex (\<lambda>n. net_contains n ip) (s_networks source)")
      case True
      then have "\<not> (now - s_updatedAt source \<le> maximumStaleAge st
          \<and> (\<exists>n \<in> set (s_networks source). net_contains n ip))"
        by (auto simp: list_ex_iff)
      with True Some show ?thesis by (auto simp: Cons.IH)
    next
      case False
      then have "now - s_updatedAt source \<le> maximumStaleAge st
          \<and> (\<exists>n \<in> set (s_networks source). net_contains n ip)"
        by (auto simp: list_ex_iff)
      with False Some show ?thesis by (auto simp: Cons.IH)
    qed
  qed
qed

text \<open>Any order that visits every source gives the same flags.\<close>

lemma scan_sources_order:
  assumes "set names = set (keys (sources st))"
  shows "scan_sources st (normalizeIP ip) now names (False, False)
       = (listed_by st ip now ProviderCloudflare, listed_by st ip now ProviderBunny)"
proof -
  have "name \<in> set names" if "map_of (sources st) name = Some s" for name s
    using that assms map_of_SomeD_keys by metis
  then show ?thesis unfolding scan_sources_listed listed_by_def by blast
qed

lemma providerFor_listed:
  "providerFor (Some st) ip now =
     classify (listed_by st ip now ProviderCloudflare, listed_by st ip now ProviderBunny)"
  by (simp add: providerFor_def scan_sources_order)

lemma providerFor_normalize [simp]: "providerFor store (normalizeIP ip) now = providerFor store ip now"
  by (simp add: providerFor_def split: option.split)

lemma providerFor_cases:
  "providerFor store ip now \<in> {(ProviderNone, False), (ProviderNone, True),
     (ProviderCloudflare, False), (ProviderBunny, False)}"
  by (cases store) (auto simp: providerFor_def classify_def split: prod.split)

section \<open>Refresh\<close>

lemma store_replace_age [simp]: "maximumStaleAge (store_replace st n p ns t) = maximumStaleAge st"
  by (simp add: store_replace_def)

lemma refresh_age [simp]: "maximumStaleAge (refresh dec srcs reply now st) = maximumStaleAge st"
  by (induction srcs arbitrary: st) (auto split: option.split)

lemma updater_age [simp]: "maximumStaleAge (updater_run dec srcs ticks st) = maximumStaleAge st"
  by (induction ticks arbitrary: st) auto

lemma refresh_lookup:
  assumes "distinct (map ps_name srcs)"
  shows "map_of (sources (refresh dec srcs reply now st)) name =
    (case find (\<lambda>s. ps_name s = name \<and> fetch dec reply s \<noteq> None) srcs of
       None \<Rightarrow> map_of (sources st) name
     | Some s \<Rightarrow> Some \<lparr>s_provider = ps_provider s, s_networks = the (fetch dec reply s),
         s_updatedAt = now\<rparr>)"
  using assms
proof (induction srcs arbitrary: st)
  case Nil
  then show ?case by simp
next
  case (Cons s srcs)
  have "find (\<lambda>x. ps_name x = ps_name s \<and> fetch dec reply x \<noteq> None) srcs = None"
    using Cons.prems by (auto simp: find_None_iff image_iff)
  with Cons show ?case
    by (cases "fetch dec reply s") (auto simp: store_replace_def map_of_update_if split: option.split)
qed

text \<open>A source whose refreshes all fail keeps its snapshot.\<close>

lemma updater_failed_source:
  assumes "distinct (map ps_name srcs)"
    and "\<forall>(now, reply) \<in> set ticks. \<forall>s \<in> set srcs. ps_name s = name \<longrightarrow> fetch dec reply s = None"
  shows "map_of (sources (updater_run dec srcs ticks st)) name = map_of (sources st) name"
  using assms(2)
proof (induction ticks arbitrary: st)
  case Nil
  then show ?case by simp
next
  case (Cons x ticks)
  obtain now reply where x: "x = (now, reply)" by (cases x)
  with Cons.prems have "find (\<lambda>s. ps_name s = name \<and> fetch dec reply s \<noteq> None) srcs = None"
    by (auto simp: find_None_iff)
  with Cons x refresh_lookup [OF assms(1), of dec reply now st name] show ?case by simp
qed

section \<open>Parsing\<close>

lemma collect_networks_defined:
  "collect_networks values seen networks \<noteq> None \<longleftrightarrow>
     (\<forall>v \<in> set values. \<exists>n. provider_network v = Some n \<and> publicProviderIP (net_ip n))"
  by (induction "values" arbitrary: seen networks) (auto split: option.split)

text \<open>The result holds one network for each different text form among the listed values.\<close>

lemma collect_networks_result:
  "collect_networks values seen networks = Some out \<Longrightarrow> set seen = net_string ` set networks \<Longrightarrow>
     distinct (map net_string networks) \<Longrightarrow>
     distinct (map net_string out)
     \<and> net_string ` set out =
         net_string ` set networks \<union> (\<lambda>v. net_string (the (provider_network v))) ` set values
     \<and> (\<forall>n \<in> set out. n \<in> set networks \<or> (\<exists>v \<in> set values. provider_network v = Some n))"
proof (induction "values" arbitrary: seen networks)
  case Nil
  then show ?case by simp
next
  case (Cons v vs)
  then obtain n where n: "provider_network v = Some n" "publicProviderIP (net_ip n)"
    by (auto split: option.splits if_splits)
  show ?case
  proof (cases "net_string n \<in> set seen")
    case True
    with Cons n show ?thesis by (auto simp: insert_absorb)
  next
    case False
    then show ?thesis
      using Cons.IH [of "net_string n # seen" "networks @ [n]"] Cons.prems n by auto
  qed
qed

section \<open>Properties\<close>

text \<open>
  C31. Classification. Whatever order the sources are visited in, an address belongs to a provider
  exactly when a source of that provider that is not older than the maximal age has a range with
  it and no such source of the other provider has; when both have one, the answer is no provider
  and the ambiguity is reported.
\<close>

theorem providerFor_classifies:
  assumes "set names = set (keys (sources st))"
  shows "classify (scan_sources st (normalizeIP ip) now names (False, False)) = providerFor (Some st) ip now
     \<and> (providerFor (Some st) ip now = (ProviderCloudflare, False)
          \<longleftrightarrow> listed_by st ip now ProviderCloudflare \<and> \<not> listed_by st ip now ProviderBunny)
     \<and> (providerFor (Some st) ip now = (ProviderBunny, False)
          \<longleftrightarrow> listed_by st ip now ProviderBunny \<and> \<not> listed_by st ip now ProviderCloudflare)
     \<and> (providerFor (Some st) ip now = (ProviderNone, True)
          \<longleftrightarrow> listed_by st ip now ProviderBunny \<and> listed_by st ip now ProviderCloudflare)"
  using scan_sources_order [OF assms] by (auto simp: providerFor_listed classify_def)

definition exampleStore :: providerRangeStore where
  "exampleStore = \<lparr>maximumStaleAge = providerMaximumStaleAge,
     sources = [(''cloudflare-ipv4'', \<lparr>s_provider = ProviderCloudflare,
        s_networks = [\<lparr>net_ip = [104, 16, 0, 0], net_mask = [255, 248, 0, 0]\<rparr>], s_updatedAt = 1\<rparr>)]\<rparr>"

theorem providerFor_classifies_witness:
  "classify (scan_sources exampleStore (normalizeIP [104, 17, 0, 1]) 5 [''cloudflare-ipv4''] (False, False))
     = providerFor (Some exampleStore) [104, 17, 0, 1] 5
   \<and> providerFor (Some exampleStore) [104, 17, 0, 1] 5 = (ProviderCloudflare, False)"
proof -
  have k: "set [''cloudflare-ipv4''] = set (keys (sources exampleStore))"
    by (simp add: exampleStore_def)
  have p: "providerFor (Some exampleStore) [104, 17, 0, 1] 5 = (ProviderCloudflare, False)"
    by code_simp
  from providerFor_classifies [OF k, of "[104, 17, 0, 1]" 5] p show ?thesis by blast
qed

text \<open>
  C32. Last known good. After a refresh that fetched a source successfully, and any number of later
  refreshes in which that source failed, the store holds exactly the networks of the successful
  one with its time, whatever happened to the other sources.
\<close>

theorem refresh_keeps_last_known_good:
  assumes "distinct (map ps_name srcs)" and "s \<in> set srcs" and "fetch dec reply s = Some networks"
    and "\<forall>(now, reply') \<in> set later. fetch dec reply' s = None"
  shows "map_of (sources (updater_run dec srcs (earlier @ [(t, reply)] @ later) st)) (ps_name s)
     = Some \<lparr>s_provider = ps_provider s, s_networks = networks, s_updatedAt = t\<rparr>"
proof -
  have split: "updater_run dec srcs (xs @ ys) st = updater_run dec srcs ys (updater_run dec srcs xs st)" for xs ys st
    by (induction xs arbitrary: st) auto
  have same: "s' = s" if "s' \<in> set srcs" "ps_name s' = ps_name s" for s'
    using that assms(1,2) by (auto simp: distinct_map inj_on_def)
  have "find (\<lambda>x. ps_name x = ps_name s \<and> fetch dec reply x \<noteq> None) srcs = Some s"
  proof (cases "find (\<lambda>x. ps_name x = ps_name s \<and> fetch dec reply x \<noteq> None) srcs")
    case None
    with assms(2,3) show ?thesis by (auto simp: find_None_iff)
  next
    case (Some s')
    then have "s' \<in> set srcs" "ps_name s' = ps_name s"
      by (auto simp: find_Some_iff)
    with same Some show ?thesis by simp
  qed
  then have "map_of (sources (refresh dec srcs reply t st')) (ps_name s)
      = Some \<lparr>s_provider = ps_provider s, s_networks = networks, s_updatedAt = t\<rparr>" for st'
    using refresh_lookup [OF assms(1), of dec reply t st' "ps_name s"] assms(3) by simp
  moreover have "\<forall>(now, reply') \<in> set later. \<forall>s' \<in> set srcs. ps_name s' = ps_name s \<longrightarrow> fetch dec reply' s' = None"
    using assms(4) same by fastforce
  ultimately show ?thesis
    by (simp add: split updater_failed_source [OF assms(1)])
qed

definition exampleSource :: providerSource where
  "exampleSource = \<lparr>ps_name = ''cloudflare-ipv4'', ps_provider = ProviderCloudflare,
     ps_url = ''https://www.cloudflare.com/ips-v4'', ps_format = ProviderSourcePlain\<rparr>"

definition exampleXml :: xmlDecoder where "exampleXml data = None"

definition exampleList :: providerNetwork where
  "exampleList request = FetchReply 200 \<lparr>b_bytes = ''104.16.0.0/13'', b_fails = False\<rparr>"

lemma exampleList_fetched:
  "fetch exampleXml exampleList exampleSource = Some [\<lparr>net_ip = [104, 16, 0, 0], net_mask = [255, 248, 0, 0]\<rparr>]"
proof -
  have "url_parse ''https://www.cloudflare.com/ips-v4'' \<noteq> None"
    "parsePlainProviderValues ''104.16.0.0/13'' = Some [''104.16.0.0/13'']"
    "parseProviderNetworks [''104.16.0.0/13''] = Some [\<lparr>net_ip = [104, 16, 0, 0], net_mask = [255, 248, 0, 0]\<rparr>]"
    by code_simp+
  then show ?thesis
    by (simp add: fetch_def exampleList_def exampleSource_def providerMaximumBytes_def)
qed

theorem refresh_keeps_last_known_good_witness:
  "map_of (sources (updater_run exampleXml [exampleSource] ([] @ [(10, exampleList)] @ [(20, \<lambda>_. FetchFailed)])
      (newProviderRangeStore 100))) (ps_name exampleSource)
     = Some \<lparr>s_provider = ps_provider exampleSource,
         s_networks = [\<lparr>net_ip = [104, 16, 0, 0], net_mask = [255, 248, 0, 0]\<rparr>], s_updatedAt = 10\<rparr>"
  by (rule refresh_keeps_last_known_good [OF _ _ exampleList_fetched]) (simp_all add: fetch_def)

text \<open>
  It fails closed. When every snapshot in the store was taken more than the maximal age before
  a request and all refreshes since have failed, no address is recognized as a provider's.
\<close>

lemma stale_ranges_are_ignored:
  assumes "distinct (map ps_name srcs)"
    and "\<forall>(now, reply) \<in> set ticks. \<forall>s \<in> set srcs. fetch dec reply s = None"
    and "\<forall>name source. map_of (sources st) name = Some source
          \<longrightarrow> s_updatedAt source + maximumStaleAge st < now"
  shows "providerFor (Some (updater_run dec srcs ticks st)) ip now = (ProviderNone, False)"
proof -
  have "map_of (sources (updater_run dec srcs ticks st)) name = map_of (sources st) name" for name
    using assms(2) by (intro updater_failed_source [OF assms(1)]) auto
  then have "\<not> listed_by (updater_run dec srcs ticks st) ip now p" for p
    using assms(3) unfolding listed_by_def by fastforce
  then show ?thesis by (simp add: providerFor_listed classify_def)
qed

lemma stale_ranges_are_ignored_witness:
  "providerFor (Some (updater_run exampleXml [exampleSource] [(100, \<lambda>_. FetchFailed)] exampleStore))
     [104, 17, 0, 1] (2 + providerMaximumStaleAge) = (ProviderNone, False)"
  by (rule stale_ranges_are_ignored)
    (simp_all add: exampleSource_def exampleStore_def fetch_def)

text \<open>
  C33. What a list parses to. A published list is accepted exactly when it is not empty, has at most
  8192 values, and every value is an address or a network with a public base address; the other
  addresses of a network are not checked. The result
  is not empty, holds each network once (by its text form), and represents every listed value.
\<close>

theorem parseProviderNetworks_accepts:
  "(parseProviderNetworks vs \<noteq> None \<longleftrightarrow>
      vs \<noteq> [] \<and> int (length vs) \<le> 8192
      \<and> (\<forall>v \<in> set vs. \<exists>n. provider_network v = Some n \<and> publicProviderIP (net_ip n)))
   \<and> (\<forall>networks. parseProviderNetworks vs = Some networks \<longrightarrow>
      networks \<noteq> [] \<and> distinct (map net_string networks)
      \<and> (\<forall>n \<in> set networks. \<exists>v \<in> set vs. provider_network v = Some n \<and> publicProviderIP (net_ip n))
      \<and> (\<forall>v \<in> set vs. \<exists>n \<in> set networks. net_string n = net_string (the (provider_network v))))"
proof -
  note def = collect_networks_defined [of vs "[]" "[]"]
  have res: "networks \<noteq> []" "distinct (map net_string networks)"
      "\<forall>n \<in> set networks. \<exists>v \<in> set vs. provider_network v = Some n"
      "\<forall>v \<in> set vs. \<exists>n \<in> set networks. net_string n = net_string (the (provider_network v))"
    if "collect_networks vs [] [] = Some networks" "vs \<noteq> []" for networks
  proof -
    from collect_networks_result [OF that(1)]
    have r: "distinct (map net_string networks)"
        "net_string ` set networks = (\<lambda>v. net_string (the (provider_network v))) ` set vs"
        "\<forall>n \<in> set networks. \<exists>v \<in> set vs. provider_network v = Some n" by auto
    from r(2) that(2) show "networks \<noteq> []" by auto
    from r(1,3) show "distinct (map net_string networks)"
        "\<forall>n \<in> set networks. \<exists>v \<in> set vs. provider_network v = Some n" by auto
    show "\<forall>v \<in> set vs. \<exists>n \<in> set networks. net_string n = net_string (the (provider_network v))"
    proof
      fix v assume "v \<in> set vs"
      then have "net_string (the (provider_network v)) \<in> net_string ` set networks"
        using r(2) by blast
      then show "\<exists>n \<in> set networks. net_string n = net_string (the (provider_network v))"
        by (metis imageE)
    qed
  qed
  show ?thesis
  proof (cases "collect_networks vs [] []")
    case None
    with def show ?thesis by (auto simp: parseProviderNetworks_def providerMaximumRanges_def)
  next
    case (Some networks)
    with def have valid: "\<forall>v \<in> set vs. \<exists>n. provider_network v = Some n \<and> publicProviderIP (net_ip n)"
      by simp
    show ?thesis
    proof (cases "vs = []")
      case True
      then show ?thesis by (simp add: parseProviderNetworks_def)
    next
      case False
      note res' = res [OF Some False]
      have "\<forall>n \<in> set networks. \<exists>v \<in> set vs. provider_network v = Some n \<and> publicProviderIP (net_ip n)"
        using res'(3) valid by (metis option.inject)
      with Some False valid res' show ?thesis
        by (auto simp: parseProviderNetworks_def providerMaximumRanges_def)
    qed
  qed
qed

theorem parseProviderNetworks_accepts_witness:
  "\<exists>networks. parseProviderNetworks [''104.16.0.0/13''] = Some networks \<and> networks \<noteq> []"
proof -
  have "provider_network ''104.16.0.0/13''
      = Some \<lparr>net_ip = [104, 16, 0, 0], net_mask = [255, 248, 0, 0]\<rparr>" by code_simp
  moreover have "publicProviderIP [104, 16, 0, 0]" by code_simp
  ultimately have "parseProviderNetworks [''104.16.0.0/13''] \<noteq> None"
    using parseProviderNetworks_accepts [of "[''104.16.0.0/13'']"] by simp
  then show ?thesis
    using parseProviderNetworks_accepts [of "[''104.16.0.0/13'']"] by auto
qed

text \<open>
  However often it is started, at most one updater runs, and one does as soon as one start finds
  its context alive.
\<close>

fun starts :: "bool list \<Rightarrow> bool \<Rightarrow> providerRangeUpdater list" where
  "starts [] refreshed = []"
| "starts (cancelled # calls) refreshed =
     (case startDefaultProviderRefresh cancelled refreshed of
        (refreshed', None) \<Rightarrow> starts calls refreshed'
      | (refreshed', Some updater) \<Rightarrow> updater # starts calls refreshed')"

lemma one_updater_runs:
  "starts calls False = (if False \<in> set calls then [newDefaultProviderRangeUpdater] else [])"
proof (induction calls)
  case (Cons c calls)
  have "starts calls True = []" for calls
    by (induction calls) (auto simp: startDefaultProviderRefresh_def)
  with Cons show ?case by (auto simp: startDefaultProviderRefresh_def)
qed simp

text \<open>
  Only the base address is tested. The check for public addresses looks at the network address
  of a listed range, not at the range: a list with \<open>128.0.0.0/1\<close> is accepted, and a private
  address such as 192.168.0.1 then counts as one of the provider's.
\<close>

lemma provider_list_accepts_private_range:
  "\<exists>network. parseProviderNetworks [''128.0.0.0/1''] = Some [network]
     \<and> is_private [192, 168, 0, 1]
     \<and> providerFor (Some (store_replace (newProviderRangeStore 10) ''list'' ProviderCloudflare [network] 1))
         [192, 168, 0, 1] 5 = (ProviderCloudflare, False)"
proof (intro exI conjI)
  show "parseProviderNetworks [''128.0.0.0/1'']
      = Some [\<lparr>net_ip = [128, 0, 0, 0], net_mask = [128, 0, 0, 0]\<rparr>]"
    by code_simp
  show "is_private [192, 168, 0, 1]" by code_simp
  show "providerFor (Some (store_replace (newProviderRangeStore 10) ''list'' ProviderCloudflare
      [\<lparr>net_ip = [128, 0, 0, 0], net_mask = [128, 0, 0, 0]\<rparr>] 1)) [192, 168, 0, 1] 5
      = (ProviderCloudflare, False)"
    by code_simp
qed

end
