(* ===== verification/ClientIP.thy ===== *)
theory ClientIP
  imports ProviderRanges GoHttp Config
begin

text \<open>
  How the client address of a request is found (\<open>client_ip.go\<close>): the direct peer, the
  X-Forwarded-For walk over trusted proxies, and the client header of a verified CDN peer. An
  error comes with the address that is used instead, as in the code; only an unreadable peer
  address gives no address.
\<close>

section \<open>Operations\<close>

definition maximumForwardedHops :: nat where "maximumForwardedHops = 32"

datatype clientIPError =
    DirectPeerInvalid
  | MultipleProviders
  | ProviderClientUnresolved
  | HeaderNotOneAddress
  | HeaderMalformed
  | ChainTooLong
  | ChainEmptyAddress
  | ChainInvalidAddress

definition ipIsTrusted :: "ip \<Rightarrow> ipNet list \<Rightarrow> bool" where
  "ipIsTrusted ip trusted = list_ex (\<lambda>network. net_contains network (normalizeIP ip)) trusted"

definition parseRemoteIP :: "string \<Rightarrow> clientIPError + ip" where
  "parseRemoteIP value =
     (let host0 = (case split_host_port value of Some (h, p) \<Rightarrow> h | None \<Rightarrow> value);
          host = trim_chars (trim_space host0) ''[]''
      in case parse_ip host of
           None \<Rightarrow> Inl DirectPeerInvalid
         | Some ip \<Rightarrow> Inr (normalizeIP ip))"

text \<open>The address and, where there is one, the error that goes with it.\<close>

definition extractProviderIP ::
    "httpRequest \<Rightarrow> ip \<Rightarrow> string \<Rightarrow> ip \<times> clientIPError option" where
  "extractProviderIP request direct header =
     (let value = trim_space (header_get (h_header request) header) in
      if value = [] then (direct, None)
      else if contains_char value CHR '','' then (direct, Some HeaderNotOneAddress)
      else case parse_ip (trim_chars value ''[]'') of
             None \<Rightarrow> (direct, Some HeaderMalformed)
           | Some ip \<Rightarrow> (normalizeIP ip, None))"

text \<open>The loop that parses the chain.\<close>

fun parse_hops :: "string list \<Rightarrow> ip list \<Rightarrow> clientIPError + ip list" where
  "parse_hops [] hops = Inr hops"
| "parse_hops (item # raw) hops =
     (let t = trim_space item in
      if t = [] then Inl ChainEmptyAddress
      else case parse_ip (trim_chars t ''[]'') of
             None \<Rightarrow> Inl ChainInvalidAddress
           | Some ip \<Rightarrow> parse_hops raw (hops @ [normalizeIP ip]))"

text \<open>The walk from the right: the hops are given in reverse.\<close>

fun walk_hops :: "ipNet list \<Rightarrow> ip \<Rightarrow> ip list \<Rightarrow> ip" where
  "walk_hops trusted current [] = current"
| "walk_hops trusted current (hop # hops) =
     (if \<not> ipIsTrusted current trusted then current else walk_hops trusted hop hops)"

definition extractForwardedIP ::
    "httpRequest \<Rightarrow> ip \<Rightarrow> ipNet list \<Rightarrow> ip \<times> clientIPError option" where
  "extractForwardedIP request direct trusted =
     (let value = header_get (h_header request) ''X-Forwarded-For'' in
      if value = [] \<or> \<not> ipIsTrusted direct trusted then (direct, None)
      else let raw = split CHR '','' value in
        if maximumForwardedHops < length raw then (direct, Some ChainTooLong)
        else case parse_hops raw [] of
               Inl e \<Rightarrow> (direct, Some e)
             | Inr hops \<Rightarrow> (walk_hops trusted direct (rev hops), None))"

text \<open>The address, whether the peer is a recognized provider, and the error.\<close>

definition extractRecognizedProviderIP ::
    "httpRequest \<Rightarrow> ip \<Rightarrow> clientIPConfig \<Rightarrow> providerRangeStore option \<Rightarrow> gotime
       \<Rightarrow> ip \<times> bool \<times> clientIPError option" where
  "extractRecognizedProviderIP request peer strategy providers now =
     (case providerFor providers peer now of (provider, ambiguous) \<Rightarrow>
        if ambiguous then (peer, True, Some MultipleProviders)
        else if provider = ProviderNone then (peer, False, None)
        else let header = (if provider = ProviderCloudflare then ci_cloudflareHeader strategy
                           else ci_bunnyHeader strategy) in
          if trim_space (header_get (h_header request) header) = []
          then (peer, True, Some ProviderClientUnresolved)
          else case extractProviderIP request peer header of
                 (client, Some e) \<Rightarrow> (client, True, Some e)
               | (client, None) \<Rightarrow>
                   if fst (providerFor providers client now) \<noteq> ProviderNone
                   then (peer, True, Some ProviderClientUnresolved)
                   else (client, True, None))"

definition recognizedProviderSource ::
    "ip \<Rightarrow> providerRangeStore option \<Rightarrow> gotime \<Rightarrow> clientIPError option \<Rightarrow> string" where
  "recognizedProviderSource peer providers now err =
     (if err = Some ProviderClientUnresolved then ''cdn_unresolved''
      else if err \<noteq> None then ''fallback_error''
      else case providerFor providers peer now of (provider, ambiguous) \<Rightarrow>
        if ambiguous then ''fallback_error''
        else if provider = ProviderCloudflare then ''cloudflare''
        else if provider = ProviderBunny then ''bunny''
        else ''fallback_error'')"

definition extractClientIPWithSource ::
    "httpRequest \<Rightarrow> clientIPConfig \<Rightarrow> ipNet list \<Rightarrow> providerRangeStore option \<Rightarrow> gotime
       \<Rightarrow> ip option \<times> string \<times> clientIPError option" where
  "extractClientIPWithSource request strategy trusted providers now =
     (case parseRemoteIP (h_remoteAddr request) of
        Inl e \<Rightarrow> (None, ''fallback_error'', Some e)
      | Inr direct \<Rightarrow>
          (case extractRecognizedProviderIP request direct strategy providers now of
             (client, recognized, err) \<Rightarrow>
               if recognized
               then (Some client, recognizedProviderSource direct providers now err, err)
               else if ci_strategy strategy = ''direct'' then (Some direct, ''direct'', None)
               else if ci_strategy strategy = ''forwarded'' then
                 (case extractForwardedIP request direct trusted of
                    (forwarded, Some e) \<Rightarrow> (Some forwarded, ''fallback_error'', Some e)
                  | (forwarded, None) \<Rightarrow>
                      (case extractRecognizedProviderIP request forwarded strategy providers now of
                         (client', recognized', err') \<Rightarrow>
                           if recognized'
                           then (Some client',
                                 recognizedProviderSource forwarded providers now err', err')
                           else if ip_equal forwarded direct
                           then (Some forwarded, ''direct'', None)
                           else (Some forwarded, ''forwarded'', None)))
               else if ci_strategy strategy = ''cloudflare'' \<or> ci_strategy strategy = ''bunny''
               then (Some direct, ''direct'', None)
               else (Some direct, ''direct'', None)))"

definition extractClientIP ::
    "httpRequest \<Rightarrow> clientIPConfig \<Rightarrow> ipNet list \<Rightarrow> providerRangeStore option \<Rightarrow> gotime
       \<Rightarrow> ip option \<times> clientIPError option" where
  "extractClientIP request strategy trusted providers now =
     (case extractClientIPWithSource request strategy trusted providers now of
        (client, source, err) \<Rightarrow> (client, err))"

section \<open>The walk over trusted proxies\<close>

text \<open>The walk stops at the first untrusted address, or at the end of the chain.\<close>

lemma walk_hops_find:
  "walk_hops trusted c hops =
     (case find (\<lambda>a. \<not> ipIsTrusted a trusted) (c # hops) of
        Some a \<Rightarrow> a | None \<Rightarrow> last (c # hops))"
  by (induction hops arbitrary: c) (auto split: option.splits)

lemma walk_hops_mem: "walk_hops trusted c hops \<in> set (c # hops)"
  by (induction hops arbitrary: c) auto

lemma walk_hops_stop:
  "ipIsTrusted c trusted \<Longrightarrow> list_all (\<lambda>a. ipIsTrusted a trusted) ys \<Longrightarrow> \<not> ipIsTrusted h trusted \<Longrightarrow>
     walk_hops trusted c (ys @ h # xs) = h"
  by (induction ys arbitrary: c) (auto, cases xs, auto)

lemma walk_hops_all:
  "ipIsTrusted c trusted \<Longrightarrow> list_all (\<lambda>a. ipIsTrusted a trusted) hops \<Longrightarrow> hops \<noteq> [] \<Longrightarrow>
     walk_hops trusted c hops = last hops"
  by (induction hops arbitrary: c) auto

text \<open>The address one item of the chain stands for.\<close>

definition hop_of :: "string \<Rightarrow> ip option" where
  "hop_of item =
     (if trim_space item = [] then None
      else map_option normalizeIP (parse_ip (trim_chars (trim_space item) ''[]'')))"

lemma parse_hops_eq:
  "parse_hops raw hops =
     (if list_all (\<lambda>i. hop_of i \<noteq> None) raw then Inr (hops @ map (\<lambda>i. the (hop_of i)) raw)
      else Inl (if trim_space (hd (dropWhile (\<lambda>i. hop_of i \<noteq> None) raw)) = []
                then ChainEmptyAddress else ChainInvalidAddress))"
  by (induction raw arbitrary: hops) (auto simp: hop_of_def Let_def split: option.splits)

lemma hop_of_length: "hop_of i = Some ip \<Longrightarrow> length ip \<in> {4, 16} \<and> normalizeIP ip = ip"
  by (auto simp: hop_of_def dest: normalizeIP_parsed split: if_splits)

lemma parseRemoteIP_normal: "parseRemoteIP v = Inr ip \<Longrightarrow> length ip \<in> {4, 16} \<and> normalizeIP ip = ip"
  by (auto simp: parseRemoteIP_def Let_def dest: normalizeIP_parsed split: option.splits)

lemma extractProviderIP_normal:
  "extractProviderIP r d h = (ip, e) \<Longrightarrow> ip = d \<or> (length ip \<in> {4, 16} \<and> normalizeIP ip = ip)"
  by (auto simp: extractProviderIP_def Let_def dest: normalizeIP_parsed split: option.splits if_splits)

lemma extractForwardedIP_cases:
  obtains (direct) e where "extractForwardedIP r d trusted = (d, e)"
  | (walk) raw where "raw = split CHR '','' (header_get (h_header r) ''X-Forwarded-For'')"
      "length raw \<le> maximumForwardedHops" "ipIsTrusted d trusted"
      "list_all (\<lambda>i. hop_of i \<noteq> None) raw"
      "extractForwardedIP r d trusted
         = (walk_hops trusted d (rev (map (\<lambda>i. the (hop_of i)) raw)), None)"
proof -
  let ?v = "header_get (h_header r) ''X-Forwarded-For''"
  let ?raw = "split CHR '','' ?v"
  show ?thesis
  proof (cases "?v = [] \<or> \<not> ipIsTrusted d trusted \<or> maximumForwardedHops < length ?raw
      \<or> \<not> list_all (\<lambda>i. hop_of i \<noteq> None) ?raw")
    case True
    then have "\<exists>e. extractForwardedIP r d trusted = (d, e)"
      by (auto simp: extractForwardedIP_def Let_def parse_hops_eq)
    then show ?thesis using that(1) by blast
  next
    case False
    then show ?thesis
      by (intro that(2) [of ?raw]) (simp_all add: extractForwardedIP_def Let_def parse_hops_eq rev_map)
  qed
qed

lemma extractForwardedIP_normal:
  assumes "extractForwardedIP r d trusted = (ip, e)" "length d \<in> {4, 16} \<and> normalizeIP d = d"
  shows "length ip \<in> {4, 16} \<and> normalizeIP ip = ip"
proof (cases rule: extractForwardedIP_cases [of r d trusted])
  case direct
  with assms show ?thesis by simp
next
  case (walk raw)
  note ok = walk(4)
  from walk(5) have "ip \<in> set (d # rev (map (\<lambda>i. the (hop_of i)) raw))"
    using assms(1) walk_hops_mem by (metis prod.inject)
  then consider "ip = d" | i where "i \<in> set raw" "ip = the (hop_of i)" by auto
  then show ?thesis
  proof cases
    case 1
    with assms(2) show ?thesis by simp
  next
    case 2
    then have "hop_of i = Some ip" using ok by (auto simp: list_all_iff)
    then show ?thesis by (rule hop_of_length)
  qed
qed

lemma recognized_normal:
  assumes "extractRecognizedProviderIP r p s st now = (ip, b, e)"
    and "length p \<in> {4, 16} \<and> normalizeIP p = p"
  shows "length ip \<in> {4, 16} \<and> normalizeIP ip = ip"
  using assms
  by (auto simp: extractRecognizedProviderIP_def Let_def
      split: prod.splits if_splits option.splits dest!: extractProviderIP_normal)

section \<open>Properties\<close>

definition exampleHttp :: httpRequest where
  "exampleHttp = \<lparr>h_method = ''GET'', h_host = ''example.test'', h_path = ''/'', h_rawPath = [], h_rawQuery = [],
     h_header = [(''X-Forwarded-For'', [''198.51.100.7, 10.0.0.2''])],
     h_remoteAddr = ''10.0.0.1:5000'', h_tls = False, h_proto = ''HTTP/1.1'',
     h_contentLength = 0, h_transferEncoding = [], h_body = None\<rparr>"

definition exampleTrusted :: "ipNet list" where
  "exampleTrusted = [\<lparr>net_ip = [10, 0, 0, 0], net_mask = [255, 0, 0, 0]\<rparr>]"

text \<open>
  C5. An untrusted peer cannot choose its address. When the direct peer is neither a recognized
  CDN address nor a trusted proxy, the client address is that peer and its source is
  \<open>direct\<close>, for every strategy and whatever headers the request carries.
\<close>

theorem untrusted_peer_is_the_client:
  assumes "parseRemoteIP (h_remoteAddr request) = Inr direct"
    and "providerFor providers direct now = (ProviderNone, False)"
    and "\<not> ipIsTrusted direct trusted"
  shows "extractClientIPWithSource (request\<lparr>h_header := headers\<rparr>) strategy trusted providers now
     = (Some direct, ''direct'', None)"
  using assms by (simp add: extractClientIPWithSource_def extractRecognizedProviderIP_def
      extractForwardedIP_def ip_equal_def)

theorem untrusted_peer_is_the_client_witness:
  "extractClientIPWithSource
     ((exampleHttp\<lparr>h_remoteAddr := ''203.0.113.9:1''\<rparr>)\<lparr>h_header := [(''X-Forwarded-For'', [''10.0.0.2''])]\<rparr>)
     (clientIPC createConfig) exampleTrusted (Some exampleStore) 5
     = (Some [203, 0, 113, 9], ''direct'', None)"
proof (rule untrusted_peer_is_the_client)
  show "parseRemoteIP (h_remoteAddr (exampleHttp\<lparr>h_remoteAddr := ''203.0.113.9:1''\<rparr>)) = Inr [203, 0, 113, 9]"
    by code_simp
  show "providerFor (Some exampleStore) [203, 0, 113, 9] 5 = (ProviderNone, False)" by code_simp
  show "\<not> ipIsTrusted [203, 0, 113, 9] exampleTrusted" by code_simp
qed

text \<open>
  C21. The chain is read from the right. Behind a trusted peer, a chain of X-Forwarded-For of at most
  32 well-formed entries gives the last entry that is no trusted proxy, whatever well-formed
  entries are to its left, and the first entry if all are trusted. The entries to the left have one
  other influence: a chain that is too long, or that has a malformed entry anywhere, gives the
  address of the direct peer and an error.
\<close>

theorem forwarded_chain_reads_from_the_right:
  assumes "header_get (h_header request) ''X-Forwarded-For'' = chain" and "chain \<noteq> []"
    and "ipIsTrusted direct trusted"
    and "split CHR '','' chain = items"
  shows "(length items \<le> 32 \<and> list_all (\<lambda>i. hop_of i \<noteq> None) items \<longrightarrow>
        (\<forall>left item right. items = left @ [item] @ right \<and> \<not> ipIsTrusted (the (hop_of item)) trusted
           \<and> list_all (\<lambda>i. ipIsTrusted (the (hop_of i)) trusted) right \<longrightarrow>
           extractForwardedIP request direct trusted = (the (hop_of item), None))
        \<and> (list_all (\<lambda>i. ipIsTrusted (the (hop_of i)) trusted) items \<longrightarrow>
           extractForwardedIP request direct trusted = (the (hop_of (hd items)), None)))
     \<and> (32 < length items \<or> list_ex (\<lambda>i. hop_of i = None) items \<longrightarrow>
        (\<exists>e. extractForwardedIP request direct trusted = (direct, Some e)))"
proof (cases "length items \<le> 32 \<and> list_all (\<lambda>i. hop_of i \<noteq> None) items")
  case True
  have e: "extractForwardedIP request direct trusted
      = (walk_hops trusted direct (rev (map (\<lambda>i. the (hop_of i)) items)), None)"
    using True assms by (simp add: extractForwardedIP_def parse_hops_eq maximumForwardedHops_def)
  have "items \<noteq> []" using assms(4) split_not_Nil by blast
  then have "walk_hops trusted direct (rev (map (\<lambda>i. the (hop_of i)) items)) = the (hop_of (hd items))"
    if "list_all (\<lambda>i. ipIsTrusted (the (hop_of i)) trusted) items"
    using that assms(3) by (subst walk_hops_all) (simp_all add: list_all_iff last_rev hd_map)
  moreover have "walk_hops trusted direct (rev (map (\<lambda>i. the (hop_of i)) items)) = the (hop_of item)"
    if "items = left @ [item] @ right" "\<not> ipIsTrusted (the (hop_of item)) trusted"
      "list_all (\<lambda>i. ipIsTrusted (the (hop_of i)) trusted) right" for left item right
    using that assms(3) by (simp, intro walk_hops_stop) (auto simp: list_all_iff)
  moreover have "\<not> list_ex (\<lambda>i. hop_of i = None) items"
    using True by (simp add: list_all_iff list_ex_iff)
  ultimately show ?thesis using True unfolding e by auto
next
  case False
  with assms have "\<exists>e. extractForwardedIP request direct trusted = (direct, Some e)"
    by (auto simp: extractForwardedIP_def Let_def parse_hops_eq maximumForwardedHops_def)
  with False show ?thesis by blast
qed

theorem forwarded_chain_reads_from_the_right_witness:
  "extractForwardedIP (exampleHttp\<lparr>h_header := [(''X-Forwarded-For'', [''1.1.1.1, 198.51.100.7, 10.0.0.2''])]\<rparr>)
     [10, 0, 0, 1] exampleTrusted = ([198, 51, 100, 7], None)"
proof -
  let ?chain = "''1.1.1.1, 198.51.100.7, 10.0.0.2''"
  let ?r = "exampleHttp\<lparr>h_header := [(''X-Forwarded-For'', [?chain])]\<rparr>"
  have v: "header_get (h_header ?r) ''X-Forwarded-For'' = ?chain" by code_simp
  have n: "?chain \<noteq> []" by simp
  have s: "split CHR '','' ?chain = [''1.1.1.1''] @ ['' 198.51.100.7''] @ ['' 10.0.0.2'']" by code_simp
  have h1: "hop_of ''1.1.1.1'' = Some [1, 1, 1, 1]" by code_simp
  have h2: "hop_of '' 198.51.100.7'' = Some [198, 51, 100, 7]" by code_simp
  have h3: "hop_of '' 10.0.0.2'' = Some [10, 0, 0, 2]" by code_simp
  have ok: "length ([''1.1.1.1''] @ ['' 198.51.100.7''] @ ['' 10.0.0.2'']) \<le> 32
      \<and> list_all (\<lambda>i. hop_of i \<noteq> None) ([''1.1.1.1''] @ ['' 198.51.100.7''] @ ['' 10.0.0.2''])"
    by (simp add: h1 h2 h3)
  have t1: "ipIsTrusted [10, 0, 0, 1] exampleTrusted" by code_simp
  have t2: "\<not> ipIsTrusted (the (hop_of '' 198.51.100.7'')) exampleTrusted"
    unfolding h2 by code_simp
  have "ipIsTrusted [10, 0, 0, 2] exampleTrusted" by code_simp
  then have t3: "list_all (\<lambda>i. ipIsTrusted (the (hop_of i)) exampleTrusted) ['' 10.0.0.2'']"
    by (simp add: h3)
  from forwarded_chain_reads_from_the_right [OF v n t1 s] ok t2 t3
  have "extractForwardedIP ?r [10, 0, 0, 1] exampleTrusted = (the (hop_of '' 198.51.100.7''), None)"
    by blast
  then show ?thesis unfolding h2 option.sel .
qed

text \<open>
  C17. Provider headers count only from provider peers. An address reported with the source of a
  CDN was named by exactly that CDN's configured header, by a peer (the direct one, or the hop the
  trusted proxies resolve to) that only that CDN's current ranges contain, and is itself no CDN
  node.
\<close>

theorem provider_source_is_verified:
  assumes "extractClientIPWithSource request strategy trusted providers now = (Some client, source, err)"
    and "source = ''cloudflare'' \<and> kind = ProviderCloudflare \<and> header = ci_cloudflareHeader strategy
       \<or> source = ''bunny'' \<and> kind = ProviderBunny \<and> header = ci_bunnyHeader strategy"
  shows "err = None
     \<and> (\<exists>direct peer. parseRemoteIP (h_remoteAddr request) = Inr direct
          \<and> (peer = direct \<or> ci_strategy strategy = ''forwarded''
                \<and> extractForwardedIP request direct trusted = (peer, None))
          \<and> providerFor providers peer now = (kind, False)
          \<and> extractProviderIP request peer header = (client, None)
          \<and> fst (providerFor providers client now) = ProviderNone)"
proof -
  obtain direct where d: "parseRemoteIP (h_remoteAddr request) = Inr direct"
    using assms(1) by (auto simp: extractClientIPWithSource_def split: sum.splits)
  have rec: "err = None \<and> providerFor providers peer now = (kind, False)
      \<and> extractProviderIP request peer header = (client, None)
      \<and> fst (providerFor providers client now) = ProviderNone"
    if r: "extractRecognizedProviderIP request peer strategy providers now = (client, True, err)"
      and s: "source = recognizedProviderSource peer providers now err" for peer
  proof -
    have e: "err = None" and p: "providerFor providers peer now = (kind, False)"
      using s assms(2) by (auto simp: recognizedProviderSource_def split: if_splits prod.splits)
    from r p e assms(2) show ?thesis
      by (auto simp: extractRecognizedProviderIP_def Let_def
          split: if_splits prod.splits option.splits)
  qed
  show ?thesis
  proof (cases "extractRecognizedProviderIP request direct strategy providers now")
    case (fields c b e)
    show ?thesis
    proof (cases b)
      case True
      with fields d assms(1) have "extractRecognizedProviderIP request direct strategy providers now
          = (client, True, err)" "source = recognizedProviderSource direct providers now err"
        by (auto simp: extractClientIPWithSource_def)
      from rec [OF this] d show ?thesis by blast
    next
      case False
      obtain peer fe where f: "extractForwardedIP request direct trusted = (peer, fe)"
        by (cases "extractForwardedIP request direct trusted")
      obtain c' b' e' where c': "extractRecognizedProviderIP request peer strategy providers now = (c', b', e')"
        by (cases "extractRecognizedProviderIP request peer strategy providers now")
      from False fields d f c' assms have fw: "ci_strategy strategy = ''forwarded''" "fe = None"
        and r: "b'" "c' = client" "e' = err" "source = recognizedProviderSource peer providers now err"
        by (auto simp: extractClientIPWithSource_def split: if_splits option.splits)
      from c' r have "extractRecognizedProviderIP request peer strategy providers now = (client, True, err)"
        by simp
      from rec [OF this r(4)] d f fw show ?thesis by auto
    qed
  qed
qed

theorem provider_source_is_verified_witness:
  "extractClientIPWithSource
     (exampleHttp\<lparr>h_remoteAddr := ''104.17.0.1:443'',
        h_header := [(''Cf-Connecting-Ip'', [''198.51.100.7''])]\<rparr>)
     (clientIPC createConfig) exampleTrusted (Some exampleStore) 5
     = (Some [198, 51, 100, 7], ''cloudflare'', None)
   \<and> providerFor (Some exampleStore) [198, 51, 100, 7] 5 = (ProviderNone, False)"
proof -
  let ?r = "exampleHttp\<lparr>h_remoteAddr := ''104.17.0.1:443'',
        h_header := [(''Cf-Connecting-Ip'', [''198.51.100.7''])]\<rparr>"
  have x: "extractClientIPWithSource ?r (clientIPC createConfig) exampleTrusted (Some exampleStore) 5
     = (Some [198, 51, 100, 7], ''cloudflare'', None)" by code_simp
  have k: "''cloudflare'' = ''cloudflare'' \<and> ProviderCloudflare = ProviderCloudflare
        \<and> ''CF-Connecting-IP'' = ci_cloudflareHeader (clientIPC createConfig)
      \<or> ''cloudflare'' = ''bunny'' \<and> ProviderCloudflare = ProviderBunny
        \<and> ''CF-Connecting-IP'' = ci_bunnyHeader (clientIPC createConfig)"
    by (simp add: createConfig_def)
  have "fst (providerFor (Some exampleStore) [198, 51, 100, 7] 5) = ProviderNone"
    using provider_source_is_verified [OF x k] by blast
  moreover have "\<not> snd (providerFor (Some exampleStore) [198, 51, 100, 7] 5)" by code_simp
  ultimately show ?thesis using x by (simp add: prod_eq_iff)
qed

definition normal_ip :: "ip \<Rightarrow> bool" where
  "normal_ip ip \<longleftrightarrow> length ip \<in> {4, 16} \<and> normalizeIP ip = ip"

definition labelled :: "clientIPError option \<Rightarrow> string \<Rightarrow> bool" where
  "labelled err source \<longleftrightarrow>
     (err = None \<longleftrightarrow> source \<in> {''direct'', ''forwarded'', ''cloudflare'', ''bunny''})
     \<and> (err = Some ProviderClientUnresolved \<longleftrightarrow> source = ''cdn_unresolved'')
     \<and> (err \<notin> {None, Some ProviderClientUnresolved} \<longleftrightarrow> source = ''fallback_error'')"

lemma labelled_intros:
  "labelled None ''direct''" "labelled None ''forwarded''"
  "e \<noteq> ProviderClientUnresolved \<Longrightarrow> labelled (Some e) ''fallback_error''"
  by (simp_all add: labelled_def)

lemma recognized_labelled:
  assumes "extractRecognizedProviderIP request p strategy providers now = (c, True, e)"
  shows "labelled e (recognizedProviderSource p providers now e)"
proof -
  have "e = None \<Longrightarrow> providerFor providers p now \<in> {(ProviderCloudflare, False), (ProviderBunny, False)}"
    using assms providerFor_cases [of providers p now]
    by (auto simp: extractRecognizedProviderIP_def split: prod.splits if_splits)
  then show ?thesis
    by (cases e) (auto simp: labelled_def recognizedProviderSource_def split: prod.splits)
qed

lemma client_address_total:
  "(\<forall>e. parseRemoteIP (h_remoteAddr request) = Inl e \<longrightarrow>
      extractClientIPWithSource request strategy trusted providers now = (None, ''fallback_error'', Some e))
   \<and> (\<forall>direct. parseRemoteIP (h_remoteAddr request) = Inr direct \<longrightarrow>
      (\<exists>client source err.
         extractClientIPWithSource request strategy trusted providers now = (Some client, source, err)
         \<and> normal_ip client \<and> labelled err source))"
proof (intro conjI allI impI)
  show "extractClientIPWithSource request strategy trusted providers now = (None, ''fallback_error'', Some e)"
    if "parseRemoteIP (h_remoteAddr request) = Inl e" for e
    using that by (simp add: extractClientIPWithSource_def)
next
  fix direct assume d: "parseRemoteIP (h_remoteAddr request) = Inr direct"
  have nd: "normal_ip direct" using parseRemoteIP_normal [OF d] by (simp add: normal_ip_def)
  obtain c b e where r: "extractRecognizedProviderIP request direct strategy providers now = (c, b, e)"
    by (cases "extractRecognizedProviderIP request direct strategy providers now")
  obtain f fe where f: "extractForwardedIP request direct trusted = (f, fe)"
    by (cases "extractForwardedIP request direct trusted")
  obtain c' b' e' where r': "extractRecognizedProviderIP request f strategy providers now = (c', b', e')"
    by (cases "extractRecognizedProviderIP request f strategy providers now")
  have nf: "normal_ip f"
    using extractForwardedIP_normal [OF f] nd by (simp add: normal_ip_def)
  have nc: "normal_ip c" "normal_ip c'"
    using recognized_normal [OF r] recognized_normal [OF r'] nd nf by (simp_all add: normal_ip_def)
  have lab: "b \<Longrightarrow> labelled e (recognizedProviderSource direct providers now e)"
      "b' \<Longrightarrow> labelled e' (recognizedProviderSource f providers now e')"
    using r r' by (auto intro: recognized_labelled)
  have lf: "fe = Some x \<Longrightarrow> labelled fe ''fallback_error''" for x
    using f by (auto simp: extractForwardedIP_def Let_def parse_hops_eq
        intro!: labelled_intros split: if_splits)
  show "\<exists>client source err.
         extractClientIPWithSource request strategy trusted providers now = (Some client, source, err)
         \<and> normal_ip client \<and> labelled err source"
    using d r f r' nd nf nc lab lf
    by (cases b; cases b'; cases fe)
      (simp_all add: extractClientIPWithSource_def labelled_intros)
qed

text \<open>
  C30. Every readable peer has a client address. The extraction yields no address exactly when the
  peer address cannot be read. Otherwise the address is a normalized IPv4 or IPv6 address, and the
  reported source says how it was found: no error goes with one of the four regular sources, an
  unresolved CDN hop with \<open>cdn_unresolved\<close>, and every other problem with \<open>fallback_error\<close>.
\<close>

theorem client_ip_is_total:
  "(\<forall>e. parseRemoteIP (h_remoteAddr request) = Inl e \<longrightarrow>
      extractClientIPWithSource request strategy trusted providers now = (None, ''fallback_error'', Some e))
   \<and> (\<forall>direct. parseRemoteIP (h_remoteAddr request) = Inr direct \<longrightarrow>
      (\<exists>client source err.
         extractClientIPWithSource request strategy trusted providers now = (Some client, source, err)
         \<and> normal_ip client \<and> labelled err source))"
  by (rule client_address_total)

theorem client_ip_is_total_witness:
  "\<exists>client source err.
     extractClientIPWithSource exampleHttp (clientIPC createConfig) exampleTrusted (Some exampleStore) 5
       = (Some client, source, err) \<and> normal_ip client \<and> labelled err source"
proof -
  have "parseRemoteIP (h_remoteAddr exampleHttp) = Inr [10, 0, 0, 1]" by code_simp
  then show ?thesis
    using client_ip_is_total [of exampleHttp "clientIPC createConfig" exampleTrusted
        "Some exampleStore" 5]
    by simp
qed

end
