(* ===== verification/GoMime.thy ===== *)
theory GoMime
  imports GoStrings
begin

text \<open>
  \<open>mime.ParseMediaType\<close> as far as the plugin uses it: the media type, or \<open>None\<close> where the function
  returns an error. The parameters are parsed, since a malformed one makes the call fail, and
  then dropped; decoding continued parameters cannot fail.
\<close>

definition tspecials :: string where
  "tspecials = ''()<>@,;:'' @ [CHR 0x5C, CHR 0x22] @ ''/[]?=''"

definition mime_token_char :: "char \<Rightarrow> bool" where
  "mime_token_char c \<longleftrightarrow> CHR 0x20 < c \<and> c < CHR 0x7F \<and> c \<notin> set tspecials"

definition consume_token :: "string \<Rightarrow> string \<times> string" where
  "consume_token v = (takeWhile mime_token_char v, dropWhile mime_token_char v)"

text \<open>The loop over a quoted string, \<open>None\<close> where no closing quote is found.\<close>

fun consume_quoted :: "string \<Rightarrow> string \<Rightarrow> (string \<times> string) option" where
  "consume_quoted [] buffer = None"
| "consume_quoted (r # v) buffer =
     (if r = CHR 0x22 then Some (buffer, v)
      else case v of
             d # v' \<Rightarrow>
               if r = CHR 0x5C \<and> d \<in> set tspecials then consume_quoted v' (buffer @ [d])
               else if r = CHR 0x0D \<or> r = CHR 0x0A then None
               else consume_quoted v (buffer @ [r])
           | [] \<Rightarrow> if r = CHR 0x0D \<or> r = CHR 0x0A then None else consume_quoted v (buffer @ [r]))"

definition consume_value :: "string \<Rightarrow> string \<times> string" where
  "consume_value v =
     (case v of
        [] \<Rightarrow> ([], [])
      | c # v' \<Rightarrow>
          if c \<noteq> CHR 0x22 then consume_token v
          else (case consume_quoted v' [] of Some r \<Rightarrow> r | None \<Rightarrow> ([], v)))"

text \<open>The parameter name, its value and the rest; \<open>None\<close> where the code returns an empty name.\<close>

definition consume_media_param :: "string \<Rightarrow> (string \<times> string \<times> string) option" where
  "consume_media_param v =
     (case trim_left_space v of
        [] \<Rightarrow> None
      | c # rest0 \<Rightarrow>
          if c \<noteq> CHR '';'' then None
          else case consume_token (trim_left_space rest0) of (param, rest1) \<Rightarrow>
            if param = [] then None
            else (case trim_left_space rest1 of
                    [] \<Rightarrow> None
                  | d # rest2 \<Rightarrow>
                      if d \<noteq> CHR ''='' then None
                      else let rest3 = trim_left_space rest2 in
                        case consume_value rest3 of (val, rest4) \<Rightarrow>
                          if val = [] \<and> rest4 = rest3 then None
                          else Some (to_lower param, val, rest4)))"

lemma trim_left_length: "length (trim_left_space s) \<le> length s"
  unfolding trim_left_space_def by (rule suffix_length_le [OF drop_words_suffix])

lemma consume_quoted_length: "consume_quoted v b = Some (x, r) \<Longrightarrow> length r < length v"
proof (induction v b rule: consume_quoted.induct)
  case (2 r v b)
  then show ?case by (auto split: if_splits list.splits intro: less_SucI)
qed simp

lemma consume_value_length: "length (snd (consume_value v)) \<le> length v"
  using consume_quoted_length [of "tl v" "[]"]
  by (cases v)
    (auto simp: consume_value_def consume_token_def length_dropWhile_le le_SucI
      split: option.split dest: less_imp_le)

lemma consume_media_param_length:
  assumes "consume_media_param v = Some (p, x, r)"
  shows "length r < length v"
proof -
  from assms obtain c rest0 d rest2 where
    c: "trim_left_space v = c # rest0" and
    d: "trim_left_space (dropWhile mime_token_char (trim_left_space rest0)) = d # rest2" and
    r: "r = snd (consume_value (trim_left_space rest2))"
    by (auto simp: consume_media_param_def consume_token_def Let_def
        split: list.splits if_splits prod.splits)
  have "length r \<le> length rest2"
    unfolding r using consume_value_length trim_left_length by (rule order_trans)
  also have "\<dots> < length (d # rest2)" by simp
  also have "\<dots> \<le> length (dropWhile mime_token_char (trim_left_space rest0))"
    unfolding d [symmetric] by (rule trim_left_length)
  also have "\<dots> \<le> length rest0"
    using length_dropWhile_le trim_left_length by (rule order_trans)
  also have "\<dots> < length v"
    using trim_left_length [of v] c by simp
  finally show ?thesis .
qed

text \<open>The parameter loop: whether all parameters parse and no name has two values.\<close>

function media_params :: "string \<Rightarrow> string gomap \<Rightarrow> bool" where
  "media_params v seen =
     (let v' = trim_left_space v in
      if v' = [] then True
      else case consume_media_param v' of
             None \<Rightarrow> trim_space v' = '';''
           | Some (key, val, rest) \<Rightarrow>
               (case map_of seen key of
                  Some w \<Rightarrow> if w \<noteq> val then False else media_params rest (AList.update key val seen)
                | None \<Rightarrow> media_params rest (AList.update key val seen)))"
  by pat_completeness auto
termination
  by (relation "measure (length \<circ> fst)")
    (auto dest!: consume_media_param_length intro: less_le_trans [OF _ trim_left_length])

declare media_params.simps [simp del]

definition check_media_type :: "string \<Rightarrow> bool" where
  "check_media_type s =
     (case consume_token s of (typ, rest) \<Rightarrow>
        if typ = [] then False
        else (case rest of
                [] \<Rightarrow> True
              | c # rest' \<Rightarrow>
                  if c \<noteq> CHR ''/'' then False
                  else (case consume_token rest' of (subtype, rest'') \<Rightarrow> subtype \<noteq> [] \<and> rest'' = [])))"

definition parse_media_type :: "string \<Rightarrow> string option" where
  "parse_media_type v =
     (case cut CHR '';'' v of (base, _, _) \<Rightarrow>
        let mediatype = trim_space (to_lower base) in
        if check_media_type mediatype \<and> media_params (drop (length base) v) []
        then Some mediatype else None)"

end
