(* ===== verification/Body.thy ===== *)
theory Body
  imports GoHttp GoMime Config
begin

text \<open>
  Reading the request body for inspection without taking it from the application
  (\<open>body.go\<close>): when the body is captured, how much of it is read, and what the next handler
  still reads.

  A body is a reader that yields its bytes and then ends or fails (\<open>bodyReader\<close>). Reading a part
  returns it with the reader of what is left; \<open>io.MultiReader\<close> puts bytes in front of a reader.
\<close>

section \<open>Operations\<close>

definition bodyContentTypeAllowed :: "string \<Rightarrow> string list \<Rightarrow> bool" where
  "bodyContentTypeAllowed value allowed =
     (case parse_media_type value of
        None \<Rightarrow> False
      | Some mediaType0 \<Rightarrow>
          let mediaType = to_lower mediaType0 in
          list_ex (\<lambda>pattern0. let pattern = to_lower (trim_space pattern0) in
              pattern = mediaType
              \<or> (has_suffix pattern ''/*'' \<and> has_prefix mediaType (trim_suffix pattern ''*'')))
            allowed)"

definition bypassBodyPath :: "string \<Rightarrow> string list \<Rightarrow> bool" where
  "bypassBodyPath path ps =
     list_ex (\<lambda>p. p = ''/'' \<or> path = p \<or> has_prefix path (trim_suffix p ''/'' @ ''/'')) ps"

text \<open>
  \<open>io.ReadAll\<close> of an \<open>io.LimitReader\<close>: the bytes read, whether the reader failed before the limit,
  and the reader as it is left. A reader that fails does so after its last byte.
\<close>

definition read_limited :: "int \<Rightarrow> bodyReader \<Rightarrow> string \<times> bool \<times> bodyReader" where
  "read_limited n body =
     (take (nat n) (b_bytes body),
      b_fails body \<and> int (length (b_bytes body)) < n,
      body\<lparr>b_bytes := drop (nat n) (b_bytes body)\<rparr>)"

definition multi_reader :: "string \<Rightarrow> bodyReader \<Rightarrow> bodyReader" where
  "multi_reader pre body = body\<lparr>b_bytes := pre @ b_bytes body\<rparr>"

datatype bodyError = BodyReadFailed

text \<open>
  The request with the body the next handler reads, and the result: an error, or the captured
  bytes and whether the body is oversized. A body that is \<open>nil\<close> or \<open>http.NoBody\<close> is \<open>None\<close>.
\<close>

definition captureRequestBody ::
    "httpRequest \<Rightarrow> requestBodyConfig \<Rightarrow> string \<Rightarrow> httpRequest \<times> (bodyError + string \<times> bool)" where
  "captureRequestBody request config protocol =
     (case h_body request of
        None \<Rightarrow> (request, Inr ([], False))
      | Some body \<Rightarrow>
          if \<not> rb_enabled config \<or> protocol \<noteq> ''http''
             \<or> bypassBodyPath (h_path request) (rb_bypassPathPrefix config)
             \<or> \<not> bodyContentTypeAllowed (header_get (h_header request) ''Content-Type'')
                  (rb_contentTypes config)
          then (request, Inr ([], False))
          else let limit = rb_maximumBytes config in
            case read_limited (wrap64 (limit + 1)) body of (pre, failed, rest) \<Rightarrow>
              let request' = request\<lparr>h_body := Some (multi_reader pre rest)\<rparr> in
              if failed then (request', Inl BodyReadFailed)
              else if limit < int (length pre) then (request', Inr ([], True))
              else (request', Inr (pre, False)))"

section \<open>Lemmas\<close>

text \<open>Whether the body is inspected at all.\<close>

definition inspected :: "httpRequest \<Rightarrow> requestBodyConfig \<Rightarrow> string \<Rightarrow> bool" where
  "inspected request config protocol \<longleftrightarrow>
     h_body request \<noteq> None \<and> rb_enabled config \<and> protocol = ''http''
     \<and> \<not> bypassBodyPath (h_path request) (rb_bypassPathPrefix config)
     \<and> bodyContentTypeAllowed (header_get (h_header request) ''Content-Type'') (rb_contentTypes config)"

lemma replay_exact: "multi_reader (fst (read_limited n body)) (snd (snd (read_limited n body))) = body"
  by (simp add: read_limited_def multi_reader_def)

lemma not_inspected:
  "\<not> inspected request config protocol \<Longrightarrow>
     captureRequestBody request config protocol = (request, Inr ([], False))"
  by (auto simp: inspected_def captureRequestBody_def split: option.split)

lemma captured:
  assumes "inspected request config protocol" "h_body request = Some body"
  shows "captureRequestBody request config protocol =
     (request,
      let n = wrap64 (rb_maximumBytes config + 1) in
      if b_fails body \<and> int (length (b_bytes body)) < n then Inl BodyReadFailed
      else if rb_maximumBytes config < int (length (take (nat n) (b_bytes body))) then Inr ([], True)
      else Inr (take (nat n) (b_bytes body), False))"
proof -
  have "request\<lparr>h_body := Some body\<rparr> = request" using assms(2) by simp
  then show ?thesis
    using assms replay_exact [of "wrap64 (rb_maximumBytes config + 1)" body]
    by (simp add: captureRequestBody_def inspected_def Let_def read_limited_def)
qed

text \<open>Being equal to a path or below it is a prefix relation on its segments.\<close>

lemma split_prefix:
  "prefix (split c p) (split c path) \<longleftrightarrow> path = p \<or> has_prefix path (p @ [c])"
proof (induction p arbitrary: path)
  case Nil
  show ?case
  proof (cases path)
    case (Cons x path')
    obtain w ws where "split c path' = w # ws" by (cases "split c path'") auto
    with Cons show ?thesis by auto
  qed simp
next
  case (Cons x p)
  show ?case
  proof (cases path)
    case Nil
    obtain w ws where "split c p = w # ws" by (cases "split c p") auto
    with Nil show ?thesis by auto
  next
    case p: (Cons y path')
    obtain w ws where w: "split c p = w # ws" by (cases "split c p") auto
    obtain v vs where v: "split c path' = v # vs" by (cases "split c path'") auto
    from Cons.IH [of path'] w v have "prefix (w # ws) (v # vs) \<longleftrightarrow> path' = p \<or> has_prefix path' (p @ [c])"
      by simp
    with p w v show ?thesis by auto
  qed
qed

section \<open>Properties\<close>

definition exampleBodyConfig :: requestBodyConfig where
  "exampleBodyConfig = \<lparr>rb_enabled = True, rb_maximumBytes = 16, rb_oversizeAction = ''reject'',
     rb_contentTypes = [''application/json'', ''text/*''], rb_bypassPathPrefix = [''/static'']\<rparr>"

definition examplePost :: httpRequest where
  "examplePost = \<lparr>h_method = ''POST'', h_host = ''example.test'', h_path = ''/api/items'',
     h_rawPath = [], h_rawQuery = [], h_header = [(''Content-Type'', [''application/json; charset=utf-8''])],
     h_remoteAddr = ''10.0.0.1:5000'', h_tls = False, h_proto = ''HTTP/1.1'',
     h_contentLength = 2, h_transferEncoding = [],
     h_body = Some \<lparr>b_bytes = ''{}'', b_fails = False\<rparr>\<rparr>"

lemma capture_replays:
  "fst (captureRequestBody request config protocol) = request"
proof (cases "inspected request config protocol")
  case True
  then obtain body where "h_body request = Some body" by (auto simp: inspected_def)
  with captured [OF True this] show ?thesis by simp
next
  case False
  with not_inspected [OF False] show ?thesis by simp
qed

text \<open>
  C11. The application reads the body the client sent. Whatever the configuration, the path and
  the outcome of the capture, a read failure included, the request that goes on carries the same
  bytes, followed by the same end or failure, as the one that came in; nothing else of it changes.
\<close>

theorem body_reaches_the_application:
  "fst (captureRequestBody request config protocol) = request"
  by (rule capture_replays)

text \<open>
  What is captured. For an inspected body and a limit a configuration may set, the outcome is
  the whole body when it ends within the limit, the oversize flag and no bytes when it is longer
  than the limit, and an error exactly when it fails within the limit.
\<close>

lemma capture_is_exact:
  assumes "inspected request config protocol" "h_body request = Some body"
    and "1 \<le> rb_maximumBytes config" "rb_maximumBytes config \<le> maximumBodyBytes"
  shows "snd (captureRequestBody request config protocol) =
     (if rb_maximumBytes config < int (length (b_bytes body)) then Inr ([], True)
      else if b_fails body then Inl BodyReadFailed
      else Inr (b_bytes body, False))"
proof -
  have w: "wrap64 (rb_maximumBytes config + 1) = rb_maximumBytes config + 1"
    using assms(3,4) by (intro wrap64_id) (simp_all add: maximumBodyBytes_def)
  show ?thesis
    unfolding captured [OF assms(1,2)] w Let_def using assms(3) by auto
qed

lemma capture_is_exact_witness:
  "snd (captureRequestBody examplePost exampleBodyConfig ''http'') = Inr (''{}'', False)"
proof -
  have i: "inspected examplePost exampleBodyConfig ''http''" by code_simp
  have b: "h_body examplePost = Some \<lparr>b_bytes = ''{}'', b_fails = False\<rparr>"
    by (simp add: examplePost_def)
  show ?thesis
    using capture_is_exact [OF i b] by (simp add: exampleBodyConfig_def maximumBodyBytes_def)
qed

text \<open>
  Bypass prefixes end at a segment. With prefixes that do not end in a slash, the body of a path
  is bypassed exactly when the segments of some prefix begin the segments of the path:
  \<open>/static\<close> bypasses \<open>/static/x\<close> and not \<open>/statics\<close>.
\<close>

lemma bypass_ends_at_segments:
  assumes "list_all (\<lambda>p. \<not> has_suffix p ''/'') ps"
  shows "bypassBodyPath path ps \<longleftrightarrow>
     list_ex (\<lambda>p. prefix (split CHR ''/'' p) (split CHR ''/'' path)) ps"
proof -
  have "(p = ''/'' \<or> path = p \<or> has_prefix path (trim_suffix p ''/'' @ ''/''))
      \<longleftrightarrow> prefix (split CHR ''/'' p) (split CHR ''/'' path)" if "p \<in> set ps" for p
  proof -
    have n: "\<not> has_suffix p ''/''" using assms that by (simp add: list_all_iff)
    then have "p \<noteq> ''/''" by (auto simp: has_suffix_def)
    with n show ?thesis by (simp add: split_prefix trim_suffix_def)
  qed
  then show ?thesis by (simp add: bypassBodyPath_def list_ex_iff)
qed

lemma bypass_ends_at_segments_witness:
  "bypassBodyPath ''/static/x'' [''/static''] \<and> \<not> bypassBodyPath ''/statics'' [''/static'']"
proof -
  have n: "list_all (\<lambda>p. \<not> has_suffix p ''/'') [''/static'']" by code_simp
  show ?thesis
    unfolding bypass_ends_at_segments [OF n] by simp
qed

end
