(* ===== verification/Metadata.thy ===== *)
theory Metadata
  imports ClientIP Body
begin

text \<open>
  What \<open>middleware.go\<close> reads from a request before it asks the Agent: the request ID, the checks
  on the inbound metadata, the scheme, and the protocol type. The random bytes of a generated
  request ID and the time that replaces them are arguments.
\<close>

section \<open>Operations\<close>

text \<open>\<open>random\<close> is what \<open>rand.Read\<close> yields, \<open>stamp\<close> the formatted time used when it fails.\<close>

definition normalizedRequestID :: "string option \<Rightarrow> string \<Rightarrow> string \<Rightarrow> string" where
  "normalizedRequestID random stamp value0 =
     (let v = trim_space value0 in
      if 1 \<le> length v \<and> length v \<le> 128 \<and> \<not> contains_any v [CHR 0x0D, CHR 0x0A, CHR 0x00] then v
      else (case random of Some bytes \<Rightarrow> hex_encode bytes | None \<Rightarrow> hex_encode stamp))"

definition validInboundMetadata :: "httpRequest \<Rightarrow> bool" where
  "validInboundMetadata request =
     (if length (h_method request) < 1 \<or> 32 < length (h_method request)
         \<or> length (h_host request) < 1 \<or> 253 < length (h_host request)
         \<or> 8192 < int (length (h_path request)) \<or> 8192 < int (length (h_rawQuery request))
         \<or> contains_any (h_host request) [CHR 0x0D, CHR 0x0A, CHR 0x00]
         \<or> \<not> valid_utf8 (h_path request)
         \<or> \<not> has_prefix (h_path request) ''/''
         \<or> contains_any (h_path request) [CHR 0x00, CHR ''?'', CHR 0x23]
      then False
      else list_all (\<lambda>segment. \<not> (segment = ''.'' \<or> segment = ''..'')) (split CHR ''/'' (h_path request)))"

definition requestScheme :: "httpRequest \<Rightarrow> ipNet list \<Rightarrow> string" where
  "requestScheme request trusted =
     (if h_tls request then ''https''
      else case parseRemoteIP (h_remoteAddr request) of
        Inr direct \<Rightarrow>
          if ipIsTrusted direct trusted
          then (let forwarded = trim_space (to_lower (header_get (h_header request) ''X-Forwarded-Proto''))
                in if forwarded = ''https'' \<or> forwarded = ''http'' then forwarded else ''http'')
          else ''http''
      | Inl e \<Rightarrow> ''http'')"

definition headerHasToken :: "string list gomap \<Rightarrow> string \<Rightarrow> string \<Rightarrow> bool" where
  "headerHasToken header name token =
     list_ex (\<lambda>v. list_ex (\<lambda>item. equal_fold (trim_space item) token) (split CHR '','' v))
       (header_values header name)"

definition webdav_methods :: "string list" where
  "webdav_methods = [''PROPFIND'', ''PROPPATCH'', ''MKCOL'', ''COPY'', ''MOVE'', ''LOCK'', ''UNLOCK'',
     ''REPORT'', ''SEARCH'']"

definition protocolType :: "httpRequest \<Rightarrow> string" where
  "protocolType request =
     (if headerHasToken (h_header request) ''Connection'' ''upgrade''
         \<and> equal_fold (trim_space (header_get (h_header request) ''Upgrade'')) ''websocket''
      then ''websocket''
      else if has_prefix (to_lower (header_get (h_header request) ''Content-Type'')) ''application/grpc''
      then ''grpc''
      else if headerHasToken (h_header request) ''Accept'' ''text/event-stream'' then ''sse''
      else if to_upper (h_method request) \<in> set webdav_methods then ''webdav''
      else ''http'')"

section \<open>Dot segments\<close>

text \<open>
  How a server or a proxy behind the middleware may read a path: \<open>.\<close> segments vanish and \<open>..\<close>
  segments drop the segment before them.
\<close>

fun resolve_segments :: "string list \<Rightarrow> string list \<Rightarrow> string list" where
  "resolve_segments done [] = rev done"
| "resolve_segments done (s # ss) =
     (if s = ''.'' then resolve_segments done ss
      else if s = ''..'' then resolve_segments (tl done) ss
      else resolve_segments (s # done) ss)"

definition resolve_path :: "string \<Rightarrow> string" where
  "resolve_path path = join (resolve_segments [] (split CHR ''/'' path)) ''/''"

lemma resolve_no_dots:
  "list_all (\<lambda>s. \<not> (s = ''.'' \<or> s = ''..'')) ss \<Longrightarrow> resolve_segments done ss = rev done @ ss"
  by (induction ss arbitrary: "done") auto

section \<open>Properties\<close>

text \<open>
  A valid path means itself. A request that passes the metadata check has a path in valid
  UTF-8 that begins with a slash, holds no NUL, question mark or hash, and that resolving dot
  segments leaves as it is: what the Agent judges is what a resolving server behind would serve.
\<close>

lemma valid_path_is_resolved:
  assumes "validInboundMetadata request"
  shows "resolve_path (h_path request) = h_path request \<and> valid_utf8 (h_path request)
     \<and> has_prefix (h_path request) ''/''
     \<and> set (h_path request) \<inter> {CHR 0x00, CHR ''?'', CHR 0x23} = {}"
proof -
  from assms have "list_all (\<lambda>s. \<not> (s = ''.'' \<or> s = ''..'')) (split CHR ''/'' (h_path request))"
    by (auto simp: validInboundMetadata_def split: if_splits)
  then have "resolve_path (h_path request) = h_path request"
    by (simp add: resolve_path_def resolve_no_dots join_split)
  with assms show ?thesis
    by (auto simp: validInboundMetadata_def contains_any_iff split: if_splits)
qed

lemma valid_path_is_resolved_witness:
  "resolve_path (h_path examplePost) = h_path examplePost"
proof -
  have "validInboundMetadata examplePost" by code_simp
  from valid_path_is_resolved [OF this] show ?thesis by simp
qed

text \<open>
  Every request has a usable ID. The request ID is never empty, has at most 128 bytes and no
  CR, LF or NUL: the trimmed header where that qualifies, otherwise the hexadecimal text of 16
  random bytes, or of a time stamp of at most 64 bytes.
\<close>

lemma request_id_is_bounded:
  assumes "\<And>bytes. random = Some bytes \<Longrightarrow> length bytes = 16"
    and "1 \<le> length stamp" "length stamp \<le> 64"
  shows "1 \<le> length (normalizedRequestID random stamp v) \<and> length (normalizedRequestID random stamp v) \<le> 128
     \<and> \<not> contains_any (normalizedRequestID random stamp v) [CHR 0x0D, CHR 0x0A, CHR 0x00]"
proof -
  have len: "length (hex_encode s) = 2 * length s" for s
    by (induction s) auto
  have hex: "\<not> contains_any (hex_encode s) [CHR 0x0D, CHR 0x0A, CHR 0x00]" for s
    using hex_encode_chars [of s] by (auto simp: contains_any_iff hex_digits_def)
  show ?thesis
    using assms len hex by (auto simp: normalizedRequestID_def Let_def split: option.split)
qed

lemma request_id_is_bounded_witness:
  "1 \<le> length (normalizedRequestID None ''20250101'' [])"
  using request_id_is_bounded [of None "''20250101''" "[]"] by simp

text \<open>
  Streaming requests are never buffered. A request whose protocol type is not plain HTTP, which
  an \<open>Accept\<close> or \<open>Upgrade\<close> header of the client's choice is enough for, keeps its body untouched
  and nothing of it is captured, with any configuration.
\<close>

lemma streaming_is_never_captured:
  assumes "protocolType request \<noteq> ''http''"
  shows "captureRequestBody request config (protocolType request) = (request, Inr ([], False))"
  by (rule not_inspected) (simp add: inspected_def assms)

lemma streaming_is_never_captured_witness:
  "captureRequestBody (examplePost\<lparr>h_header := (''Accept'', [''text/event-stream'']) # h_header examplePost\<rparr>)
     exampleBodyConfig
     (protocolType (examplePost\<lparr>h_header := (''Accept'', [''text/event-stream'']) # h_header examplePost\<rparr>))
   = (examplePost\<lparr>h_header := (''Accept'', [''text/event-stream'']) # h_header examplePost\<rparr>, Inr ([], False))"
  by (rule streaming_is_never_captured) code_simp

text \<open>
  Only a trusted peer chooses the scheme. Without TLS, a request whose peer is not a trusted
  proxy has the scheme \<open>http\<close> whatever headers it sends; the scheme is always \<open>http\<close> or \<open>https\<close>.
\<close>

lemma scheme_needs_trust:
  "requestScheme request trusted \<in> {''http'', ''https''}
   \<and> (h_tls request \<or> requestScheme request trusted = ''http''
      \<or> (\<exists>direct. parseRemoteIP (h_remoteAddr request) = Inr direct \<and> ipIsTrusted direct trusted
           \<and> trim_space (to_lower (header_get (h_header request) ''X-Forwarded-Proto'')) = ''https''))"
  by (auto simp: requestScheme_def Let_def split: sum.split)

end
