(* ===== verification/Challenge.thy ===== *)
theory Challenge
  imports Agent Responses Metadata
begin

text \<open>
  The challenge endpoints (\<open>challenge.go\<close>): creating a challenge, submitting its solution, and the
  same-origin check in front of the trust cookie. The endpoints keep no state of their own; what
  they write is a response.

  A submission is read through \<open>http.MaxBytesReader\<close> and the strict JSON decoder; the Agent is
  the network of its client.
\<close>

section \<open>Reading a submission\<close>

text \<open>The bytes \<open>http.MaxBytesReader\<close> delivers, and how it then ends.\<close>

definition max_bytes_reader :: "int \<Rightarrow> bodyReader option \<Rightarrow> string \<times> streamEnd" where
  "max_bytes_reader n body =
     (case body of
        None \<Rightarrow> ([], EndOfStream)
      | Some b \<Rightarrow>
          (take (nat n) (b_bytes b),
           if n < int (length (b_bytes b)) then StreamTooLarge
           else if b_fails b then StreamFails else EndOfStream))"

text \<open>
  What two calls of \<open>Decode\<close> make of the stream: the first fails on the size limit, it fails
  otherwise, or it gives a value and then the second call reports the end of the stream or not.
\<close>

datatype submission = SubmissionTooLarge | SubmissionInvalid | Submission browserVerifyRequest bool

definition decodeSubmission :: "string \<Rightarrow> streamEnd \<Rightarrow> submission" where
  "decodeSubmission bytes ending =
     (case next_value bytes ending of
        NextInvalid \<Rightarrow> SubmissionInvalid
      | NextEnds e \<Rightarrow> if e = StreamTooLarge then SubmissionTooLarge else SubmissionInvalid
      | NextValue text0 rest \<Rightarrow>
          (case unmarshalSubmission text0 of
             None \<Rightarrow> SubmissionInvalid
           | Some input \<Rightarrow> Submission input (at_eof rest ending)))"

section \<open>Operations\<close>

definition validChallengeFields :: "string \<Rightarrow> string \<Rightarrow> string \<Rightarrow> string \<Rightarrow> bool" where
  "validChallengeFields token resourceID siteID path \<longleftrightarrow>
     32 \<le> length token \<and> int (length token) \<le> 4096
     \<and> 1 \<le> length resourceID \<and> length resourceID \<le> 128
     \<and> 1 \<le> length siteID \<and> length siteID \<le> 128
     \<and> 1 \<le> length path \<and> int (length path) \<le> 8192 \<and> has_prefix path ''/''
     \<and> \<not> has_prefix path ''//'' \<and> \<not> contains_char path CHR 0x5C
     \<and> \<not> contains_any (token @ resourceID @ siteID @ path) [CHR 0x00, CHR 0x0D, CHR 0x0A]"

definition boundedUserAgent :: "httpRequest \<Rightarrow> string" where
  "boundedUserAgent request =
     (let v = header_get (h_header request) ''User-Agent'' in
      if 4096 < int (length v) then take 4096 v else v)"

definition sameOriginSubmission :: "httpRequest \<Rightarrow> ipNet list \<Rightarrow> bool" where
  "sameOriginSubmission request trusted =
     (let origin = trim_space (header_get (h_header request) ''Origin'') in
      if origin = [] then False
      else case url_parse origin of
        None \<Rightarrow> False
      | Some parsed \<Rightarrow>
          if u_user parsed \<or> u_rawQuery parsed \<noteq> [] \<or> u_fragment parsed \<noteq> [] \<or> u_path parsed \<noteq> []
          then False
          else equal_fold (u_scheme parsed) (requestScheme request trusted)
               \<and> equal_fold (u_host parsed) (h_host request))"

definition json_header :: "string list gomap \<Rightarrow> string list gomap" where
  "json_header header =
     header_set ''Content-Type'' ''application/json; charset=utf-8'' (setEnforcementHeaders header)"

definition verificationBody :: "bool \<Rightarrow> string \<Rightarrow> string \<Rightarrow> string" where
  "verificationBody verified reason requestID =
     json_line [(''verified'', JBool verified), (''public_reason'', JString reason),
       (''request_id'', JString requestID)]"

definition writeChallengeError ::
    "string list gomap \<Rightarrow> int \<Rightarrow> string \<Rightarrow> string \<Rightarrow> httpResponse" where
  "writeChallengeError header status requestID reason =
     \<lparr>o_header = json_header header, o_status = status,
      o_body = verificationBody False reason requestID\<rparr>"

definition challengeContextOf :: "string \<Rightarrow> string \<Rightarrow> ip \<Rightarrow> httpRequest \<Rightarrow> string \<Rightarrow> challengeContext" where
  "challengeContextOf resourceID siteID clientIP request path =
     \<lparr>cx_resourceID = resourceID, cx_siteID = siteID, cx_clientIP = ip_string clientIP,
      cx_userAgent = boundedUserAgent request, cx_path = path\<rparr>"

definition handleCreate ::
    "agentClient \<Rightarrow> agentNetwork \<Rightarrow> string list gomap \<Rightarrow> httpRequest \<Rightarrow> string \<Rightarrow> ip \<Rightarrow> httpResponse" where
  "handleCreate agent network header request requestID clientIP =
     (let query = parse_query (h_rawQuery request);
          token = query_get query ''token'';
          resourceID = query_get query ''resource'';
          siteID = query_get query ''site'';
          path = query_get query ''path''
      in if \<not> validChallengeFields token resourceID siteID path
         then writeChallengeError header 400 requestID ''challenge_invalid''
         else case challengeCreate agent network
                requestID \<lparr>cr_challengeToken = token,
                  cr_context = challengeContextOf resourceID siteID clientIP request path\<rparr> of
           Inl err \<Rightarrow> writeChallengeError header 403 requestID ''challenge_invalid''
         | Inr out \<Rightarrow> \<lparr>o_header = json_header header, o_status = 200, o_body = out\<rparr>)"

definition trustCookie :: "challengeVerifyResponse \<Rightarrow> httpCookie" where
  "trustCookie v =
     \<lparr>k_name = v_cookieName v, k_value = v_cookieValue v, k_path = ''/'', k_maxAge = v_cookieMaxAge v,
      k_secure = True, k_httpOnly = True\<rparr>"

definition handleVerify ::
    "agentClient \<Rightarrow> agentNetwork \<Rightarrow> challengeConfig \<Rightarrow> ipNet list
       \<Rightarrow> string list gomap \<Rightarrow> httpRequest \<Rightarrow> string \<Rightarrow> ip \<Rightarrow> httpResponse" where
  "handleVerify agent network config trusted header request requestID clientIP =
     (if \<not> sameOriginSubmission request trusted
      then writeChallengeError header 403 requestID ''challenge_origin_rejected''
      else case max_bytes_reader (ch_maximumBodyBytes config) (h_body request) of (bytes, ending) \<Rightarrow>
        (case decodeSubmission bytes ending of
           SubmissionTooLarge \<Rightarrow> writeChallengeError header 413 requestID ''request_too_large''
         | SubmissionInvalid \<Rightarrow> writeChallengeError header 400 requestID ''challenge_invalid''
         | Submission input atEOF \<Rightarrow>
             if \<not> atEOF
                \<or> \<not> validChallengeFields (bv_challengeToken input) (bv_resourceID input)
                     (bv_siteID input) (bv_path input)
                \<or> length (bv_payload input) < 2
                \<or> ch_maximumBodyBytes config < int (length (bv_payload input))
             then writeChallengeError header 400 requestID ''challenge_invalid''
             else case challengeVerify agent network
                    requestID \<lparr>cv_token = bv_challengeToken input, cv_payload = bv_payload input,
                      cv_context = challengeContextOf (bv_resourceID input) (bv_siteID input) clientIP
                        request (bv_path input)\<rparr> of
               Inl err \<Rightarrow> writeChallengeError header 503 requestID ''challenge_verification_error''
             | Inr out \<Rightarrow>
                 \<lparr>o_header = json_header
                    (if v_verified out then set_cookie (trustCookie out) header else header),
                  o_status = 200,
                  o_body = verificationBody (v_verified out) (v_publicReason out) requestID\<rparr>))"

text \<open>\<open>None\<close> where the request is not for the challenge endpoints.\<close>

definition handleChallengeEndpoint ::
    "agentClient \<Rightarrow> agentNetwork \<Rightarrow> challengeConfig \<Rightarrow> ipNet list
       \<Rightarrow> string list gomap \<Rightarrow> httpRequest \<Rightarrow> string \<Rightarrow> ip \<Rightarrow> httpResponse option" where
  "handleChallengeEndpoint agent network config trusted header request requestID clientIP =
     (let createPath = ch_pathPrefix config @ ''/challenge'';
          verifyPath = createPath @ ''/verify''
      in if h_path request = createPath \<and> h_method request = ''GET''
         then Some (handleCreate agent network header request requestID clientIP)
         else if h_path request = verifyPath \<and> h_method request = ''POST''
         then Some (handleVerify agent network config trusted header request requestID clientIP)
         else if has_prefix (h_path request) (ch_pathPrefix config @ ''/'')
         then Some (writeChallengeError header 404 requestID ''challenge_endpoint_not_found'')
         else None)"


section \<open>Lemmas\<close>

lemma json_header_cookies: "header_values (json_header h) ''Set-Cookie'' = header_values h ''Set-Cookie''"
  by (simp add: json_header_def setEnforcementHeaders_def header_simps)

lemma json_header_safe: "enforcement_headers_set (json_header h)"
  by (simp add: json_header_def enforcement_headers_keep setEnforcementHeaders_sets header_names)

lemma error_cookies:
  "header_values (o_header (writeChallengeError header status requestID reason)) ''Set-Cookie''
   = header_values header ''Set-Cookie''"
  by (simp add: writeChallengeError_def json_header_cookies)

lemma create_cookies:
  "header_values (o_header (handleCreate agent network header request requestID clientIP)) ''Set-Cookie''
   = header_values header ''Set-Cookie''"
  by (simp add: handleCreate_def Let_def error_cookies json_header_cookies split: sum.split)

text \<open>A call depends on the network only through the one request it sends.\<close>

lemma request_network:
  assumes "network (challenge_call c endpoint requestID (the (marshal message)))
     = network' (challenge_call c endpoint requestID (the (marshal message)))"
  shows "challengeRequest c marshal unmarshal network endpoint requestID message
     = challengeRequest c marshal unmarshal network' endpoint requestID message"
  using assms by (cases "marshal message") (simp_all add: challengeRequest_def challenge_call_def)

lemma create_network:
  "network (challenge_call c (agc_challengeCreateURL c) requestID (the (marshalCreate message)))
     = network' (challenge_call c (agc_challengeCreateURL c) requestID (the (marshalCreate message))) \<Longrightarrow>
   challengeCreate c network requestID message = challengeCreate c network' requestID message"
  unfolding challengeCreate_def by (subst request_network) auto

lemma verify_network:
  "network (challenge_call c (agc_challengeVerifyURL c) requestID (the (marshalVerify message)))
     = network' (challenge_call c (agc_challengeVerifyURL c) requestID (the (marshalVerify message))) \<Longrightarrow>
   challengeVerify c network requestID message = challengeVerify c network' requestID message"
  unfolding challengeVerify_def by (subst request_network) auto

text \<open>The cookie of an accepted verification.\<close>

lemma trust_cookie_string:
  assumes "verification_ok v" "v_verified v"
  shows "split CHR '';'' (cookie_string (trustCookie v)) =
      [''__Host-sokol_trust='' @ sanitize_cookie_value (v_cookieValue v), '' Path=/'',
       '' Max-Age='' @ dec_of_int (v_cookieMaxAge v), '' HttpOnly'', '' Secure'', '' SameSite=Lax'']"
    and "cookie_string (trustCookie v) \<noteq> []"
proof -
  have t: "is_token ''__Host-sokol_trust''" by code_simp
  from assms have f: "v_cookieName v = ''__Host-sokol_trust''" "0 < v_cookieMaxAge v"
    by (simp_all add: verification_ok_def defaultTrustCookieName_def)
  show "split CHR '';'' (cookie_string (trustCookie v)) =
      [''__Host-sokol_trust='' @ sanitize_cookie_value (v_cookieValue v), '' Path=/'',
       '' Max-Age='' @ dec_of_int (v_cookieMaxAge v), '' HttpOnly'', '' Secure'', '' SameSite=Lax'']"
    using cookie_attributes [of "trustCookie v"] t f by (simp add: trustCookie_def)
  show "cookie_string (trustCookie v) \<noteq> []" using t f by (simp add: cookie_string_def trustCookie_def)
qed

text \<open>
  What a submission asks of the Agent: the fields of the body, within their bounds, and the context
  of the request it came with.
\<close>

definition submitted ::
    "challengeConfig \<Rightarrow> httpRequest \<Rightarrow> ip \<Rightarrow> challengeVerifyRequest \<Rightarrow> bool" where
  "submitted config request clientIP message \<longleftrightarrow>
     (\<exists>bytes ending input.
        max_bytes_reader (ch_maximumBodyBytes config) (h_body request) = (bytes, ending)
        \<and> decodeSubmission bytes ending = Submission input True
        \<and> validChallengeFields (bv_challengeToken input) (bv_resourceID input) (bv_siteID input)
            (bv_path input)
        \<and> 2 \<le> length (bv_payload input)
        \<and> int (length (bv_payload input)) \<le> ch_maximumBodyBytes config
        \<and> message = \<lparr>cv_token = bv_challengeToken input, cv_payload = bv_payload input,
            cv_context = challengeContextOf (bv_resourceID input) (bv_siteID input) clientIP request
              (bv_path input)\<rparr>)"

text \<open>What a verification adds to the cookies: one trust cookie, or nothing.\<close>

lemma verify_cookies:
  "header_values (o_header (handleVerify agent network config trusted header request requestID clientIP))
     ''Set-Cookie'' = header_values header ''Set-Cookie''
   \<or> (sameOriginSubmission request trusted
      \<and> (\<exists>message v. submitted config request clientIP message
         \<and> challengeVerify agent network requestID message = Inr v \<and> v_verified v
         \<and> header_values (o_header (handleVerify agent network config trusted header request
              requestID clientIP)) ''Set-Cookie''
           = header_values header ''Set-Cookie'' @ [cookie_string (trustCookie v)]))"
proof -
  have sc: "canonical_header_key ''Set-Cookie'' = ''Set-Cookie''" by (simp add: header_names)
  obtain bytes ending where r: "max_bytes_reader (ch_maximumBodyBytes config) (h_body request) = (bytes, ending)"
    by (cases "max_bytes_reader (ch_maximumBodyBytes config) (h_body request)") blast
  show ?thesis
  proof (cases "decodeSubmission bytes ending")
    case (Submission input atEOF)
    let ?message = "\<lparr>cv_token = bv_challengeToken input, cv_payload = bv_payload input,
      cv_context = challengeContextOf (bv_resourceID input) (bv_siteID input) clientIP request
        (bv_path input)\<rparr>"
    let ?valid = "validChallengeFields (bv_challengeToken input) (bv_resourceID input)
      (bv_siteID input) (bv_path input)"
    let ?n = "length (bv_payload input)"
    show ?thesis
    proof (cases "sameOriginSubmission request trusted \<and> atEOF \<and> ?valid \<and> 2 \<le> ?n
        \<and> int ?n \<le> ch_maximumBodyBytes config")
      case True
      then have "submitted config request clientIP ?message"
        unfolding submitted_def using r Submission
        by (intro exI [of _ bytes] exI [of _ ending] exI [of _ input]) simp
      with True r Submission sc show ?thesis
        by (cases "challengeVerify agent network requestID ?message")
          (auto simp: handleVerify_def error_cookies json_header_cookies set_cookie_def header_values_add)
    next
      case False
      with r Submission show ?thesis by (auto simp: handleVerify_def error_cookies)
    qed
  qed (simp_all add: handleVerify_def r error_cookies)
qed


section \<open>Properties\<close>

text \<open>
  C6. The trust cookie is earned. Starting from headers without cookies, an endpoint sets no cookie,
  or exactly one. Then a submission was posted to the verification path from the site's own origin;
  its body decoded, within the size limit, to fields and a payload within their bounds; the Agent was
  sent exactly that token and payload with the resource, site, path, client address and user agent
  of this request, answered 200, and its answer decoded to a verification that says verified. The
  cookie is the trust cookie for the whole site with the value and life of that answer, out of
  reach of scripts, only over TLS, with attributes that no cookie value can change.
\<close>

theorem trust_cookie_is_earned:
  assumes "handleChallengeEndpoint agent network config trusted header request requestID clientIP
      = Some response"
    and "header_values header ''Set-Cookie'' = []"
  shows "header_values (o_header response) ''Set-Cookie'' = []
     \<or> (h_method request = ''POST''
        \<and> h_path request = ch_pathPrefix config @ ''/challenge/verify''
        \<and> sameOriginSubmission request trusted
        \<and> (\<exists>bytes ending input body reply v cookie.
           max_bytes_reader (ch_maximumBodyBytes config) (h_body request) = (bytes, ending)
           \<and> decodeSubmission bytes ending = Submission input True
           \<and> validChallengeFields (bv_challengeToken input) (bv_resourceID input) (bv_siteID input)
               (bv_path input)
           \<and> 2 \<le> length (bv_payload input)
           \<and> int (length (bv_payload input)) \<le> ch_maximumBodyBytes config
           \<and> marshalVerify \<lparr>cv_token = bv_challengeToken input, cv_payload = bv_payload input,
               cv_context = \<lparr>cx_resourceID = bv_resourceID input, cx_siteID = bv_siteID input,
                 cx_clientIP = ip_string clientIP, cx_userAgent = boundedUserAgent request,
                 cx_path = bv_path input\<rparr>\<rparr> = Some body
           \<and> network (challenge_call agent (agc_challengeVerifyURL agent) requestID body) = Inr reply
           \<and> rp_status reply = 200 \<and> reply_value unmarshalVerification reply = Some v
           \<and> v_verified v \<and> 0 < v_cookieMaxAge v \<and> v_cookieMaxAge v \<le> 604800
           \<and> header_values (o_header response) ''Set-Cookie'' = [cookie]
           \<and> split CHR '';'' cookie =
               [''__Host-sokol_trust='' @ sanitize_cookie_value (v_cookieValue v), '' Path=/'',
                '' Max-Age='' @ dec_of_int (v_cookieMaxAge v), '' HttpOnly'', '' Secure'',
                '' SameSite=Lax'']))"
proof (cases "header_values (o_header response) ''Set-Cookie'' = []")
  case False
  then have p: "h_method request = ''POST''" "h_path request = ch_pathPrefix config @ ''/challenge/verify''"
    and r: "response = handleVerify agent network config trusted header request requestID clientIP"
    using assms by (auto simp: handleChallengeEndpoint_def Let_def create_cookies error_cookies
        split: if_splits)
  from verify_cookies [of agent network config trusted header request requestID clientIP] False assms(2)
  obtain message v where o: "sameOriginSubmission request trusted"
    and sub: "submitted config request clientIP message"
    and v: "challengeVerify agent network requestID message = Inr v" "v_verified v"
    and c: "header_values (o_header response) ''Set-Cookie'' = [cookie_string (trustCookie v)]"
    unfolding r by auto
  from v(1) obtain body reply where b: "marshalVerify message = Some body"
    "network (challenge_call agent (agc_challengeVerifyURL agent) requestID body) = Inr reply"
    "rp_status reply = 200" "reply_value unmarshalVerification reply = Some v" "verification_ok v"
    by (auto simp: verify_call.success_iff well_formed_def)
  have age: "0 < v_cookieMaxAge v" "v_cookieMaxAge v \<le> 604800"
    using b(5) v(2) by (simp_all add: verification_ok_def)
  show ?thesis
    using sub p o b(1-4) v(2) age c trust_cookie_string(1) [OF b(5) v(2)]
    unfolding submitted_def challengeContextOf_def by blast
qed simp

text \<open>An Agent that verifies every solution and hands out an empty challenge.\<close>

definition exampleNetwork :: agentNetwork where
  "exampleNetwork request =
     (if ar_url request = agc_challengeVerifyURL exampleClient then Inr (exampleReply exampleVerifiedBody)
      else if ar_url request = agc_challengeCreateURL exampleClient then Inr (exampleReply ''{}'')
      else Inr (exampleReply (marshalResponse exampleDeny)))"

definition exampleSubmission :: browserVerifyRequest where
  "exampleSubmission = \<lparr>bv_challengeToken = replicate 32 CHR ''t'', bv_resourceID = ''r'',
     bv_siteID = ''s'', bv_path = ''/shop'', bv_payload = ''{}''\<rparr>"

definition exampleChallengeConfig :: challengeConfig where
  "exampleChallengeConfig = \<lparr>ch_pathPrefix = ''/.sokol'', ch_maximumBodyBytes = 65536,
     ch_requestTimeout = ''2s''\<rparr>"

definition exampleSubmissionBody :: string where
  "exampleSubmissionBody = encode (JObject [(''challenge_token'', JString (replicate 32 CHR ''t'')),
     (''resource_id'', JString ''r''), (''site_id'', JString ''s''), (''path'', JString ''/shop''),
     (''payload'', JObject [])])"

definition exampleVerifyPost :: httpRequest where
  "exampleVerifyPost = examplePost\<lparr>h_path := ''/.sokol/challenge/verify'',
     h_header := [(''Origin'', [''http://example.test''])],
     h_body := Some \<lparr>b_bytes = exampleSubmissionBody, b_fails = False\<rparr>\<rparr>"

lemma example_stream:
  "max_bytes_reader (ch_maximumBodyBytes exampleChallengeConfig) (h_body exampleVerifyPost)
   = (exampleSubmissionBody, EndOfStream)"
proof -
  have "int (length exampleSubmissionBody) \<le> 200" by code_simp
  then show ?thesis by (simp add: max_bytes_reader_def exampleChallengeConfig_def exampleVerifyPost_def)
qed

lemma example_decoded: "decodeSubmission exampleSubmissionBody EndOfStream = Submission exampleSubmission True"
  by code_simp

lemma example_verified:
  assumes "cv_payload message = ''{}''"
  shows "challengeVerify exampleClient exampleNetwork requestID message = Inr exampleVerified"
proof -
  have "compact ''{}'' = Some ''{}''" by code_simp
  then have m: "marshalVerify message \<noteq> None" by (simp add: marshalVerify_def assms)
  have "challengeVerify exampleClient exampleNetwork requestID message
      = challengeVerify exampleClient (\<lambda>_. Inr (exampleReply exampleVerifiedBody)) requestID message"
    by (rule verify_network) (simp add: challenge_call_def exampleNetwork_def)
  with exampleVerified_returned [OF m] show ?thesis by simp
qed

lemma example_verify:
  "handleVerify exampleClient exampleNetwork exampleChallengeConfig [] [] exampleVerifyPost ''r1'' clientIP =
   \<lparr>o_header = json_header (set_cookie (trustCookie exampleVerified) []), o_status = 200,
    o_body = verificationBody True ''ok'' ''r1''\<rparr>"
proof -
  have "sameOriginSubmission exampleVerifyPost []"
    "validChallengeFields (bv_challengeToken exampleSubmission) (bv_resourceID exampleSubmission)
       (bv_siteID exampleSubmission) (bv_path exampleSubmission)" by code_simp+
  moreover have "\<not> length (bv_payload exampleSubmission) < 2"
    "\<not> ch_maximumBodyBytes exampleChallengeConfig < int (length (bv_payload exampleSubmission))"
    "v_verified exampleVerified" "v_publicReason exampleVerified = ''ok''"
    "bv_payload exampleSubmission = ''{}''"
    by (simp_all add: exampleSubmission_def exampleChallengeConfig_def exampleVerified_def)
  ultimately show ?thesis
    by (simp add: handleVerify_def example_stream example_decoded example_verified)
qed

theorem trust_cookie_is_earned_witness:
  "handleChallengeEndpoint exampleClient exampleNetwork exampleChallengeConfig []
     [] exampleVerifyPost ''r1'' [192, 0, 2, 1] \<noteq> None
   \<and> header_values (o_header (the (handleChallengeEndpoint exampleClient exampleNetwork
        exampleChallengeConfig [] [] exampleVerifyPost ''r1'' [192, 0, 2, 1]))) ''Set-Cookie'' \<noteq> []
   \<and> sameOriginSubmission exampleVerifyPost []"
proof -
  let ?r = "handleChallengeEndpoint exampleClient exampleNetwork exampleChallengeConfig []
       [] exampleVerifyPost ''r1'' [192, 0, 2, 1]"
  let ?o = "\<lparr>o_header = json_header (set_cookie (trustCookie exampleVerified) []), o_status = 200,
    o_body = verificationBody True ''ok'' ''r1''\<rparr>"
  have r: "?r = Some ?o"
    using example_verify [of "[192, 0, 2, 1]"]
    by (simp add: handleChallengeEndpoint_def exampleChallengeConfig_def exampleVerifyPost_def examplePost_def)
  have e: "header_values ([] :: string list gomap) ''Set-Cookie'' = []" by (simp add: header_values_def)
  have "cookie_string (trustCookie exampleVerified) \<noteq> []"
    by (rule trust_cookie_string(2)) code_simp+
  then have c: "header_values (o_header ?o) ''Set-Cookie'' \<noteq> []"
    by (simp add: json_header_cookies set_cookie_def header_values_add header_names)
  from trust_cookie_is_earned [OF r e] c have "sameOriginSubmission exampleVerifyPost []" by blast
  with r c show ?thesis by simp
qed




text \<open>
  Messages to the Agent that are bounded: the fields pass the checks, the address is the client's,
  the user agent has at most 4096 bytes, and the payload fits into the body limit.
\<close>

definition bounded_context :: "ip \<Rightarrow> string \<Rightarrow> challengeContext \<Rightarrow> bool" where
  "bounded_context clientIP token cx \<longleftrightarrow>
     validChallengeFields token (cx_resourceID cx) (cx_siteID cx) (cx_path cx)
     \<and> cx_clientIP cx = ip_string clientIP \<and> int (length (cx_userAgent cx)) \<le> 4096"

lemma challengeContextOf_bounded:
  "validChallengeFields token resourceID siteID path \<Longrightarrow>
     bounded_context clientIP token (challengeContextOf resourceID siteID clientIP request path)"
  by (simp add: bounded_context_def challengeContextOf_def boundedUserAgent_def Let_def)

text \<open>
  C25. The Agent sees only bounded challenge messages. What the endpoints answer depends on the
  network only through the encodings of bounded messages, sent to the two challenge URLs: a request
  with other fields, a foreign address, an oversized user agent or payload is answered without
  anything of it being sent to the Agent.
\<close>

theorem agent_sees_bounded_challenges:
  assumes "\<And>message. bounded_context clientIP (cr_challengeToken message) (cr_context message) \<Longrightarrow>
      network (challenge_call agent (agc_challengeCreateURL agent) requestID (the (marshalCreate message)))
      = network' (challenge_call agent (agc_challengeCreateURL agent) requestID (the (marshalCreate message)))"
    and "\<And>message. bounded_context clientIP (cv_token message) (cv_context message) \<Longrightarrow>
      2 \<le> length (cv_payload message) \<Longrightarrow>
      int (length (cv_payload message)) \<le> ch_maximumBodyBytes config \<Longrightarrow>
      network (challenge_call agent (agc_challengeVerifyURL agent) requestID (the (marshalVerify message)))
      = network' (challenge_call agent (agc_challengeVerifyURL agent) requestID (the (marshalVerify message)))"
  shows "handleChallengeEndpoint agent network config trusted header request requestID clientIP
     = handleChallengeEndpoint agent network' config trusted header request requestID clientIP"
proof -
  have "challengeCreate agent network requestID
        \<lparr>cr_challengeToken = t, cr_context = challengeContextOf r s clientIP request p\<rparr>
      = challengeCreate agent network' requestID
        \<lparr>cr_challengeToken = t, cr_context = challengeContextOf r s clientIP request p\<rparr>"
    if "validChallengeFields t r s p" for t r s p
    by (rule create_network, rule assms(1)) (simp add: challengeContextOf_bounded that)
  then have c: "handleCreate agent network header request requestID clientIP
      = handleCreate agent network' header request requestID clientIP"
    unfolding handleCreate_def Let_def by (simp cong: if_cong)
  have m: "challengeVerify agent network requestID
        \<lparr>cv_token = bv_challengeToken i, cv_payload = bv_payload i,
         cv_context = challengeContextOf (bv_resourceID i) (bv_siteID i) clientIP request (bv_path i)\<rparr>
      = challengeVerify agent network' requestID
        \<lparr>cv_token = bv_challengeToken i, cv_payload = bv_payload i,
         cv_context = challengeContextOf (bv_resourceID i) (bv_siteID i) clientIP request (bv_path i)\<rparr>"
    if "validChallengeFields (bv_challengeToken i) (bv_resourceID i) (bv_siteID i) (bv_path i)"
      "\<not> length (bv_payload i) < 2" "\<not> ch_maximumBodyBytes config < int (length (bv_payload i))"
    for i
    by (rule verify_network, rule assms(2)) (use that in \<open>simp_all add: challengeContextOf_bounded\<close>)
  have v: "handleVerify agent network config trusted header request requestID clientIP
      = handleVerify agent network' config trusted header request requestID clientIP"
    unfolding handleVerify_def by (simp add: m split: prod.split submission.split)
  show ?thesis by (simp add: handleChallengeEndpoint_def Let_def c v)
qed

theorem agent_sees_bounded_challenges_witness:
  "handleChallengeEndpoint exampleClient
       (\<lambda>call. if ar_url call = agc_evaluateURL exampleClient then Inl ''down'' else exampleNetwork call)
       exampleChallengeConfig [] [] exampleVerifyPost ''r1'' [192, 0, 2, 1]
     = handleChallengeEndpoint exampleClient exampleNetwork
       exampleChallengeConfig [] [] exampleVerifyPost ''r1'' [192, 0, 2, 1]"
  by (rule agent_sees_bounded_challenges) (simp_all add: challenge_call_def exampleClient_def)



definition exampleChallenge :: evaluationResponse where
  "exampleChallenge = emptyResponse\<lparr>r_decision := ''challenge'', r_status := 403, r_requestID := ''r1'',
     r_publicReason := ''challenge_required'', r_resourceID := ''r'', r_siteID := ''s'',
     r_challengeURL := ''/c'', r_challengeToken := replicate 32 CHR ''t''\<rparr>"


end
