(* ===== verification/Forwarding.thy ===== *)
theory Forwarding
  imports Validation "HOL-Library.Multiset"
begin

text \<open>
  Which headers and cookies of a request the Agent is told about (\<open>forwarding.go\<close>): the policy
  built from the configuration, and the two loops that collect headers and cookies within fixed
  bounds and report whether anything was left out or cut short.

  Both loops keep the same contract, stated once as the locale \<open>bounded_collector\<close>.
\<close>

section \<open>Bounds and policy\<close>

definition maximumForwardedValueBytes :: int where "maximumForwardedValueBytes = 4096"
definition maximumForwardedNameBytes :: int where "maximumForwardedNameBytes = 128"
definition maximumForwardedHeaders :: int where "maximumForwardedHeaders = 128"
definition maximumForwardedCookies :: int where "maximumForwardedCookies = 128"
definition maximumForwardedHeaderBytes :: int where "maximumForwardedHeaderBytes = 65536"
definition maximumForwardedCookieBytes :: int where "maximumForwardedCookieBytes = 65536"

lemmas forwarding_limits = maximumForwardedValueBytes_def maximumForwardedNameBytes_def
  maximumForwardedHeaders_def maximumForwardedCookies_def maximumForwardedHeaderBytes_def
  maximumForwardedCookieBytes_def

record forwardingPolicy =
  fp_allHeaders :: bool
  fp_allCookies :: bool
  fp_headers :: "string list"
  fp_cookies :: "string list"
  fp_headerSet :: "string set"
  fp_cookieSet :: "string set"
  fp_allowlistedHeaders :: "string list"
  fp_allowlistedCookies :: "string list"

definition policy_header :: "string \<Rightarrow> forwardingPolicy \<Rightarrow> forwardingPolicy" where
  "policy_header header policy =
     (let canonical = canonical_header_key header in
      if canonical \<in> fp_headerSet policy then policy
      else let policy1 = policy\<lparr>fp_headerSet := insert canonical (fp_headerSet policy),
                 fp_headers := fp_headers policy @ [canonical]\<rparr>
      in if fp_allHeaders policy1
         then policy1\<lparr>fp_allowlistedHeaders := fp_allowlistedHeaders policy1 @ [to_lower canonical]\<rparr>
         else policy1)"

definition policy_cookie :: "string \<Rightarrow> forwardingPolicy \<Rightarrow> forwardingPolicy" where
  "policy_cookie cookie policy =
     (if cookie \<in> fp_cookieSet policy then policy
      else let policy1 = policy\<lparr>fp_cookieSet := insert cookie (fp_cookieSet policy),
                 fp_cookies := fp_cookies policy @ [cookie]\<rparr>
      in if fp_allCookies policy1
         then policy1\<lparr>fp_allowlistedCookies := fp_allowlistedCookies policy1 @ [cookie]\<rparr>
         else policy1)"

definition newForwardingPolicy :: "requestConfig \<Rightarrow> forwardingPolicy" where
  "newForwardingPolicy config =
     fold policy_cookie (rq_cookies config)
       (fold policy_header (rq_headers config)
         \<lparr>fp_allHeaders = (rq_headerMode config = forwardAll),
          fp_allCookies = (rq_cookieMode config = forwardAll),
          fp_headers = [], fp_cookies = [], fp_headerSet = {}, fp_cookieSet = {},
          fp_allowlistedHeaders = [], fp_allowlistedCookies = []\<rparr>)"

section \<open>Collecting\<close>

text \<open>The variables \<open>result\<close>, \<open>total\<close> and \<open>truncated\<close> of the two loops.\<close>

record collector =
  col_result :: "string gomap"
  col_total :: int
  col_truncated :: bool

definition forbidden_bytes :: string where
  "forbidden_bytes = [CHR 0x00, CHR 0x0D, CHR 0x0A]"

definition header_step :: "httpRequest \<Rightarrow> string \<Rightarrow> collector \<Rightarrow> collector" where
  "header_step request name c =
     (let values = header_values (h_header request) name;
          key = to_lower name in
      if values = [] then c
      else if key = cookieHeaderKey then c
      else if key \<in> set (keys (col_result c)) then c
      else if maximumForwardedNameBytes < int (length key) \<or> \<not> validHeaderName key
      then c\<lparr>col_truncated := True\<rparr>
      else let value0 = join values '', '' in
        if contains_any value0 forbidden_bytes then c\<lparr>col_truncated := True\<rparr>
        else let long = maximumForwardedValueBytes < int (length value0);
                 value = (if long then take 4096 value0 else value0);
                 c1 = (if long then c\<lparr>col_truncated := True\<rparr> else c)
        in if maximumForwardedHeaders \<le> int (length (col_result c1))
              \<or> maximumForwardedHeaderBytes
                  < col_total c1 + int (length key) + int (length value)
           then c1\<lparr>col_truncated := True\<rparr>
           else c1\<lparr>col_total := col_total c1 + (int (length key) + int (length value)),
                   col_result := AList.update key value (col_result c1)\<rparr>)"

text \<open>
  The names in the order they are offered. \<open>ord\<close> is the order in which the header map is ranged
  over; \<open>sort.Slice\<close> is not stable, which makes no difference where \<open>ord\<close> is arbitrary.
\<close>

definition header_names :: "forwardingPolicy \<Rightarrow> range_order \<Rightarrow> httpRequest \<Rightarrow> string list" where
  "header_names p ord request =
     fp_headers p
     @ (if fp_allHeaders p
        then sort_key to_lower
          (filter (\<lambda>name. canonical_header_key name \<notin> fp_headerSet p) (ord (keys (h_header request))))
        else [])"

definition collected_headers :: "forwardingPolicy \<Rightarrow> range_order \<Rightarrow> httpRequest \<Rightarrow> collector" where
  "collected_headers p ord request =
     fold (header_step request) (header_names p ord request)
       \<lparr>col_result = [], col_total = 0, col_truncated = False\<rparr>"

definition framing_headers :: "httpRequest \<Rightarrow> string gomap \<Rightarrow> string gomap" where
  "framing_headers request result0 =
     (let result1 = (if 0 \<le> h_contentLength request
                        \<and> h_method request \<noteq> ''GET'' \<and> h_method request \<noteq> ''HEAD''
                     then AList.update ''content-length'' (dec_of_int (h_contentLength request)) result0
                     else result0)
      in if h_transferEncoding request \<noteq> []
         then AList.update ''transfer-encoding'' (join (h_transferEncoding request) '', '') result1
         else result1)"

definition forwardedHeaders ::
    "forwardingPolicy \<Rightarrow> range_order \<Rightarrow> httpRequest \<Rightarrow> string gomap \<times> bool" where
  "forwardedHeaders p ord request =
     (let c = collected_headers p ord request
      in (framing_headers request (col_result c), col_truncated c))"

text \<open>The loop over the parsed cookies: \<open>first\<close>, \<open>order\<close>, \<open>truncated\<close>.\<close>

fun first_cookies ::
    "(string \<times> string) list \<Rightarrow> string gomap \<Rightarrow> string list \<Rightarrow> bool
       \<Rightarrow> string gomap \<times> string list \<times> bool" where
  "first_cookies [] first order truncated = (first, order, truncated)"
| "first_cookies ((name, value) # parsed) first order truncated =
     (if name \<in> set (keys first) then first_cookies parsed first order True
      else first_cookies parsed (AList.update name value first) (order @ [name]) truncated)"

definition cookie_step :: "string gomap \<Rightarrow> string \<Rightarrow> collector \<Rightarrow> collector" where
  "cookie_step first name c =
     (let value0 = (case map_of first name of None \<Rightarrow> [] | Some v \<Rightarrow> v) in
      if \<not> validCookieName name \<or> contains_any value0 forbidden_bytes
      then c\<lparr>col_truncated := True\<rparr>
      else let long = maximumForwardedValueBytes < int (length value0);
               value = (if long then take 4096 value0 else value0);
               c1 = (if long then c\<lparr>col_truncated := True\<rparr> else c)
      in if maximumForwardedCookies \<le> int (length (col_result c1))
            \<or> maximumForwardedCookieBytes
                < col_total c1 + int (length name) + int (length value)
         then c1\<lparr>col_truncated := True\<rparr>
         else c1\<lparr>col_total := col_total c1 + (int (length name) + int (length value)),
                 col_result := AList.update name value (col_result c1)\<rparr>)"

definition cookie_names :: "forwardingPolicy \<Rightarrow> string gomap \<Rightarrow> string list \<Rightarrow> string list" where
  "cookie_names p first order =
     filter (\<lambda>name. name \<in> set (keys first)) (fp_cookies p)
     @ (if fp_allCookies p then sort (filter (\<lambda>name. name \<notin> fp_cookieSet p) order) else [])"

definition forwardedCookies :: "forwardingPolicy \<Rightarrow> httpRequest \<Rightarrow> string gomap \<times> bool" where
  "forwardedCookies p request =
     (case first_cookies (request_cookies request) [] [] False of (first, order, truncated) \<Rightarrow>
        let c = fold (cookie_step first) (cookie_names p first order)
                  \<lparr>col_result = [], col_total = 0, col_truncated = truncated\<rparr>
        in (col_result c, col_truncated c))"

section \<open>What a collecting loop promises\<close>

text \<open>The bytes of the names and values of a map.\<close>

definition map_bytes :: "string gomap \<Rightarrow> int" where
  "map_bytes m = sum_list (map (\<lambda>(k, v). int (length k) + int (length v)) m)"

text \<open>
  \<open>within\<close> bounds a collector: at most \<open>n\<close> entries, at most \<open>b\<close> bytes of names and values, every
  value at most 4096 bytes without NUL, CR or LF, every name accepted by \<open>ok\<close>.
\<close>

definition entry_within :: "(string \<Rightarrow> bool) \<Rightarrow> string \<times> string \<Rightarrow> bool" where
  "entry_within ok e \<longleftrightarrow>
     ok (fst e) \<and> int (length (snd e)) \<le> 4096 \<and> \<not> contains_any (snd e) forbidden_bytes"

definition within :: "(string \<Rightarrow> bool) \<Rightarrow> int \<Rightarrow> int \<Rightarrow> collector \<Rightarrow> bool" where
  "within ok n b c \<longleftrightarrow>
     wf_map (col_result c) \<and> int (length (col_result c)) \<le> n
     \<and> map_bytes (col_result c) \<le> col_total c \<and> col_total c \<le> b
     \<and> list_all (entry_within ok) (col_result c)"

lemma map_bytes_update: "map_bytes (AList.update k v m) \<le> map_bytes m + int (length k) + int (length v)"
  unfolding map_bytes_def by (induction m) auto

lemma list_all_update: "list_all P m \<Longrightarrow> P (k, v) \<Longrightarrow> list_all P (AList.update k v m)"
  by (induction m) auto

lemma within_flag [simp]: "within ok n b (c\<lparr>col_truncated := t\<rparr>) = within ok n b c"
  by (simp add: within_def)

lemma within_store:
  assumes "within ok n b c" "int (length (col_result c)) < n"
    and "col_total c + (int (length k) + int (length v)) \<le> b" "entry_within ok (k, v)"
  shows "within ok n b (c\<lparr>col_total := col_total c + (int (length k) + int (length v)),
           col_result := AList.update k v (col_result c)\<rparr>)"
  using assms map_bytes_update [of k v "col_result c"]
  by (auto simp: within_def length_update intro: list_all_update)

text \<open>
  A step offers one name to the collector. \<open>source\<close> is the value the request has for the name, if
  it has one to forward; \<open>key\<close> is the name it is forwarded under.
\<close>

locale bounded_collector =
  fixes step :: "'n \<Rightarrow> collector \<Rightarrow> collector"
    and key :: "'n \<Rightarrow> string"
    and source :: "'n \<Rightarrow> string option"
    and inv :: "collector \<Rightarrow> bool"
  assumes step_inv: "inv c \<Longrightarrow> inv (step n c)"
    and step_none: "source n = None \<Longrightarrow> step n c = c"
    and step_other: "k \<noteq> key n \<Longrightarrow> map_of (col_result (step n c)) k = map_of (col_result c) k"
    and step_some: "source n = Some v \<Longrightarrow> key n \<notin> set (keys (col_result c)) \<Longrightarrow>
       map_of (col_result (step n c)) (key n) \<in> {None, Some (take 4096 v)}"
    and step_flag: "source n = Some v \<Longrightarrow> key n \<notin> set (keys (col_result c)) \<Longrightarrow>
       col_truncated (step n c)
       \<longleftrightarrow> col_truncated c \<or> map_of (col_result (step n c)) (key n) \<noteq> Some v"
begin

lemma run_inv: "inv c \<Longrightarrow> inv (fold step ns c)"
  by (induction ns arbitrary: c) (auto intro: step_inv)

lemma run_other: "k \<notin> key ` set ns \<Longrightarrow> map_of (col_result (fold step ns c)) k = map_of (col_result c) k"
  by (induction ns arbitrary: c) (auto simp: step_other)

lemma run_keys:
  "map_of (col_result (fold step ns c)) k \<noteq> None \<Longrightarrow>
     map_of (col_result c) k \<noteq> None \<or> (\<exists>n \<in> set ns. key n = k \<and> source n \<noteq> None)"
proof (induction ns arbitrary: c)
  case (Cons m ns)
  from Cons.IH [of "step m c"] Cons.prems
  consider "map_of (col_result (step m c)) k \<noteq> None" | "\<exists>n \<in> set ns. key n = k \<and> source n \<noteq> None"
    by auto
  then show ?case
    by cases (metis list.set_intros(1) step_none step_other, auto)
qed simp

lemma fresh_step:
  assumes "k \<noteq> key n" "k \<notin> set (keys (col_result c))"
  shows "k \<notin> set (keys (col_result (step n c)))"
  using assms by (metis map_of_eq_None_keys step_other)

lemma fresh_steps:
  assumes "distinct (map key (m # ns))" "\<forall>n \<in> set (m # ns). key n \<notin> set (keys (col_result c))"
  shows "\<forall>n \<in> set ns. key n \<notin> set (keys (col_result (step m c)))"
proof
  fix n assume "n \<in> set ns"
  with assms(1) have "key n \<noteq> key m" by (auto simp: rev_image_eqI)
  moreover have "key n \<notin> set (keys (col_result c))"
    using assms(2) \<open>n \<in> set ns\<close> by simp
  ultimately show "key n \<notin> set (keys (col_result (step m c)))" by (rule fresh_step)
qed

text \<open>What a loop over different names forwards: for each name, its value or a prefix, or nothing.\<close>

lemma run_some:
  assumes "distinct (map key ns)" "\<forall>n \<in> set ns. key n \<notin> set (keys (col_result c))"
    and "n \<in> set ns"
  shows "map_of (col_result (fold step ns c)) (key n)
     \<in> {None} \<union> {Some (take 4096 v) | v. source n = Some v}"
  using assms
proof (induction ns arbitrary: c)
  case (Cons m ns)
  note fresh = fresh_steps [OF Cons.prems(1,2)]
  show ?case
  proof (cases "n \<in> set ns")
    case True
    with Cons.IH [OF _ fresh] Cons.prems(1) show ?thesis by simp
  next
    case False
    with Cons.prems have n: "n = m" by simp
    have "map_of (col_result (fold step (m # ns) c)) (key n) = map_of (col_result (step m c)) (key m)"
      using Cons.prems(1) n by (simp add: run_other)
    moreover have "map_of (col_result c) (key m) = None"
      using Cons.prems(2) by (simp add: map_of_eq_None_keys)
    ultimately show ?thesis
      using Cons.prems(2) n step_some [of m _ c] step_none [of m c]
      by (cases "source m") auto
  qed
qed simp

text \<open>The flag is set exactly when some name lost its value or a part of it.\<close>

lemma run_flag:
  assumes "distinct (map key ns)" "\<forall>n \<in> set ns. key n \<notin> set (keys (col_result c))"
  shows "col_truncated (fold step ns c) \<longleftrightarrow> col_truncated c
     \<or> (\<exists>n \<in> set ns. source n \<noteq> None \<and> map_of (col_result (fold step ns c)) (key n) \<noteq> source n)"
  using assms
proof (induction ns arbitrary: c)
  case (Cons m ns)
  note fresh = fresh_steps [OF Cons.prems(1,2)]
  have last: "map_of (col_result (fold step (m # ns) c)) (key m) = map_of (col_result (step m c)) (key m)"
    using Cons.prems(1) by (simp add: run_other)
  have here: "col_truncated (step m c) \<longleftrightarrow> col_truncated c
      \<or> source m \<noteq> None \<and> map_of (col_result (step m c)) (key m) \<noteq> source m"
    using Cons.prems(2) step_flag [of m _ c] step_none [of m c] by (cases "source m") auto
  from Cons.IH [OF _ fresh] Cons.prems(1) here last show ?case
    by auto
qed simp

end

section \<open>The two loops keep the promise\<close>

definition header_name_ok :: "string \<Rightarrow> bool" where
  "header_name_ok k \<longleftrightarrow> int (length k) \<le> 128 \<and> validHeaderName k"

definition offered_header :: "httpRequest \<Rightarrow> string \<Rightarrow> string option" where
  "offered_header request name =
     (let values = header_values (h_header request) name in
      if values = [] \<or> to_lower name = cookieHeaderKey then None else Some (join values '', ''))"

definition offered_cookie :: "string gomap \<Rightarrow> string \<Rightarrow> string option" where
  "offered_cookie first name = Some (case map_of first name of None \<Rightarrow> [] | Some v \<Rightarrow> v)"

lemma contains_any_take: "\<not> contains_any v cs \<Longrightarrow> \<not> contains_any (take n v) cs"
  by (auto simp: contains_any_iff dest: in_set_takeD)

lemma entry_within_take:
  "ok k \<Longrightarrow> \<not> contains_any v forbidden_bytes \<Longrightarrow> entry_within ok (k, take 4096 v)"
  by (simp add: entry_within_def contains_any_take)

lemma within_store_whole:
  assumes "within ok n b c" "int (length (col_result c)) < n"
    and "col_total c + (int (length k) + int (length v)) \<le> b"
    and "ok k" "\<not> contains_any v forbidden_bytes" "length v \<le> 4096"
  shows "within ok n b (c\<lparr>col_total := col_total c + (int (length k) + int (length v)),
           col_result := AList.update k v (col_result c)\<rparr>)"
  using assms by (intro within_store) (simp_all add: entry_within_def)

lemma within_store_cut:
  assumes "within ok n b c" "int (length (col_result c)) < n"
    and "col_total c + int (length k) \<le> b - 4096"
    and "ok k" "\<not> contains_any v forbidden_bytes" "4096 < length v"
  shows "within ok n b (c\<lparr>col_truncated := t, col_total := col_total c + (int (length k) + 4096),
           col_result := AList.update k (take 4096 v) (col_result c)\<rparr>)"
  using within_store [of ok n b "c\<lparr>col_truncated := t\<rparr>" k "take 4096 v"] assms
    entry_within_take [of ok k v]
  by simp

lemma take_part: "4096 < int (length v) \<Longrightarrow> take 4096 v \<noteq> v"
  using length_take [of 4096 v] by (metis linorder_not_less min.absorb2 nat_int_comparison(2) nless_le of_nat_numeral)

lemmas step_simps = Let_def forwarding_limits alist_simps map_of_eq_None_keys take_part

interpretation header_loop: bounded_collector "header_step request" to_lower "offered_header request"
    "within header_name_ok 128 65536" for request
proof
  fix n k v c
  show "within header_name_ok 128 65536 (header_step request n c)" if "within header_name_ok 128 65536 c"
    using that
    by (auto simp: header_step_def Let_def forwarding_limits header_name_ok_def
        intro!: within_store_whole within_store_cut)
  show "header_step request n c = c" if "offered_header request n = None"
    using that by (auto simp: header_step_def offered_header_def Let_def split: if_splits)
  show "map_of (col_result (header_step request n c)) k = map_of (col_result c) k" if "k \<noteq> to_lower n"
    using that by (simp add: header_step_def step_simps)
  assume o: "offered_header request n = Some v" and f: "to_lower n \<notin> set (keys (col_result c))"
  from f have none: "map_of (col_result c) (to_lower n) = None" by (simp add: map_of_eq_None_keys)
  from o have v: "header_values (h_header request) n \<noteq> []" "to_lower n \<noteq> cookieHeaderKey"
      "v = join (header_values (h_header request) n) '', ''"
    by (auto simp: offered_header_def Let_def split: if_splits)
  show "map_of (col_result (header_step request n c)) (to_lower n) \<in> {None, Some (take 4096 v)}"
    using v f none by (simp add: header_step_def Let_def forwarding_limits map_of_update_if)
  show "col_truncated (header_step request n c)
      \<longleftrightarrow> col_truncated c \<or> map_of (col_result (header_step request n c)) (to_lower n) \<noteq> Some v"
    using v f none
    by (simp add: header_step_def Let_def forwarding_limits map_of_update_if take_part)
qed

interpretation cookie_loop: bounded_collector "cookie_step first" id "offered_cookie first"
    "within validCookieName 128 65536" for first
proof
  fix n k v c
  show "within validCookieName 128 65536 (cookie_step first n c)" if "within validCookieName 128 65536 c"
    using that
    by (auto simp: cookie_step_def Let_def forwarding_limits
        intro!: within_store_whole within_store_cut)
  show "cookie_step first n c = c" if "offered_cookie first n = None"
    using that by (simp add: offered_cookie_def)
  show "map_of (col_result (cookie_step first n c)) k = map_of (col_result c) k" if "k \<noteq> id n"
    using that by (simp add: cookie_step_def step_simps)
  assume o: "offered_cookie first n = Some v" and f: "id n \<notin> set (keys (col_result c))"
  from f have none: "map_of (col_result c) n = None" by (simp add: map_of_eq_None_keys)
  from o have v: "(case map_of first n of None \<Rightarrow> [] | Some v \<Rightarrow> v) = v"
    by (simp add: offered_cookie_def)
  show "map_of (col_result (cookie_step first n c)) (id n) \<in> {None, Some (take 4096 v)}"
    using none unfolding cookie_step_def v by (simp add: Let_def forwarding_limits map_of_update_if)
  show "col_truncated (cookie_step first n c)
      \<longleftrightarrow> col_truncated c \<or> map_of (col_result (cookie_step first n c)) (id n) \<noteq> Some v"
    using none unfolding cookie_step_def v
    by (simp add: Let_def forwarding_limits map_of_update_if take_part)
qed

section \<open>The policy and the names\<close>

definition policy_ok :: "forwardingPolicy \<Rightarrow> bool" where
  "policy_ok p \<longleftrightarrow> distinct (fp_headers p) \<and> fp_headerSet p = set (fp_headers p)
     \<and> distinct (fp_cookies p) \<and> fp_cookieSet p = set (fp_cookies p)"

lemma policy_header_keeps:
  "policy_ok p \<Longrightarrow> policy_ok (policy_header h p)"
  "set (fp_headers (policy_header h p)) = insert (canonical_header_key h) (set (fp_headers p)) \<or> \<not> policy_ok p"
  "fp_cookies (policy_header h p) = fp_cookies p"
  "fp_allHeaders (policy_header h p) = fp_allHeaders p"
  "fp_allCookies (policy_header h p) = fp_allCookies p"
  by (auto simp: policy_header_def policy_ok_def Let_def)

lemma policy_cookie_keeps:
  "policy_ok p \<Longrightarrow> policy_ok (policy_cookie h p)"
  "set (fp_cookies (policy_cookie h p)) = insert h (set (fp_cookies p)) \<or> \<not> policy_ok p"
  "fp_headers (policy_cookie h p) = fp_headers p"
  "fp_allHeaders (policy_cookie h p) = fp_allHeaders p"
  "fp_allCookies (policy_cookie h p) = fp_allCookies p"
  by (auto simp: policy_cookie_def policy_ok_def Let_def)

lemma fold_policy_header:
  "policy_ok p \<Longrightarrow> policy_ok (fold policy_header hs p)
     \<and> set (fp_headers (fold policy_header hs p)) = canonical_header_key ` set hs \<union> set (fp_headers p)
     \<and> fp_cookies (fold policy_header hs p) = fp_cookies p
     \<and> fp_allHeaders (fold policy_header hs p) = fp_allHeaders p
     \<and> fp_allCookies (fold policy_header hs p) = fp_allCookies p"
proof (induction hs arbitrary: p)
  case (Cons h hs)
  from Cons.IH [OF policy_header_keeps(1) [OF Cons.prems]] policy_header_keeps(2-5) [of h p] Cons.prems
  show ?case by auto
qed simp

lemma fold_policy_cookie:
  "policy_ok p \<Longrightarrow> policy_ok (fold policy_cookie hs p)
     \<and> set (fp_cookies (fold policy_cookie hs p)) = set hs \<union> set (fp_cookies p)
     \<and> fp_headers (fold policy_cookie hs p) = fp_headers p
     \<and> fp_allHeaders (fold policy_cookie hs p) = fp_allHeaders p
     \<and> fp_allCookies (fold policy_cookie hs p) = fp_allCookies p"
proof (induction hs arbitrary: p)
  case (Cons h hs)
  from Cons.IH [OF policy_cookie_keeps(1) [OF Cons.prems]] policy_cookie_keeps(2-5) [of h p] Cons.prems
  show ?case by auto
qed simp

text \<open>The policy holds every configured name once, headers in canonical form.\<close>

lemma new_policy:
  "policy_ok (newForwardingPolicy config)"
  "set (fp_headers (newForwardingPolicy config)) = canonical_header_key ` set (rq_headers config)"
  "set (fp_cookies (newForwardingPolicy config)) = set (rq_cookies config)"
  "fp_allHeaders (newForwardingPolicy config) \<longleftrightarrow> rq_headerMode config = forwardAll"
  "fp_allCookies (newForwardingPolicy config) \<longleftrightarrow> rq_cookieMode config = forwardAll"
proof -
  let ?p0 = "\<lparr>fp_allHeaders = (rq_headerMode config = forwardAll),
    fp_allCookies = (rq_cookieMode config = forwardAll),
    fp_headers = [], fp_cookies = [], fp_headerSet = {}, fp_cookieSet = {},
    fp_allowlistedHeaders = [], fp_allowlistedCookies = []\<rparr>"
  have "policy_ok ?p0" by (simp add: policy_ok_def)
  note h = fold_policy_header [OF this, of "rq_headers config"]
  then have "policy_ok (fold policy_header (rq_headers config) ?p0)" by simp
  note c = fold_policy_cookie [OF this, of "rq_cookies config"]
  from h c show "policy_ok (newForwardingPolicy config)"
    "set (fp_headers (newForwardingPolicy config)) = canonical_header_key ` set (rq_headers config)"
    "set (fp_cookies (newForwardingPolicy config)) = set (rq_cookies config)"
    "fp_allHeaders (newForwardingPolicy config) \<longleftrightarrow> rq_headerMode config = forwardAll"
    "fp_allCookies (newForwardingPolicy config) \<longleftrightarrow> rq_cookieMode config = forwardAll"
    by (simp_all add: newForwardingPolicy_def)
qed

text \<open>A header map as Go's server builds it: canonical keys, all of them tokens.\<close>

definition server_headers :: "string list gomap \<Rightarrow> bool" where
  "server_headers h \<longleftrightarrow> wf_map h
     \<and> list_all (\<lambda>name. is_token name \<and> canonical_header_key name = name) (keys h)"

definition permutes_range :: "range_order \<Rightarrow> bool" where
  "permutes_range ord \<longleftrightarrow> (\<forall>ks. mset (ord ks) = mset ks)"

lemma server_lower_inj: "server_headers h \<Longrightarrow> inj_on to_lower (set (keys h))"
  unfolding inj_on_def server_headers_def list_all_iff is_token_def
  by (metis canonical_lower_inj list_all_iff)

lemma permutes_set: "permutes_range ord \<Longrightarrow> set (ord ks) = set ks"
  unfolding permutes_range_def by (metis mset_eq_setD)

lemma permutes_distinct: "permutes_range ord \<Longrightarrow> distinct ks \<Longrightarrow> distinct (ord ks)"
  unfolding permutes_range_def by (metis mset_eq_imp_distinct_iff)

text \<open>The order in which the map is ranged over does not matter.\<close>

lemma header_names_order:
  assumes "server_headers (h_header request)" "permutes_range ord" "permutes_range ord'"
  shows "header_names p ord request = header_names p ord' request"
proof -
  let ?ks = "keys (h_header request)" and ?P = "\<lambda>name. canonical_header_key name \<notin> fp_headerSet p"
  have m: "mset (filter ?P (ord ?ks)) = mset (filter ?P (ord' ?ks))"
    using assms(2,3) by (simp add: permutes_range_def mset_filter)
  have "inj_on to_lower (set (filter ?P (ord ?ks)))"
    using server_lower_inj [OF assms(1)] permutes_set [OF assms(2)]
    by (metis filter_is_subset inj_on_subset)
  then have "sort_key to_lower (filter ?P (ord ?ks)) = sort_key to_lower (filter ?P (ord' ?ks))"
    using m by (intro sort_key_inj_key_eq) simp_all
  then show ?thesis by (simp add: header_names_def)
qed

lemma header_names_distinct:
  assumes "policy_ok p" "server_headers (h_header request)" "permutes_range ord"
    and "list_all (\<lambda>h. is_token h \<and> canonical_header_key h = h) (fp_headers p)"
  shows "distinct (map to_lower (header_names p ord request))"
proof -
  let ?ns = "header_names p ord request"
  have d: "distinct ?ns"
    using assms by (auto simp: header_names_def policy_ok_def server_headers_def list_all_iff
        permutes_set permutes_distinct)
  have "list_all (\<lambda>h. is_token h \<and> canonical_header_key h = h) ?ns"
    using assms by (auto simp: header_names_def server_headers_def list_all_iff permutes_set)
  then have "inj_on to_lower (set ?ns)"
    unfolding inj_on_def list_all_iff is_token_def by (metis canonical_lower_inj list_all_iff)
  with d show ?thesis by (simp add: distinct_map)
qed

section \<open>Properties\<close>

definition framing_names :: "string list" where
  "framing_names = [''content-length'', ''transfer-encoding'']"

definition bounded_map :: "(string \<Rightarrow> bool) \<Rightarrow> int \<Rightarrow> int \<Rightarrow> string gomap \<Rightarrow> bool" where
  "bounded_map ok n b m \<longleftrightarrow>
     wf_map m \<and> int (length m) \<le> n \<and> map_bytes m \<le> b \<and> list_all (entry_within ok) m"

lemma within_bounded: "within ok n b c \<Longrightarrow> bounded_map ok n b (col_result c)"
  by (simp add: within_def bounded_map_def)

lemma map_bytes_filter: "map_bytes (filter P m) \<le> map_bytes m"
  unfolding map_bytes_def by (induction m) auto

lemma wf_map_filter: "wf_map m \<Longrightarrow> wf_map (filter P m)"
  by (induction m) auto

lemma bounded_map_filter: "bounded_map ok n b m \<Longrightarrow> bounded_map ok n b (filter P m)"
  using map_bytes_filter [of P m] wf_map_filter [of m P] length_filter_le [of P m]
  unfolding bounded_map_def list_all_iff by (simp del: length_filter_le)

lemma filter_update_out:
  "\<not> P k \<Longrightarrow> filter (\<lambda>e. P (fst e)) (AList.update k v m) = filter (\<lambda>e. P (fst e)) m"
  by (induction m) auto

lemma framing_core:
  "filter (\<lambda>e. fst e \<notin> set framing_names) (framing_headers request m)
   = filter (\<lambda>e. fst e \<notin> set framing_names) m"
  by (simp add: framing_headers_def framing_names_def Let_def
      filter_update_out [of "\<lambda>k. k \<noteq> ''content-length'' \<and> k \<noteq> ''transfer-encoding''"])

lemma collected_within: "within header_name_ok 128 65536 (collected_headers p ord request)"
  unfolding collected_headers_def
  by (rule header_loop.run_inv) (simp add: within_def map_bytes_def)

lemma forwardedHeaders_parts:
  "forwardedHeaders p ord request
     = (framing_headers request (col_result (collected_headers p ord request)),
        col_truncated (collected_headers p ord request))"
  by (simp add: forwardedHeaders_def Let_def)

lemma first_cookies_map:
  assumes "set order = set (keys first)" "distinct order" "wf_map first"
  shows "case first_cookies parsed first order truncated of (f, ord, t) \<Rightarrow>
     map_of f = map_of parsed ++ map_of first
     \<and> set ord = set (keys f) \<and> distinct ord \<and> wf_map f
     \<and> (t \<longleftrightarrow> truncated \<or> \<not> distinct (map fst parsed) \<or> set (map fst parsed) \<inter> set (keys first) \<noteq> {})"
  using assms
proof (induction parsed first order truncated rule: first_cookies.induct)
  case (2 name v parsed first order truncated)
  show ?case
  proof (cases "name \<in> set (keys first)")
    case True
    then obtain w where "map_of first name = Some w" using keys_map_of by metis
    then have m: "map_of ((name, v) # parsed) ++ map_of first = map_of parsed ++ map_of first"
      by (auto simp: map_add_def fun_eq_iff split: option.split)
    show ?thesis
      using "2.IH"(1) [OF True "2.prems"] True unfolding m by (auto split: prod.splits)
  next
    case False
    then have none: "map_of first name = None" using map_of_eq_None_keys by metis
    have m: "map_of ((name, v) # parsed) ++ map_of first
        = map_of parsed ++ map_of (AList.update name v first)"
      using none by (auto simp: map_add_def fun_eq_iff map_of_update_if split: option.split)
    have k: "set (keys (AList.update name v first)) = insert name (set (keys first))"
      by (simp add: dom_update)
    have "set (order @ [name]) = set (keys (AList.update name v first))"
        "distinct (order @ [name])" "wf_map (AList.update name v first)"
      using "2.prems" False k by auto
    note ih = "2.IH"(2) [OF False this]
    obtain f ord t where r: "first_cookies parsed (AList.update name v first) (order @ [name]) truncated
        = (f, ord, t)" by (metis prod_cases3)
    from ih [unfolded r prod.case] have p: "map_of f = map_of parsed ++ map_of (AList.update name v first)"
        "set ord = set (keys f)" "distinct ord" "wf_map f"
        "t \<longleftrightarrow> truncated \<or> \<not> distinct (map fst parsed)
           \<or> set (map fst parsed) \<inter> insert name (set (keys first)) \<noteq> {}"
      unfolding k by blast+
    have "first_cookies ((name, v) # parsed) first order truncated = (f, ord, t)"
      using False r by simp
    moreover have "t \<longleftrightarrow> truncated \<or> \<not> distinct (map fst ((name, v) # parsed))
        \<or> set (map fst ((name, v) # parsed)) \<inter> set (keys first) \<noteq> {}"
      unfolding p(5) using False by simp
    ultimately show ?thesis using p(1-4) unfolding m by simp
  qed
qed (auto simp: map_add_def fun_eq_iff)

definition exampleForward :: httpRequest where
  "exampleForward = \<lparr>h_method = ''GET'', h_host = ''example.test'', h_path = ''/'', h_rawPath = [], h_rawQuery = [],
     h_header = [(''X-Id'', [''7'']), (''Cookie'', [''a=1; b=2'']), (''Accept'', [''*/*''])],
     h_remoteAddr = ''10.0.0.1:5000'', h_tls = False, h_proto = ''HTTP/1.1'',
     h_contentLength = 0, h_transferEncoding = [], h_body = None\<rparr>"

definition exampleSelection :: requestConfig where
  "exampleSelection = \<lparr>rq_headerMode = ''all'', rq_headers = [''accept''],
     rq_cookieMode = ''all'', rq_cookies = [''b'']\<rparr>"

lemma exampleForward_ok [simp]: "server_headers (h_header exampleForward)"
  by code_simp

lemma range_permutations [simp]: "permutes_range id" "permutes_range rev"
  by (simp_all add: permutes_range_def)

text \<open>
  The framing headers come on top of the bounds: two entries and their bytes at most. Every entry
  is within the entry bounds or is the framing header of the request.
\<close>

lemma framing_bounds:
  assumes m: "bounded_map ok n b m"
  shows "wf_map (framing_headers request m)" "int (length (framing_headers request m)) \<le> n + 2"
    and "map_bytes (framing_headers request m) \<le> b
       + 14 + int (length (dec_of_int (h_contentLength request)))
       + 17 + int (length (join (h_transferEncoding request) '', ''))"
    and "list_all (\<lambda>e. entry_within ok e
         \<or> e = (''content-length'', dec_of_int (h_contentLength request))
         \<or> e = (''transfer-encoding'', join (h_transferEncoding request) '', ''))
       (framing_headers request m)"
proof -
  let ?l = "AList.update ''content-length'' (dec_of_int (h_contentLength request))"
    and ?t = "AList.update ''transfer-encoding'' (join (h_transferEncoding request) '', '')"
    and ?e = "\<lambda>e. entry_within ok e
         \<or> e = (''content-length'', dec_of_int (h_contentLength request))
         \<or> e = (''transfer-encoding'', join (h_transferEncoding request) '', '')"
  have f: "framing_headers request m \<in> {m, ?l m, ?t m, ?t (?l m)}"
    by (simp add: framing_headers_def Let_def)
  have w: "wf_map m" "int (length m) \<le> n" "map_bytes m \<le> b" "list_all (entry_within ok) m"
    using m by (simp_all add: bounded_map_def)
  from w(4) have e: "list_all ?e m" by (simp add: list_all_iff)
  show "wf_map (framing_headers request m)" using f w(1) by auto
  show "int (length (framing_headers request m)) \<le> n + 2" using f w(2) by (auto simp: length_update)
  show "map_bytes (framing_headers request m) \<le> b
       + 14 + int (length (dec_of_int (h_contentLength request)))
       + 17 + int (length (join (h_transferEncoding request) '', ''))"
    using f w(3) map_bytes_update [of "''content-length''" "dec_of_int (h_contentLength request)" m]
      map_bytes_update [of "''transfer-encoding''" "join (h_transferEncoding request) '', ''" m]
      map_bytes_update [of "''transfer-encoding''" "join (h_transferEncoding request) '', ''" "?l m"]
    by auto
  show "list_all ?e (framing_headers request m)"
    using f by (auto intro!: list_all_update e)
qed

text \<open>So a full set of forwarded headers grows by the framing headers it does not hold yet.\<close>

lemma framing_headers_are_extra:
  assumes "length (col_result (collected_headers p ord request)) = 128"
    and "''content-length'' \<notin> set (keys (col_result (collected_headers p ord request)))"
    and "0 \<le> h_contentLength request" "h_method request = ''POST''" "h_transferEncoding request = []"
  shows "length (fst (forwardedHeaders p ord request)) = 129"
  using assms by (simp add: forwardedHeaders_parts framing_headers_def length_update)

text \<open>
  C26. What is sent to the Agent is bounded, framing apart. Whatever a request carries, the
  forwarded headers other than content-length and transfer-encoding are at most 128 with valid
  lower-case names of at most 128 bytes, values of at most 4096 bytes without NUL, CR or LF, and at
  most 64 KiB in all; the forwarded cookies keep the same bounds. The two framing headers are added
  after those bounds are applied, so there are at most 130 headers, and more than 64 KiB by at most
  the names and values of the two; each header, these two included, is within the bounds of one
  entry or holds the content length or the transfer encodings of the request.
\<close>

theorem forwarded_data_is_bounded:
  "(let headers = fst (forwardedHeaders p ord request) in
      bounded_map header_name_ok 128 65536 (filter (\<lambda>e. fst e \<notin> set framing_names) headers)
      \<and> wf_map headers \<and> length headers \<le> 130
      \<and> map_bytes headers \<le> 65536
          + 14 + int (length (dec_of_int (h_contentLength request)))
          + 17 + int (length (join (h_transferEncoding request) '', ''))
      \<and> list_all (\<lambda>e. entry_within header_name_ok e
           \<or> e = (''content-length'', dec_of_int (h_contentLength request))
           \<or> e = (''transfer-encoding'', join (h_transferEncoding request) '', '')) headers)
   \<and> bounded_map validCookieName 128 65536 (fst (forwardedCookies p request))"
proof
  let ?m = "col_result (collected_headers p ord request)"
  have m: "bounded_map header_name_ok 128 65536 ?m" by (intro within_bounded collected_within)
  then have "bounded_map header_name_ok 128 65536
      (filter (\<lambda>e. fst e \<notin> set framing_names) (framing_headers request ?m))"
    unfolding framing_core by (rule bounded_map_filter)
  with framing_bounds [OF m, of request]
  show "let headers = fst (forwardedHeaders p ord request) in
      bounded_map header_name_ok 128 65536 (filter (\<lambda>e. fst e \<notin> set framing_names) headers)
      \<and> wf_map headers \<and> length headers \<le> 130
      \<and> map_bytes headers \<le> 65536
          + 14 + int (length (dec_of_int (h_contentLength request)))
          + 17 + int (length (join (h_transferEncoding request) '', ''))
      \<and> list_all (\<lambda>e. entry_within header_name_ok e
           \<or> e = (''content-length'', dec_of_int (h_contentLength request))
           \<or> e = (''transfer-encoding'', join (h_transferEncoding request) '', '')) headers"
    unfolding forwardedHeaders_parts fst_conv Let_def by (intro conjI) simp_all
  obtain first order truncated where
    f: "first_cookies (request_cookies request) [] [] False = (first, order, truncated)"
    by (cases "first_cookies (request_cookies request) [] [] False")
  have "within validCookieName 128 65536
      (fold (cookie_step first) (cookie_names p first order)
         \<lparr>col_result = [], col_total = 0, col_truncated = truncated\<rparr>)"
    by (rule cookie_loop.run_inv) (simp add: within_def map_bytes_def)
  then show "bounded_map validCookieName 128 65536 (fst (forwardedCookies p request))"
    using f by (simp add: forwardedCookies_def Let_def within_bounded)
qed

text \<open>
  C27. Only selected headers leave, or framing, and never the Cookie header. A forwarded header
  comes from a header of the request other than Cookie and, when the mode is not \<open>all\<close>, one of
  the configured headers; or it is content-length for a request with a known length that is
  neither GET nor HEAD; or it is transfer-encoding for a request with one. The last two are
  forwarded in every mode, configured or not. No header is forwarded under the name \<open>cookie\<close>.
\<close>

theorem only_selected_headers_are_forwarded:
  assumes "map_of (fst (forwardedHeaders (newForwardingPolicy config) ord request)) k \<noteq> None"
  shows "k \<noteq> ''cookie''
     \<and> ((\<exists>name. to_lower name = k \<and> header_values (h_header request) name \<noteq> []
          \<and> (rq_headerMode config = forwardAll \<or> name \<in> canonical_header_key ` set (rq_headers config)))
        \<or> k = ''content-length'' \<and> 0 \<le> h_contentLength request \<and> h_method request \<notin> {''GET'', ''HEAD''}
        \<or> k = ''transfer-encoding'' \<and> h_transferEncoding request \<noteq> [])"
proof -
  let ?p = "newForwardingPolicy config"
  consider "map_of (col_result (collected_headers ?p ord request)) k \<noteq> None"
    | "k = ''content-length''" "0 \<le> h_contentLength request" "h_method request \<notin> {''GET'', ''HEAD''}"
    | "k = ''transfer-encoding''" "h_transferEncoding request \<noteq> []"
    using assms by (auto simp: forwardedHeaders_parts framing_headers_def Let_def map_of_update_if
        split: if_splits)
  then show ?thesis
  proof cases
    case 1
    then obtain n where n: "n \<in> set (header_names ?p ord request)" "to_lower n = k"
        "offered_header request n \<noteq> None"
      using header_loop.run_keys [of request "header_names ?p ord request" _ k]
      unfolding collected_headers_def by fastforce
    from n(3) have o: "header_values (h_header request) n \<noteq> []" "to_lower n \<noteq> ''cookie''"
      by (auto simp: offered_header_def cookieHeaderKey_def Let_def split: if_splits)
    have "rq_headerMode config = forwardAll \<or> n \<in> set (fp_headers ?p)"
      using n(1) new_policy(4) [of config] by (auto simp: header_names_def split: if_splits)
    with n(2) o new_policy(2) [of config] show ?thesis by auto
  qed simp_all
qed

theorem only_selected_headers_are_forwarded_witness:
  "''accept'' \<noteq> ''cookie'' \<and> (\<exists>name. to_lower name = ''accept''
      \<and> header_values (h_header exampleForward) name \<noteq> []
      \<and> (''allowlist'' = forwardAll \<or> name \<in> canonical_header_key ` {''accept''}))"
proof -
  let ?config = "exampleSelection\<lparr>rq_headerMode := ''allowlist''\<rparr>"
  have "map_of (fst (forwardedHeaders (newForwardingPolicy ?config) id exampleForward)) ''accept'' \<noteq> None"
    by code_simp
  from only_selected_headers_are_forwarded [OF this] show ?thesis
    by (simp add: exampleSelection_def)
qed

text \<open>With an allowlist of one header, the framing header of a POST is forwarded beside it.\<close>

lemma framing_escapes_the_allowlist:
  "map_of (fst (forwardedHeaders (newForwardingPolicy (exampleSelection\<lparr>rq_headerMode := ''allowlist''\<rparr>)) id
     (exampleForward\<lparr>h_method := ''POST'', h_contentLength := 5\<rparr>))) ''content-length'' = Some ''5''"
  by code_simp

text \<open>
  Forwarding is deterministic. For a header map as Go's server builds it, the forwarded
  headers and the truncation flag do not depend on the order in which the map is ranged over.
\<close>

lemma forwarding_is_deterministic:
  assumes "server_headers (h_header request)" "permutes_range ord" "permutes_range ord'"
  shows "forwardedHeaders p ord request = forwardedHeaders p ord' request"
  using header_names_order [OF assms, of p]
  by (simp add: forwardedHeaders_def collected_headers_def)

lemma forwarding_is_deterministic_witness:
  "forwardedHeaders (newForwardingPolicy exampleSelection) id exampleForward
   = forwardedHeaders (newForwardingPolicy exampleSelection) rev exampleForward"
  by (rule forwarding_is_deterministic) simp_all

lemma configured_tokens:
  "list_all validHeaderName (rq_headers config) \<Longrightarrow>
     list_all (\<lambda>h. is_token h \<and> canonical_header_key h = h) (fp_headers (newForwardingPolicy config))"
  using new_policy(2) [of config] canonical_token
  by (auto simp: list_all_iff validHeaderName_token)

text \<open>
  The flag tells the truth about headers. In mode \<open>all\<close>, with valid configured names and a
  header map as Go's server builds it, the truncation flag is set exactly when some header of
  the request other than Cookie did not arrive in full under its lower-case name.
\<close>

lemma header_flag_is_exact:
  assumes "server_headers (h_header request)" "permutes_range ord"
    and "rq_headerMode config = forwardAll" "list_all validHeaderName (rq_headers config)"
  shows "snd (forwardedHeaders (newForwardingPolicy config) ord request) \<longleftrightarrow>
     (\<exists>name values. map_of (h_header request) name = Some values \<and> values \<noteq> []
        \<and> to_lower name \<noteq> ''cookie''
        \<and> map_of (col_result (collected_headers (newForwardingPolicy config) ord request)) (to_lower name)
          \<noteq> Some (join values '', ''))"
proof -
  let ?p = "newForwardingPolicy config" and ?h = "h_header request"
  let ?c = "collected_headers ?p ord request"
  let ?lost = "\<lambda>n. offered_header request n \<noteq> None
      \<and> map_of (col_result ?c) (to_lower n) \<noteq> offered_header request n"
  have flag: "col_truncated ?c \<longleftrightarrow> (\<exists>n \<in> set (header_names ?p ord request). ?lost n)"
    using header_loop.run_flag [OF header_names_distinct [OF new_policy(1) assms(1,2)
        configured_tokens [OF assms(4)]]]
    by (simp add: collected_headers_def)
  have canon: "canonical_header_key name = name" if "name \<in> set (keys ?h)" for name
    using assms(1) that by (auto simp: server_headers_def list_all_iff)
  have all: "fp_allHeaders ?p" using assms(3) new_policy(4) by simp
  have offered: "offered_header request name
      = (case map_of ?h (canonical_header_key name) of
           None \<Rightarrow> None
         | Some values \<Rightarrow> if values = [] \<or> to_lower name = ''cookie'' then None
             else Some (join values '', ''))" for name
    by (simp add: offered_header_def header_values_def cookieHeaderKey_def Let_def split: option.split)
  have names: "n \<in> set (header_names ?p ord request)" if "n \<in> set (keys ?h)" for n
    using that all canon [OF that] new_policy(1) [of config] permutes_set [OF assms(2), of "keys ?h"]
    by (auto simp: header_names_def policy_ok_def)
  have own: "canonical_header_key n = n" if "n \<in> set (header_names ?p ord request)" for n
    using that all configured_tokens [OF assms(4)] canon permutes_set [OF assms(2), of "keys ?h"]
    by (auto simp: header_names_def list_all_iff)
  have "(\<exists>n \<in> set (header_names ?p ord request). ?lost n) \<longleftrightarrow>
     (\<exists>name values. map_of ?h name = Some values \<and> values \<noteq> []
        \<and> to_lower name \<noteq> ''cookie''
        \<and> map_of (col_result ?c) (to_lower name) \<noteq> Some (join values '', ''))" (is "?l = ?r")
  proof
    assume ?l
    then obtain n where "n \<in> set (header_names ?p ord request)" "?lost n" by blast
    with own show ?r
      by (intro exI [of _ n]) (auto simp: offered split: option.splits if_splits)
  next
    assume ?r
    then obtain name vs where v: "map_of ?h name = Some vs" "vs \<noteq> []"
      "to_lower name \<noteq> ''cookie''" "map_of (col_result ?c) (to_lower name) \<noteq> Some (join vs '', '')"
      by blast
    then have k: "name \<in> set (keys ?h)" by (metis map_of_SomeD_keys)
    then show ?l
      using names v canon [OF k] by (intro bexI [of _ name]) (auto simp: offered)
  qed
  with flag show ?thesis by (simp add: forwardedHeaders_parts)
qed

lemma header_flag_is_exact_witness:
  "map_of (col_result (collected_headers (newForwardingPolicy exampleSelection) rev exampleForward))
     (to_lower ''X-Id'') = Some (join [''7''] '', '')"
proof -
  have "rq_headerMode exampleSelection = forwardAll" by code_simp
  moreover have "list_all validHeaderName (rq_headers exampleSelection)" by code_simp
  ultimately have "snd (forwardedHeaders (newForwardingPolicy exampleSelection) rev exampleForward) \<longleftrightarrow>
     (\<exists>name values. map_of (h_header exampleForward) name = Some values \<and> values \<noteq> []
        \<and> to_lower name \<noteq> ''cookie''
        \<and> map_of (col_result (collected_headers (newForwardingPolicy exampleSelection) rev exampleForward))
            (to_lower name) \<noteq> Some (join values '', ''))"
    by (intro header_flag_is_exact) simp_all
  moreover have "\<not> snd (forwardedHeaders (newForwardingPolicy exampleSelection) rev exampleForward)"
    by code_simp
  moreover have "map_of (h_header exampleForward) ''X-Id'' = Some [''7'']" by code_simp
  moreover have "to_lower ''X-Id'' \<noteq> ''cookie''" by code_simp
  ultimately show ?thesis by blast
qed

text \<open>
  C40. Cookies: the first one counts, and the flag tells the truth. A forwarded cookie has the
  value of the first cookie of its name, cut to 4096 bytes. In mode \<open>all\<close> the truncation flag is
  clear exactly when no name repeats and every parsed cookie is forwarded in full.
\<close>

theorem cookie_flag_is_exact:
  assumes "rq_cookieMode config = forwardAll"
  shows "(\<not> snd (forwardedCookies (newForwardingPolicy config) request) \<longleftrightarrow>
       distinct (map fst (request_cookies request))
       \<and> map_of (fst (forwardedCookies (newForwardingPolicy config) request))
         = map_of (request_cookies request)) \<and>
     map_of (fst (forwardedCookies (newForwardingPolicy config) request)) name
       \<in> {None} \<union> {Some (take 4096 v) | v. map_of (request_cookies request) name = Some v}"
proof
  let ?p = "newForwardingPolicy config" and ?cs = "request_cookies request"
  obtain first order t where f: "first_cookies ?cs [] [] False = (first, order, t)"
    by (cases "first_cookies ?cs [] [] False")
  have m: "map_of first = map_of ?cs" and o: "set order = set (keys first)" "distinct order"
    and t: "t \<longleftrightarrow> \<not> distinct (map fst ?cs)"
    using first_cookies_map [of "[]" "[]" ?cs False] f by (simp_all del: set_map)
  let ?ns = "cookie_names ?p first order"
  let ?start = "\<lparr>col_result = [], col_total = 0, col_truncated = t\<rparr>"
  let ?c = "fold (cookie_step first) ?ns ?start"
  have res: "forwardedCookies ?p request = (col_result ?c, col_truncated ?c)"
    by (simp add: forwardedCookies_def f Let_def)
  have all: "fp_allCookies ?p" using assms new_policy(5) by simp
  have d: "distinct (map id ?ns)"
    using all o new_policy(1) [of config] by (auto simp: cookie_names_def policy_ok_def)
  have ns: "set ?ns = set (keys first)"
    using all o new_policy(1) [of config] by (auto simp: cookie_names_def policy_ok_def)
  have offered: "offered_cookie first n = map_of first n" if "n \<in> set (keys first)" for n
    using keys_map_of [OF that] by (auto simp: offered_cookie_def)
  have none: "map_of (col_result ?c) n = map_of first n" if "n \<notin> set (keys first)" for n
    using that ns cookie_loop.run_other [of n ?ns first ?start] map_of_eq_None_keys [of first n] by simp
  have "col_truncated ?c \<longleftrightarrow> t \<or> (\<exists>n \<in> set (keys first). map_of (col_result ?c) n \<noteq> map_of first n)"
    using cookie_loop.run_flag [OF d, of ?start first] offered keys_map_of [of _ first]
    unfolding ns by (auto simp del: set_map)
  also have "\<dots> \<longleftrightarrow> t \<or> map_of (col_result ?c) \<noteq> map_of first"
    using none by (metis ext)
  finally show "\<not> snd (forwardedCookies ?p request) \<longleftrightarrow>
       distinct (map fst ?cs) \<and> map_of (fst (forwardedCookies ?p request)) = map_of ?cs"
    unfolding res fst_conv snd_conv using t m by metis
  show "map_of (fst (forwardedCookies ?p request)) name
       \<in> {None} \<union> {Some (take 4096 v) | v. map_of ?cs name = Some v}"
  proof (cases "name \<in> set (keys first)")
    case True
    with cookie_loop.run_some [OF d, of ?start name first] ns offered [OF True] m res show ?thesis
      by (simp del: set_map)
  next
    case False
    with none map_of_eq_None_keys [of first name] res show ?thesis by (simp del: set_map)
  qed
qed

theorem cookie_flag_is_exact_witness:
  "map_of (fst (forwardedCookies (newForwardingPolicy exampleSelection) exampleForward))
   = map_of [(''a'', ''1''), (''b'', ''2'')]"
proof -
  have "rq_cookieMode exampleSelection = forwardAll" by code_simp
  note flag = cookie_flag_is_exact [OF this, of exampleForward "''a''"]
  have "\<not> snd (forwardedCookies (newForwardingPolicy exampleSelection) exampleForward)"
    by code_simp
  moreover have "request_cookies exampleForward = [(''a'', ''1''), (''b'', ''2'')]" by code_simp
  ultimately show ?thesis using flag by simp
qed

text \<open>
  A cookie the parser drops is not flagged. A cookie whose value holds a backslash is no
  cookie for Go's parser: it is not forwarded and the truncation flag stays clear, although the
  request carried it and the application behind may read it.
\<close>

lemma unparsed_cookie_is_not_flagged:
  "forwardedCookies (newForwardingPolicy exampleSelection)
     (exampleForward\<lparr>h_header := [(''Cookie'', [''a=1; b='' @ [CHR 0x5C]])]\<rparr>) = ([(''a'', ''1'')], False)"
  by code_simp

end
