(* ===== verification/Breaker.thy ===== *)
theory Breaker
  imports Prelude
begin

text \<open>
  The circuit breaker (\<open>cache.go\<close>) in front of the Agent: a failure counter, the end of the open
  period and the flag of the one probe. It is refined to a machine with three phases (closed,
  open, half-open) and its laws are proved on runs. The zero \<open>time.Time\<close> is 0.
\<close>

section \<open>State and operations\<close>

record circuitBreaker =
  failureThreshold :: int
  openDuration :: duration
  failures :: int
  openUntil :: gotime
  probe :: bool

definition newCircuitBreaker :: "int \<Rightarrow> duration \<Rightarrow> circuitBreaker" where
  "newCircuitBreaker n d =
     \<lparr>failureThreshold = n, openDuration = d, failures = 0, openUntil = 0, probe = False\<rparr>"

definition breaker_allow :: "circuitBreaker \<Rightarrow> gotime \<Rightarrow> circuitBreaker \<times> bool" where
  "breaker_allow b now =
     (if openUntil b = 0 then (b, True)
      else if now < openUntil b then (b, False)
      else if probe b then (b, False)
      else (b\<lparr>probe := True\<rparr>, True))"

definition breaker_success :: "circuitBreaker \<Rightarrow> circuitBreaker" where
  "breaker_success b = b\<lparr>failures := 0, openUntil := 0, probe := False\<rparr>"

definition breaker_failure :: "circuitBreaker \<Rightarrow> gotime \<Rightarrow> circuitBreaker" where
  "breaker_failure b now =
     (let b1 = b\<lparr>failures := failures b + 1\<rparr>;
          b2 = (if probe b1 \<or> failureThreshold b1 \<le> failures b1
                then b1\<lparr>openUntil := now + openDuration b1\<rparr> else b1)
      in b2\<lparr>probe := False\<rparr>)"

datatype breakerOp = Allow gotime | Success | Failure gotime

text \<open>One operation; only \<open>Allow\<close> has a result of interest.\<close>

fun breaker_step :: "circuitBreaker \<Rightarrow> breakerOp \<Rightarrow> circuitBreaker \<times> bool" where
  "breaker_step b (Allow now) = breaker_allow b now"
| "breaker_step b Success = (breaker_success b, True)"
| "breaker_step b (Failure now) = (breaker_failure b now, True)"

section \<open>The phase machine\<close>

text \<open>
  The specification: closed with a count of consecutive failures, open until a time, or half-open
  with one probe in flight.
\<close>

datatype phase = Closed int | Open gotime | HalfOpen gotime

fun phase_step :: "int \<Rightarrow> duration \<Rightarrow> phase \<Rightarrow> breakerOp \<Rightarrow> phase \<times> bool" where
  "phase_step n d (Closed k) (Allow now) = (Closed k, True)"
| "phase_step n d (Open t) (Allow now) = (if now < t then (Open t, False) else (HalfOpen t, True))"
| "phase_step n d (HalfOpen t) (Allow now) = (HalfOpen t, False)"
| "phase_step n d p Success = (Closed 0, True)"
| "phase_step n d (Closed k) (Failure now) =
     (if n \<le> k + 1 then Open (now + d) else Closed (k + 1), True)"
| "phase_step n d p (Failure now) = (Open (now + d), True)"

definition phase_of :: "circuitBreaker \<Rightarrow> phase" where
  "phase_of b =
     (if openUntil b = 0 then Closed (failures b)
      else if probe b then HalfOpen (openUntil b) else Open (openUntil b))"

text \<open>The breaker is open exactly when the counter has reached the threshold.\<close>

definition breaker_inv :: "int \<Rightarrow> duration \<Rightarrow> circuitBreaker \<Rightarrow> bool" where
  "breaker_inv n d b \<longleftrightarrow>
     failureThreshold b = n \<and> openDuration b = d \<and> 1 \<le> n \<and> 0 \<le> d \<and> 0 \<le> failures b
     \<and> (openUntil b = 0 \<and> failures b < n \<and> \<not> probe b \<or> 0 < openUntil b \<and> n \<le> failures b)"

text \<open>Times are after the zero time.\<close>

fun breaker_legal :: "breakerOp \<Rightarrow> bool" where
  "breaker_legal (Allow now) \<longleftrightarrow> 0 < now"
| "breaker_legal Success \<longleftrightarrow> True"
| "breaker_legal (Failure now) \<longleftrightarrow> 0 < now"

lemmas breaker_defs = breaker_allow_def breaker_success_def breaker_failure_def Let_def

lemma new_breaker_inv: "1 \<le> n \<Longrightarrow> 0 \<le> d \<Longrightarrow> breaker_inv n d (newCircuitBreaker n d)"
  by (simp add: breaker_inv_def newCircuitBreaker_def)

lemma phase_of_new [simp]: "phase_of (newCircuitBreaker n d) = Closed 0"
  by (simp add: phase_of_def newCircuitBreaker_def)

lemma breaker_step_inv:
  "breaker_inv n d b \<Longrightarrow> breaker_legal x \<Longrightarrow> breaker_inv n d (fst (breaker_step b x))"
  by (cases x) (auto simp: breaker_inv_def breaker_defs)

lemma breaker_step_phase:
  "breaker_inv n d b \<Longrightarrow> breaker_legal x \<Longrightarrow>
     phase_step n d (phase_of b) x = (phase_of (fst (breaker_step b x)), snd (breaker_step b x))"
  by (cases x) (auto simp: breaker_inv_def breaker_defs phase_of_def)

interpretation breaker_object:
  object_refinement breaker_step "breaker_inv n d" breaker_legal phase_of "phase_step n d"
  by unfold_locales (simp_all add: breaker_step_inv breaker_step_phase)

lemma run_phase:
  assumes "1 \<le> n" "0 \<le> d" "list_all breaker_legal ops"
  shows "run_ops (phase_step n d) (Closed 0) ops
    = (phase_of (fst (run_ops breaker_step (newCircuitBreaker n d) ops)),
       snd (run_ops breaker_step (newCircuitBreaker n d) ops))"
  using breaker_object.run_abs [OF new_breaker_inv [OF assms(1,2)] assms(3)] by simp

section \<open>Runs of the phase machine\<close>

lemma phase_failures:
  "0 \<le> k \<Longrightarrow> k < n \<Longrightarrow>
     fst (run_ops (phase_step n d) (Closed k) (map Failure ts)) =
       (if k + int (length ts) < n then Closed (k + int (length ts))
        else Open (last ts + d))"
proof (induction ts arbitrary: k rule: rev_induct)
  case Nil
  then show ?case by simp
next
  case (snoc t ts)
  then show ?case
    by (cases "k + int (length ts) < n") (auto simp: run_ops_append)
qed

lemma phase_half_open_allows:
  "run_ops (phase_step n d) (HalfOpen t) (map Allow ts) = (HalfOpen t, map (\<lambda>_. False) ts)"
  by (induction ts) auto

lemma phase_open_allows:
  "length (filter id (snd (run_ops (phase_step n d) (Open t) (map Allow ts))))
     = (if \<exists>x \<in> set ts. t \<le> x then 1 else 0)"
proof (induction ts)
  case (Cons x ts)
  have "filter id (map (\<lambda>_. False) ts) = []" for ts :: "gotime list"
    by (induction ts) auto
  with Cons show ?case by (auto simp: phase_half_open_allows)
qed simp

section \<open>Properties\<close>

text \<open>
  C7. The breaker implements the phase machine: every run of operations on a new breaker returns
  what the specification returns, and ends in the phase the specification ends in.
\<close>

theorem breaker_refines_phases:
  assumes "1 \<le> n" and "0 \<le> d" and "list_all breaker_legal ops"
  shows "snd (run_ops breaker_step (newCircuitBreaker n d) ops)
       = snd (run_ops (phase_step n d) (Closed 0) ops)
     \<and> phase_of (fst (run_ops breaker_step (newCircuitBreaker n d) ops))
       = fst (run_ops (phase_step n d) (Closed 0) ops)"
  using run_phase [OF assms] by simp

theorem breaker_refines_phases_witness:
  "snd (run_ops breaker_step (newCircuitBreaker 1 10) [Failure 5, Allow 7, Allow 15, Allow 16])
     = [True, False, True, False]"
proof -
  have h: "(1 :: int) \<le> 1" "(0 :: duration) \<le> 10"
    "list_all breaker_legal [Failure 5, Allow 7, Allow 15, Allow 16]" by simp_all
  have "snd (run_ops breaker_step (newCircuitBreaker 1 10) [Failure 5, Allow 7, Allow 15, Allow 16])
      = snd (run_ops (phase_step 1 10) (Closed 0) [Failure 5, Allow 7, Allow 15, Allow 16])"
    by (rule conjunct1 [OF breaker_refines_phases [OF h]])
  then show ?thesis by simp
qed

text \<open>
  It opens, and stays shut. After any history that leaves the breaker closed and reset
  (success was reported last), as many failures in a row as the threshold make it refuse every
  request before the last failure's time plus the open duration.
\<close>

lemma breaker_opens_after_threshold:
  assumes "1 \<le> n" and "0 \<le> d" and "list_all breaker_legal ops"
    and "list_all (\<lambda>t. 0 < t) ts" and "n \<le> int (length ts)" and "0 < now" and "now < last ts + d"
  shows "snd (breaker_allow (fst (run_ops breaker_step (newCircuitBreaker n d)
            (ops @ [Success] @ map Failure ts))) now) = False"
proof -
  let ?ops = "ops @ [Success] @ map Failure ts"
  let ?b = "fst (run_ops breaker_step (newCircuitBreaker n d) ?ops)"
  have legal: "list_all breaker_legal ?ops"
    using assms(3,4) by (auto simp: list_all_iff)
  have "ts \<noteq> []" using assms(1,5) by auto
  have "phase_step n d p Success = (Closed 0, True)" for p by (cases p) simp_all
  then have "phase_of ?b = Open (last ts + d)"
    using run_phase [OF assms(1,2) legal] phase_failures [of 0 n d ts] assms(1,5)
    by (simp add: run_ops_append)
  moreover have "breaker_inv n d ?b"
    by (rule breaker_object.run_inv [OF new_breaker_inv [OF assms(1,2)] legal])
  ultimately show ?thesis
    using breaker_step_phase [of n d ?b "Allow now"] assms(6,7) by (simp add: prod_eq_iff)
qed

lemma breaker_opens_after_threshold_witness:
  "snd (breaker_allow (fst (run_ops breaker_step (newCircuitBreaker 2 10)
            ([Failure 1] @ [Success] @ map Failure [3, 5]))) 14) = False"
  by (rule breaker_opens_after_threshold) simp_all

text \<open>
  One probe. While the breaker is open, however many requests ask in a row, it lets exactly
  one through if any of them asks at or after the end of the open period, and none otherwise; the
  next one is let through only after a success or failure has been reported.
\<close>

lemma breaker_single_probe:
  assumes "1 \<le> n" and "0 \<le> d" and "list_all breaker_legal ops" and "list_all (\<lambda>t. 0 < t) ts"
    and "phase_of (fst (run_ops breaker_step (newCircuitBreaker n d) ops)) = Open t"
  shows "length (filter id (snd (run_ops breaker_step
            (fst (run_ops breaker_step (newCircuitBreaker n d) ops)) (map Allow ts))))
     = (if \<exists>x \<in> set ts. t \<le> x then 1 else 0)"
proof -
  let ?b = "fst (run_ops breaker_step (newCircuitBreaker n d) ops)"
  have inv: "breaker_inv n d ?b"
    by (rule breaker_object.run_inv [OF new_breaker_inv [OF assms(1,2)] assms(3)])
  have "list_all breaker_legal (map Allow ts)"
    using assms(4) by (auto simp: list_all_iff)
  from breaker_object.run_abs [OF inv this] assms(5)
  have "snd (run_ops breaker_step ?b (map Allow ts))
      = snd (run_ops (phase_step n d) (Open t) (map Allow ts))"
    by simp
  then show ?thesis by (simp add: phase_open_allows)
qed

lemma breaker_single_probe_witness:
  "phase_of (fst (run_ops breaker_step (newCircuitBreaker 1 10) [Failure 5])) = Open 15
   \<and> length (filter id (snd (run_ops breaker_step
        (fst (run_ops breaker_step (newCircuitBreaker 1 10) [Failure 5])) (map Allow [7, 15, 20])))) = 1"
proof -
  have h: "(1 :: int) \<le> 1" "(0 :: duration) \<le> 10" "list_all breaker_legal [Failure 5]"
    "list_all (\<lambda>t. (0 :: gotime) < t) [7, 15, 20]" by simp_all
  have o: "phase_of (fst (run_ops breaker_step (newCircuitBreaker 1 10) [Failure 5])) = Open 15"
    by (simp add: breaker_defs newCircuitBreaker_def phase_of_def)
  have "length (filter id (snd (run_ops breaker_step
        (fst (run_ops breaker_step (newCircuitBreaker 1 10) [Failure 5])) (map Allow [7, 15, 20]))))
      = (if \<exists>x \<in> set [7, 15, 20]. (15 :: gotime) \<le> x then 1 else 0)"
    by (rule breaker_single_probe [OF h o])
  with o show ?thesis by simp
qed

text \<open>
  It recovers. In whatever phase a history has left the breaker, once a success is reported
  every later request is let through until the threshold of failures is reached again: fewer
  failures than the threshold in a row never shut it.
\<close>

lemma breaker_recovers:
  assumes "1 \<le> n" and "0 \<le> d" and "list_all breaker_legal ops" and "list_all (\<lambda>t. 0 < t) ts"
    and "int (length ts) < n" and "0 < now"
  shows "snd (breaker_allow (fst (run_ops breaker_step (newCircuitBreaker n d)
            (ops @ [Success] @ map Failure ts))) now) = True"
proof -
  let ?ops = "ops @ [Success] @ map Failure ts"
  let ?b = "fst (run_ops breaker_step (newCircuitBreaker n d) ?ops)"
  have legal: "list_all breaker_legal ?ops"
    using assms(3,4) by (auto simp: list_all_iff)
  have "phase_step n d p Success = (Closed 0, True)" for p by (cases p) simp_all
  then have "phase_of ?b = Closed (int (length ts))"
    using run_phase [OF assms(1,2) legal] phase_failures [of 0 n d ts] assms(1,5)
    by (simp add: run_ops_append)
  moreover have "breaker_inv n d ?b"
    by (rule breaker_object.run_inv [OF new_breaker_inv [OF assms(1,2)] legal])
  ultimately show ?thesis
    using breaker_step_phase [of n d ?b "Allow now"] assms(6) by (simp add: prod_eq_iff)
qed

lemma breaker_recovers_witness:
  "snd (breaker_allow (fst (run_ops breaker_step (newCircuitBreaker 2 10)
            ([Failure 1, Failure 2] @ [Success] @ map Failure [3]))) 4) = True"
  by (rule breaker_recovers) simp_all

end
