(* ===== verification/Middleware.thy ===== *)
theory Middleware
  imports Challenge Forwarding Breaker
begin

text \<open>
  The middleware (\<open>middleware.go\<close>): one request from its arrival to the next handler or to a
  response, through the challenge endpoints, the metadata check, body capture, forwarding, the
  decision cache, the circuit breaker and the Agent, and what happens to a decision or a failure.

  The state is a record of the components' states. One request's environment (\<open>serveEnv\<close>) is what
  it reads of the world: random bytes, clock readings, the Agent behind the network, the file
  system, the hash function and the iteration orders of maps. What the middleware returns is the
  outcome: the request handed to the next handler, or the response written.
\<close>

section \<open>State and environment\<close>

record middleware =
  mw_config :: config
  mw_trusted :: "ipNet list"
  mw_agent :: agentClient
  mw_pages :: pageStore
  mw_cache :: decisionCache
  mw_breaker :: circuitBreaker
  mw_forwarding :: forwardingPolicy
  mw_providers :: "providerRangeStore option"
  mw_clientIPLogAt :: gotime

record serveEnv =
  se_random :: "string option"
  se_stamp :: string
  se_peerTime :: gotime
  se_logTime :: gotime
  se_now :: gotime
  se_header :: "string list gomap"
  se_network :: agentNetwork
  se_hash :: "string \<Rightarrow> string"
  se_headerOrder :: range_order
  se_sweepOrder :: range_order
  se_evictOrder :: range_order
  se_write :: writeEnv

datatype outcome = Forwarded httpRequest | Responded httpResponse

section \<open>Decisions and failures\<close>

definition write_response ::
    "serveEnv \<Rightarrow> middleware \<Rightarrow> httpRequest \<Rightarrow> evaluationResponse \<Rightarrow> middleware \<times> outcome" where
  "write_response env m request response =
     (case page_write (se_write env) (mw_pages m) (se_header env) request response of
        (written, pages) \<Rightarrow> (m\<lparr>mw_pages := pages\<rparr>, Responded written))"

definition error_response :: "int \<Rightarrow> string \<Rightarrow> string \<Rightarrow> evaluationResponse" where
  "error_response status requestID reason =
     emptyResponse\<lparr>r_decision := ''error'', r_status := status, r_requestID := requestID,
       r_publicReason := reason\<rparr>"

definition handleFailure ::
    "serveEnv \<Rightarrow> middleware \<Rightarrow> httpRequest \<Rightarrow> string \<Rightarrow> agentErrorKind \<Rightarrow> middleware \<times> outcome" where
  "handleFailure env m request requestID kind =
     (let mode = (if kind = AgentMalformed then fm_malformedResponse (failureMode (mw_config m))
                  else fm_agentUnavailable (failureMode (mw_config m)));
          reason = (if kind = AgentMalformed then ''edge_agent_invalid_response''
                    else ''edge_agent_unavailable'')
      in if mode = ''allow'' then (m, Forwarded request)
         else write_response env m request (error_response 503 requestID reason))"

definition handleDecision ::
    "serveEnv \<Rightarrow> middleware \<Rightarrow> httpRequest \<Rightarrow> evaluationResponse \<Rightarrow> middleware \<times> outcome" where
  "handleDecision env m request response =
     (if r_decision response \<in> {''allow'', ''observe''} then (m, Forwarded request)
      else if r_decision response \<in> {''block'', ''challenge'', ''rate_limit''} then
        (if fm_explicitLocalDeny (failureMode (mw_config m)) = ''allow'' then (m, Forwarded request)
         else write_response env m request
           (if r_decision response = ''challenge''
            then response\<lparr>r_challengeURL := ch_pathPrefix (challengeC (mw_config m)) @ ''/challenge''\<rparr>
            else response))
      else handleFailure env m request (r_requestID response) AgentMalformed)"

datatype clientIPLog = UnresolvedLog | MalformedLog

text \<open>The line that is logged, if any, and the new time of the last line; the zero time is 0.\<close>

definition clientIPLogInterval :: duration where "clientIPLogInterval = minute"

definition logClientIPProblem ::
    "gotime \<Rightarrow> clientIPError \<Rightarrow> gotime \<Rightarrow> gotime \<times> clientIPLog option" where
  "logClientIPProblem now err logAt =
     (if logAt \<noteq> 0 \<and> now - logAt < clientIPLogInterval then (logAt, None)
      else (now, Some (if err = ProviderClientUnresolved then UnresolvedLog else MalformedLog)))"

section \<open>The evaluation request\<close>

definition evaluation_input ::
    "serveEnv \<Rightarrow> middleware \<Rightarrow> httpRequest \<Rightarrow> string \<Rightarrow> ip \<Rightarrow> string \<Rightarrow> string \<Rightarrow> string \<Rightarrow> bool
       \<Rightarrow> evaluationRequest" where
  "evaluation_input env m request requestID clientIP clientIPSource protocol body oversized =
     (case forwardedHeaders (mw_forwarding m) (se_headerOrder env) request of
        (headers, headersTruncated) \<Rightarrow>
      case forwardedCookies (mw_forwarding m) request of (cookies, cookiesTruncated) \<Rightarrow>
        \<lparr>q_requestID = requestID, q_clientIP = ip_string clientIP, q_clientIPSource = clientIPSource,
         q_method = to_upper (h_method request), q_scheme = requestScheme request (mw_trusted m),
         q_host = h_host request,
         q_path = (if h_path request = [] then ''/'' else h_path request),
         q_query = h_rawQuery request, q_headers = headers, q_cookies = cookies,
         q_headerMode = (if fp_allHeaders (mw_forwarding m) then forwardAll else []),
         q_cookieMode = (if fp_allCookies (mw_forwarding m) then forwardAll else []),
         q_allowlistedHeaders = fp_allowlistedHeaders (mw_forwarding m),
         q_allowlistedCookies = fp_allowlistedCookies (mw_forwarding m),
         q_headersTruncated = headersTruncated, q_cookiesTruncated = cookiesTruncated,
         q_protocolType = protocol, q_httpVersion = h_proto request, q_body = body,
         q_bodyTruncated = oversized, q_resourceHint = resourceHint (mw_config m)\<rparr>)"


section \<open>Serving a request\<close>

text \<open>From the cache lookup to the end; \<open>now\<close> is read once, before the lookup.\<close>

definition ask_agent ::
    "serveEnv \<Rightarrow> middleware \<Rightarrow> httpRequest \<Rightarrow> evaluationRequest \<Rightarrow> middleware \<times> outcome" where
  "ask_agent env m request input =
     (case cache_get (se_hash env) (mw_cache m) input (q_requestID input) (se_now env) of
        (cache1, Some cached) \<Rightarrow> handleDecision env (m\<lparr>mw_cache := cache1\<rparr>) request cached
      | (cache1, None) \<Rightarrow>
          let m1 = m\<lparr>mw_cache := cache1\<rparr> in
          (case breaker_allow (mw_breaker m1) (se_now env) of
             (breaker1, allowed) \<Rightarrow>
               let m2 = m1\<lparr>mw_breaker := breaker1\<rparr> in
               if \<not> allowed then handleFailure env m2 request (q_requestID input) AgentUnavailable
               else (case evaluate (mw_agent m2) (se_network env) input of
                   Inl err \<Rightarrow>
                     handleFailure env
                       (m2\<lparr>mw_breaker := breaker_failure (mw_breaker m2) (se_now env)\<rparr>)
                       request (q_requestID input) (ae_kind err)
                 | Inr response \<Rightarrow>
                     let m3 = m2\<lparr>mw_breaker := breaker_success (mw_breaker m2)\<rparr> in
                     if r_decision response = ''error''
                     then handleFailure env m3 request (q_requestID input) AgentUnavailable
                     else handleDecision env
                       (m3\<lparr>mw_cache := cache_put (se_hash env) (se_sweepOrder env) (se_evictOrder env)
                           (mw_cache m3) input response (se_now env)\<rparr>)
                       request response)))"

definition serveHTTP :: "serveEnv \<Rightarrow> middleware \<Rightarrow> httpRequest \<Rightarrow> middleware \<times> outcome" where
  "serveHTTP env m request =
     (let requestID = normalizedRequestID (se_random env) (se_stamp env)
            (header_get (h_header request) ''X-Request-ID'');
          protocol = protocolType request
      in case extractClientIPWithSource request (clientIPC (mw_config m)) (mw_trusted m)
              (mw_providers m) (se_peerTime env) of
           (None, _, _) \<Rightarrow> handleFailure env m request requestID AgentUnavailable
         | (Some clientIP, clientIPSource, ipError) \<Rightarrow>
             let m1 = (case ipError of
                  None \<Rightarrow> m
                | Some e \<Rightarrow> m\<lparr>mw_clientIPLogAt :=
                    fst (logClientIPProblem (se_logTime env) e (mw_clientIPLogAt m))\<rparr>)
             in case handleChallengeEndpoint (mw_agent m1) (se_network env)
                     (challengeC (mw_config m1)) (mw_trusted m1) (se_header env) request requestID clientIP of
                Some response \<Rightarrow> (m1, Responded response)
              | None \<Rightarrow>
                  if \<not> validInboundMetadata request
                  then write_response env m1 request (error_response 400 requestID ''invalid_request'')
                  else (case captureRequestBody request (requestBodyC (mw_config m1)) protocol of
                      (request', Inl _) \<Rightarrow> handleFailure env m1 request' requestID AgentUnavailable
                    | (request', Inr (body, oversized)) \<Rightarrow>
                        if oversized \<and> rb_oversizeAction (requestBodyC (mw_config m1)) = ''reject''
                        then write_response env m1 request'
                          (error_response 413 requestID ''request_body_too_large'')
                        else ask_agent env m1 request'
                          (evaluation_input env m1 request' requestID clientIP clientIPSource protocol
                            (if oversized then [] else body) oversized)))"

section \<open>Serving in steps\<close>

text \<open>
  Requests are served concurrently and share the middleware; each access to the cache, the breaker
  and the page store is one critical section. A step of a request is the code up to and including
  one such access, or one call of the Agent. \<open>control\<close> says where a request is.
\<close>

datatype control =
    Arrived httpRequest
  | Refusing httpRequest evaluationResponse
  | Looking httpRequest evaluationRequest
  | Asking httpRequest evaluationRequest
  | Calling httpRequest evaluationRequest
  | Returned httpRequest evaluationRequest "agentError + evaluationResponse"
  | Storing httpRequest evaluationRequest evaluationResponse
  | Deciding httpRequest evaluationResponse
  | Failing httpRequest string agentErrorKind
  | Finished outcome

definition begin_request :: "serveEnv \<Rightarrow> middleware \<Rightarrow> httpRequest \<Rightarrow> middleware \<times> control" where
  "begin_request env m request =
     (let requestID = normalizedRequestID (se_random env) (se_stamp env)
            (header_get (h_header request) ''X-Request-ID'');
          protocol = protocolType request
      in case extractClientIPWithSource request (clientIPC (mw_config m)) (mw_trusted m)
              (mw_providers m) (se_peerTime env) of
           (None, _, _) \<Rightarrow> (m, Failing request requestID AgentUnavailable)
         | (Some clientIP, clientIPSource, ipError) \<Rightarrow>
             let m1 = (case ipError of
                  None \<Rightarrow> m
                | Some e \<Rightarrow> m\<lparr>mw_clientIPLogAt :=
                    fst (logClientIPProblem (se_logTime env) e (mw_clientIPLogAt m))\<rparr>)
             in case handleChallengeEndpoint (mw_agent m1) (se_network env)
                     (challengeC (mw_config m1)) (mw_trusted m1) (se_header env) request requestID clientIP of
                Some response \<Rightarrow> (m1, Finished (Responded response))
              | None \<Rightarrow>
                  if \<not> validInboundMetadata request
                  then (m1, Refusing request (error_response 400 requestID ''invalid_request''))
                  else (case captureRequestBody request (requestBodyC (mw_config m1)) protocol of
                      (request', Inl _) \<Rightarrow> (m1, Failing request' requestID AgentUnavailable)
                    | (request', Inr (body, oversized)) \<Rightarrow>
                        if oversized \<and> rb_oversizeAction (requestBodyC (mw_config m1)) = ''reject''
                        then (m1, Refusing request' (error_response 413 requestID ''request_body_too_large''))
                        else (m1, Looking request'
                          (evaluation_input env m1 request' requestID clientIP clientIPSource protocol
                            (if oversized then [] else body) oversized))))"

definition finish :: "middleware \<times> outcome \<Rightarrow> middleware \<times> control" where
  "finish x = (fst x, Finished (snd x))"

fun serve_step :: "serveEnv \<Rightarrow> middleware \<Rightarrow> control \<Rightarrow> middleware \<times> control" where
  "serve_step env m (Arrived request) = begin_request env m request"
| "serve_step env m (Refusing request response) = finish (write_response env m request response)"
| "serve_step env m (Looking request input) =
     (case cache_get (se_hash env) (mw_cache m) input (q_requestID input) (se_now env) of
        (cache1, Some cached) \<Rightarrow> (m\<lparr>mw_cache := cache1\<rparr>, Deciding request cached)
      | (cache1, None) \<Rightarrow> (m\<lparr>mw_cache := cache1\<rparr>, Asking request input))"
| "serve_step env m (Asking request input) =
     (case breaker_allow (mw_breaker m) (se_now env) of
        (breaker1, allowed) \<Rightarrow>
          (m\<lparr>mw_breaker := breaker1\<rparr>,
           if allowed then Calling request input
           else Failing request (q_requestID input) AgentUnavailable))"
| "serve_step env m (Calling request input) =
     (m, Returned request input
       (evaluate (mw_agent m) (se_network env) input))"
| "serve_step env m (Returned request input (Inl err)) =
     (m\<lparr>mw_breaker := breaker_failure (mw_breaker m) (se_now env)\<rparr>,
      Failing request (q_requestID input) (ae_kind err))"
| "serve_step env m (Returned request input (Inr response)) =
     (m\<lparr>mw_breaker := breaker_success (mw_breaker m)\<rparr>,
      if r_decision response = ''error'' then Failing request (q_requestID input) AgentUnavailable
      else Storing request input response)"
| "serve_step env m (Storing request input response) =
     (m\<lparr>mw_cache := cache_put (se_hash env) (se_sweepOrder env) (se_evictOrder env) (mw_cache m)
         input response (se_now env)\<rparr>,
      Deciding request response)"
| "serve_step env m (Deciding request response) = finish (handleDecision env m request response)"
| "serve_step env m (Failing request requestID kind) = finish (handleFailure env m request requestID kind)"
| "serve_step env m (Finished out) = (m, Finished out)"

fun serve_steps :: "nat \<Rightarrow> serveEnv \<Rightarrow> middleware \<times> control \<Rightarrow> middleware \<times> control" where
  "serve_steps 0 env x = x"
| "serve_steps (Suc n) env x = serve_steps n env (serve_step env (fst x) (snd x))"

section \<open>The steps of one request compose to \<open>serveHTTP\<close>\<close>

lemma serve_steps_finished [simp]: "serve_steps n env (m, Finished out) = (m, Finished out)"
  by (induction n) simp_all

lemma serve_steps_finish [simp]: "serve_steps n env (finish x) = finish x"
  by (simp add: finish_def)

lemma serve_step_finish [simp]: "serve_step env (fst (finish x)) (snd (finish x)) = finish x"
  by (simp add: finish_def)

lemma serve_steps_Suc: "serve_steps (Suc n) env (m, c) = serve_steps n env (serve_step env m c)"
  by simp

lemma ask_agent_steps:
  "serve_steps (Suc (Suc (Suc (Suc (Suc (Suc 0)))))) env (m, Looking request input)
   = finish (ask_agent env m request input)"
  by (simp add: ask_agent_def Let_def split: prod.split option.split sum.split)

lemma seven: "(7 :: nat) = Suc (Suc (Suc (Suc (Suc (Suc (Suc 0))))))" by simp

lemma begin_request_steps:
  "serve_steps (Suc (Suc (Suc (Suc (Suc (Suc 0)))))) env (begin_request env m request)
   = finish (serveHTTP env m request)"
proof -
  define n :: nat where "n = Suc (Suc (Suc (Suc (Suc 0))))"
  have looking: "serve_steps (Suc n) env (m, Looking request input) = finish (ask_agent env m request input)"
    for m request input unfolding n_def by (rule ask_agent_steps)
  have failing: "serve_steps (Suc n) env (m, Failing request rid k) = finish (handleFailure env m request rid k)"
    for m request rid k unfolding serve_steps_Suc by simp
  have refusing: "serve_steps (Suc n) env (m, Refusing request r) = finish (write_response env m request r)"
    for m request r unfolding serve_steps_Suc by simp
  have "serve_steps (Suc n) env (begin_request env m request) = finish (serveHTTP env m request)"
    unfolding begin_request_def serveHTTP_def Let_def
    by (simp del: serve_steps.simps(2) add: looking failing refusing finish_def
        split: prod.split option.split sum.split)
  then show ?thesis unfolding n_def .
qed


section \<open>The shape of the outcome\<close>

lemma write_response_outcome:
  "\<exists>written. snd (write_response env m request response) = Responded written
     \<and> o_status written = enforcementStatus response
     \<and> written = fst (page_write (se_write env) (mw_pages m) (se_header env) request response)"
  by (auto simp: write_response_def page_write_def Let_def split: prod.split)

lemma write_response_not_forwarded [simp]:
  "snd (write_response env m request response) \<noteq> Forwarded r"
  by (simp add: write_response_def split: prod.split)

lemma write_response_state:
  "fst (write_response env m request response) = m\<lparr>mw_pages := mw_pages (fst (write_response env m request response))\<rparr>"
  by (simp add: write_response_def split: prod.split)

lemma failure_forwards:
  "snd (handleFailure env m request requestID kind) = Forwarded r \<longleftrightarrow>
     r = request
     \<and> (if kind = AgentMalformed then fm_malformedResponse (failureMode (mw_config m))
        else fm_agentUnavailable (failureMode (mw_config m))) = ''allow''"
  by (auto simp: handleFailure_def Let_def)

lemma decision_forwards:
  "snd (handleDecision env m request response) = Forwarded r \<Longrightarrow>
     r = request
     \<and> (r_decision response \<in> {''allow'', ''observe''}
        \<or> r_decision response \<in> {''block'', ''challenge'', ''rate_limit''}
            \<and> fm_explicitLocalDeny (failureMode (mw_config m)) = ''allow''
        \<or> fm_malformedResponse (failureMode (mw_config m)) = ''allow''
            \<and> r_decision response \<notin> {''allow'', ''observe'', ''block'', ''challenge'', ''rate_limit''})"
  by (auto simp: handleDecision_def failure_forwards split: if_splits)

text \<open>What a handler changes: the page store only.\<close>

definition keeps :: "middleware \<Rightarrow> middleware \<Rightarrow> bool" where
  "keeps m m' \<longleftrightarrow>
     mw_config m' = mw_config m \<and> mw_trusted m' = mw_trusted m \<and> mw_agent m' = mw_agent m
     \<and> mw_forwarding m' = mw_forwarding m"

lemma keeps_refl [simp]: "keeps m m"
  by (simp add: keeps_def)

lemma keeps_trans: "keeps m m' \<Longrightarrow> keeps m' m'' \<Longrightarrow> keeps m m''"
  by (simp add: keeps_def)

lemma handlers_keep:
  "fst (handleFailure env m request requestID kind)
     = m\<lparr>mw_pages := mw_pages (fst (handleFailure env m request requestID kind))\<rparr>"
  "fst (handleDecision env m request response)
     = m\<lparr>mw_pages := mw_pages (fst (handleDecision env m request response))\<rparr>"
proof -
  show f: "fst (handleFailure env m request requestID kind)
     = m\<lparr>mw_pages := mw_pages (fst (handleFailure env m request requestID kind))\<rparr>" for requestID kind
    using write_response_state by (simp add: handleFailure_def Let_def)
  show "fst (handleDecision env m request response)
     = m\<lparr>mw_pages := mw_pages (fst (handleDecision env m request response))\<rparr>"
    using write_response_state f by (simp add: handleDecision_def)
qed

text \<open>A request that is begun: what holds when it goes on to the cache, and what it fails with.\<close>

lemma begin_cases:
  obtains (failing) rid where "begin_request env m request = (m, Failing request rid AgentUnavailable)"
      "\<exists>e. parseRemoteIP (h_remoteAddr request) = Inl e"
  | (served) m1 response where "begin_request env m request = (m1, Finished (Responded response))"
      "\<exists>logAt. m1 = m\<lparr>mw_clientIPLogAt := logAt\<rparr>"
      "h_path request \<in> {ch_pathPrefix (challengeC (mw_config m)) @ ''/challenge'',
         ch_pathPrefix (challengeC (mw_config m)) @ ''/challenge/verify''}
       \<or> has_prefix (h_path request) (ch_pathPrefix (challengeC (mw_config m)) @ ''/'')"
  | (refusing) m1 rid status reason where
      "begin_request env m request = (m1, Refusing request (error_response status rid reason))"
      "\<exists>logAt. m1 = m\<lparr>mw_clientIPLogAt := logAt\<rparr>"
      "\<not> validInboundMetadata request
       \<or> (\<exists>body. snd (captureRequestBody request (requestBodyC (mw_config m)) (protocolType request))
            = Inr (body, True))"
  | (unread) m1 rid where "begin_request env m request = (m1, Failing request rid AgentUnavailable)"
      "\<exists>logAt. m1 = m\<lparr>mw_clientIPLogAt := logAt\<rparr>" "validInboundMetadata request"
      "snd (captureRequestBody request (requestBodyC (mw_config m)) (protocolType request)) = Inl BodyReadFailed"
      "\<not> has_prefix (h_path request) (ch_pathPrefix (challengeC (mw_config m)) @ ''/'')"
  | (looking) m1 rid clientIP source body oversized where
      "begin_request env m request = (m1, Looking request
         (evaluation_input env m request rid clientIP source (protocolType request) body oversized))"
      "\<exists>logAt. m1 = m\<lparr>mw_clientIPLogAt := logAt\<rparr>" "validInboundMetadata request"
      "\<not> has_prefix (h_path request) (ch_pathPrefix (challengeC (mw_config m)) @ ''/'')"
      "\<exists>err. extractClientIPWithSource request (clientIPC (mw_config m)) (mw_trusted m)
         (mw_providers m) (se_peerTime env) = (Some clientIP, source, err)"
      "rid = normalizedRequestID (se_random env) (se_stamp env) (header_get (h_header request) ''X-Request-ID'')"
proof (cases "extractClientIPWithSource request (clientIPC (mw_config m)) (mw_trusted m)
    (mw_providers m) (se_peerTime env)")
  case (fields client source ipError)
  show ?thesis
  proof (cases client)
    case None
    have "\<exists>e. parseRemoteIP (h_remoteAddr request) = Inl e"
      using client_address_total [of request "clientIPC (mw_config m)" "mw_trusted m" "mw_providers m"
          "se_peerTime env"] fields None
      by (cases "parseRemoteIP (h_remoteAddr request)") auto
    then show ?thesis using fields None by (intro failing) (simp_all add: begin_request_def)
  next
    case (Some clientIP)
    let ?rid = "normalizedRequestID (se_random env) (se_stamp env) (header_get (h_header request) ''X-Request-ID'')"
    define m1 where "m1 = (case ipError of None \<Rightarrow> m
        | Some e \<Rightarrow> m\<lparr>mw_clientIPLogAt := fst (logClientIPProblem (se_logTime env) e (mw_clientIPLogAt m))\<rparr>)"
    have m1: "\<exists>logAt. m1 = m\<lparr>mw_clientIPLogAt := logAt\<rparr>"
      by (cases ipError) (auto simp: m1_def intro: exI [of _ "mw_clientIPLogAt m"])
    then have same: "mw_config m1 = mw_config m" "mw_trusted m1 = mw_trusted m" "mw_agent m1 = mw_agent m"
      "mw_forwarding m1 = mw_forwarding m" by auto
    have input: "evaluation_input env m1 = evaluation_input env m"
      by (intro ext) (simp add: evaluation_input_def same)
    let ?e = "handleChallengeEndpoint (mw_agent m) (se_network env)
        (challengeC (mw_config m)) (mw_trusted m) (se_header env) request ?rid clientIP"
    note started = begin_request_def [of env m request, unfolded Let_def fields Some prod.case option.case,
        folded m1_def, unfolded same input]
    show ?thesis
    proof (cases ?e)
      case (Some response)
      then have "h_path request \<in> {ch_pathPrefix (challengeC (mw_config m)) @ ''/challenge'',
           ch_pathPrefix (challengeC (mw_config m)) @ ''/challenge/verify''}
         \<or> has_prefix (h_path request) (ch_pathPrefix (challengeC (mw_config m)) @ ''/'')"
        by (auto simp: handleChallengeEndpoint_def Let_def split: if_splits)
      with m1 started Some show ?thesis by (intro served) simp_all
    next
      case None
      then have p: "\<not> has_prefix (h_path request) (ch_pathPrefix (challengeC (mw_config m)) @ ''/'')"
        by (auto simp: handleChallengeEndpoint_def Let_def split: if_splits)
      note started = started [unfolded None option.case]
      show ?thesis
      proof (cases "validInboundMetadata request")
        case False
        with m1 started show ?thesis by (intro refusing) simp_all
      next
        case True
        obtain result where c: "captureRequestBody request (requestBodyC (mw_config m)) (protocolType request)
            = (request, result)"
          using capture_replays by (metis prod.collapse)
        show ?thesis
        proof (cases result)
          case (Inl e)
          then show ?thesis using m1 started True c p by (cases e) (intro unread; simp)
        next
          case (Inr bo)
          obtain body oversized where bo: "bo = (body, oversized)" by (cases bo)
          show ?thesis
          proof (cases "oversized \<and> rb_oversizeAction (requestBodyC (mw_config m)) = ''reject''")
            case True
            with Inr bo m1 started \<open>validInboundMetadata request\<close> c show ?thesis by (intro refusing) simp_all
          next
            case False
            then show ?thesis
              using Inr bo m1 started \<open>validInboundMetadata request\<close> c p fields \<open>client = Some clientIP\<close>
              by (intro looking [of m1 ?rid clientIP source "if oversized then [] else body" oversized]) auto
          qed
        qed
      qed
    qed
  qed
qed


text \<open>One request alone, from what \<open>begin_request\<close> found.\<close>

lemma serve_from_begin:
  assumes "begin_request env m request = (m1, c)"
  shows "finish (serveHTTP env m request)
    = (case c of
         Looking r q \<Rightarrow> finish (ask_agent env m1 r q)
       | Failing r rid k \<Rightarrow> finish (handleFailure env m1 r rid k)
       | Refusing r response \<Rightarrow> finish (write_response env m1 r response)
       | _ \<Rightarrow> serve_steps (Suc (Suc (Suc (Suc (Suc (Suc 0)))))) env (m1, c))"
  using begin_request_steps [of env m request, symmetric] ask_agent_steps
  unfolding assms by (cases c) simp_all

lemma finish_inject [simp]: "finish x = finish y \<longleftrightarrow> x = y"
  by (simp add: finish_def prod_eq_iff)

lemma finish_pair [simp]: "finish x = (m, Finished out) \<longleftrightarrow> x = (m, out)"
  by (auto simp: finish_def)

text \<open>A readable request outside the challenge endpoints that passes the checks is looked up.\<close>

lemma begin_looking:
  assumes "\<not> has_prefix (h_path request) (ch_pathPrefix (challengeC (mw_config m)) @ ''/'')"
    and "validInboundMetadata request" "parseRemoteIP (h_remoteAddr request) = Inr direct"
    and "snd (captureRequestBody request (requestBodyC (mw_config m)) (protocolType request)) = Inr (body, False)"
  obtains m1 clientIP source body' oversized logAt where
    "begin_request env m request = (m1, Looking request (evaluation_input env m request
       (normalizedRequestID (se_random env) (se_stamp env) (header_get (h_header request) ''X-Request-ID''))
       clientIP source (protocolType request) body' oversized))"
    "m1 = m\<lparr>mw_clientIPLogAt := logAt\<rparr>"
proof (cases rule: begin_cases [of env m request])
  case (looking m1 rid clientIP source body oversized)
  then show thesis using that by blast
next
  case (served m1 response)
  then have "has_prefix (h_path request) (ch_pathPrefix (challengeC (mw_config m)) @ ''/'')"
    unfolding has_prefix_iff by auto
  with assms show thesis by simp
qed (use assms in auto)

section \<open>Examples\<close>

definition exampleMiddleware :: middleware where
  "exampleMiddleware =
     \<lparr>mw_config = createConfig\<lparr>failureMode := \<lparr>fm_agentUnavailable = ''deny'',
        fm_malformedResponse = ''deny'', fm_explicitLocalDeny = ''deny''\<rparr>\<rparr>,
      mw_trusted = [], mw_agent = exampleClient, mw_pages = exampleStorePages,
      mw_cache = newDecisionCache 4 1000000000, mw_breaker = newCircuitBreaker 3 5000000000,
      mw_forwarding = newForwardingPolicy (requestC createConfig), mw_providers = None,
      mw_clientIPLogAt = 0\<rparr>"

definition exampleWrite :: writeEnv where
  "exampleWrite = \<lparr>we_files = exampleFiles, we_random = Some ''abc'', we_stamp = ''t'', we_now = 7,
     we_timestamp = ''t'', we_order = id\<rparr>"

definition exampleEnv :: serveEnv where
  "exampleEnv = \<lparr>se_random = Some (replicate 16 CHR ''r''), se_stamp = ''t'', se_peerTime = 7,
     se_logTime = 7, se_now = 7, se_header = [], se_network = exampleNetwork,
     se_hash = exampleHash, se_headerOrder = id, se_sweepOrder = id, se_evictOrder = id,
     se_write = exampleWrite\<rparr>"

section \<open>Properties\<close>

text \<open>
  Serving is its steps. A request that is served alone passes through at most seven steps, each
  with one access to the shared state, and they give what \<open>ServeHTTP\<close> gives: the same outcome and
  the same state.
\<close>

lemma steps_compose_to_serveHTTP:
  "serve_steps 7 env (m, Arrived request)
   = (fst (serveHTTP env m request), Finished (snd (serveHTTP env m request)))"
  using begin_request_steps [of env m request] unfolding seven serve_steps_Suc
  by (simp add: finish_def)

section \<open>Asking the Agent\<close>

lemma empty_cache_get [simp]:
  "cache_get H (newDecisionCache n ttl) q rid now = (newDecisionCache n ttl, None)"
  by (simp add: cache_get_def newDecisionCache_def Let_def)

text \<open>The answer of the Agent to an input.\<close>

definition answer :: "middleware \<Rightarrow> serveEnv \<Rightarrow> evaluationRequest \<Rightarrow> agentError + evaluationResponse" where
  "answer m env input =
     evaluate (mw_agent m) (se_network env) input"

text \<open>What one exchange with the Agent does, by its outcome.\<close>

definition looked_up :: "serveEnv \<Rightarrow> middleware \<Rightarrow> evaluationRequest \<Rightarrow> decisionCache \<times> evaluationResponse option" where
  "looked_up env m q = cache_get (se_hash env) (mw_cache m) q (q_requestID q) (se_now env)"

definition stored :: "serveEnv \<Rightarrow> decisionCache \<Rightarrow> evaluationRequest \<Rightarrow> evaluationResponse \<Rightarrow> decisionCache" where
  "stored env c q r = cache_put (se_hash env) (se_sweepOrder env) (se_evictOrder env) c q r (se_now env)"

lemma ask_hit:
  "looked_up env m q = (c, Some r) \<Longrightarrow>
     ask_agent env m request q = handleDecision env (m\<lparr>mw_cache := c\<rparr>) request r"
  by (simp add: ask_agent_def looked_up_def)

lemma ask_refused:
  "looked_up env m q = (c, None) \<Longrightarrow> breaker_allow (mw_breaker m) (se_now env) = (b, False) \<Longrightarrow>
     ask_agent env m request q
     = handleFailure env (m\<lparr>mw_cache := c, mw_breaker := b\<rparr>) request (q_requestID q) AgentUnavailable"
  by (simp add: ask_agent_def looked_up_def Let_def)

lemma ask_failed:
  "looked_up env m q = (c, None) \<Longrightarrow> breaker_allow (mw_breaker m) (se_now env) = (b, True) \<Longrightarrow>
     answer m env q = Inl err \<Longrightarrow>
     ask_agent env m request q
     = handleFailure env (m\<lparr>mw_cache := c, mw_breaker := breaker_failure b (se_now env)\<rparr>) request
         (q_requestID q) (ae_kind err)"
  by (simp add: ask_agent_def looked_up_def Let_def answer_def)

lemma ask_answered:
  "looked_up env m q = (c, None) \<Longrightarrow> breaker_allow (mw_breaker m) (se_now env) = (b, True) \<Longrightarrow>
     answer m env q = Inr r \<Longrightarrow> r_decision r \<noteq> ''error'' \<Longrightarrow>
     ask_agent env m request q
     = handleDecision env (m\<lparr>mw_breaker := breaker_success b, mw_cache := stored env c q r\<rparr>) request r"
  by (simp add: ask_agent_def looked_up_def Let_def answer_def stored_def)

definition mode_of :: "middleware \<Rightarrow> agentErrorKind \<Rightarrow> string" where
  "mode_of m kind =
     (case kind of
        AgentMalformed \<Rightarrow> fm_malformedResponse (failureMode (mw_config m))
      | AgentUnavailable \<Rightarrow> fm_agentUnavailable (failureMode (mw_config m)))"

lemma failure_outcome:
  "if mode_of m kind = ''allow'' then handleFailure env m request rid kind = (m, Forwarded request)
   else \<exists>written. snd (handleFailure env m request rid kind) = Responded written \<and> o_status written = 503"
proof -
  have "enforcementStatus (error_response 503 rid reason) = 503" for reason
    by (simp add: enforcementStatus_def error_response_def)
  then have "\<exists>written. snd (write_response env m request (error_response 503 rid reason)) = Responded written
      \<and> o_status written = 503" for reason
    using write_response_outcome [of env m request "error_response 503 rid reason"] by auto
  then show ?thesis by (cases kind) (simp_all add: handleFailure_def mode_of_def Let_def)
qed

lemma failure_state:
  "mw_cache (fst (handleFailure env m request rid kind)) = mw_cache m
   \<and> mw_breaker (fst (handleFailure env m request rid kind)) = mw_breaker m"
proof -
  have "mw_cache (fst (write_response env m request response)) = mw_cache m
      \<and> mw_breaker (fst (write_response env m request response)) = mw_breaker m" for response
    by (subst (1 2) write_response_state) simp
  then show ?thesis by (simp add: handleFailure_def Let_def)
qed

text \<open>
  C4. Ambiguous paths never reach the application. A request whose metadata is invalid (a dot segment,
  an empty method, a path beyond 8 KiB) or whose path lies below the challenge prefix touches
  neither the cache nor the breaker. If the address of its peer can be read, it gets a response
  whatever the failure modes. If it cannot, the request ends as an unavailable Agent does before
  its metadata is looked at: it is forwarded when that failure mode is \<open>allow\<close>.
\<close>

theorem invalid_requests_stop_here:
  assumes "\<not> validInboundMetadata request
      \<or> has_prefix (h_path request) (ch_pathPrefix (challengeC (mw_config m)) @ ''/'')"
  shows "mw_cache (fst (serveHTTP env m request)) = mw_cache m
     \<and> mw_breaker (fst (serveHTTP env m request)) = mw_breaker m
     \<and> (case parseRemoteIP (h_remoteAddr request) of
          Inr direct \<Rightarrow> \<exists>response. snd (serveHTTP env m request) = Responded response
        | Inl unreadable \<Rightarrow>
            if fm_agentUnavailable (failureMode (mw_config m)) = ''allow''
            then snd (serveHTTP env m request) = Forwarded request
            else \<exists>response. snd (serveHTTP env m request) = Responded response \<and> o_status response = 503)"
proof (cases "parseRemoteIP (h_remoteAddr request)")
  case (Inl e)
  then have "extractClientIPWithSource request (clientIPC (mw_config m)) (mw_trusted m)
      (mw_providers m) (se_peerTime env) = (None, ''fallback_error'', Some e)"
    using client_address_total by blast
  then obtain rid where "begin_request env m request = (m, Failing request rid AgentUnavailable)"
    by (simp add: begin_request_def)
  from serve_from_begin [OF this] have "serveHTTP env m request = handleFailure env m request rid AgentUnavailable"
    by simp
  with failure_outcome [of m AgentUnavailable env request rid] failure_state [of env m request rid AgentUnavailable] Inl
  show ?thesis by (auto simp: mode_of_def)
next
  case (Inr direct)
  have "(\<exists>response. snd (serveHTTP env m request) = Responded response)
     \<and> mw_cache (fst (serveHTTP env m request)) = mw_cache m
     \<and> mw_breaker (fst (serveHTTP env m request)) = mw_breaker m"
  proof (cases rule: begin_cases [of env m request])
    case (served m1 response)
    from serve_from_begin [OF served(1)] have "serveHTTP env m request = (m1, Responded response)"
      by simp
    with served(2) show ?thesis by auto
  next
    case (refusing m1 rid status reason)
    from serve_from_begin [OF refusing(1)]
    have s: "serveHTTP env m request = write_response env m1 request (error_response status rid reason)"
      by simp
    have "\<exists>p. fst (serveHTTP env m request) = m1\<lparr>mw_pages := p\<rparr>"
      unfolding s by (rule exI [of _ "mw_pages (fst (write_response env m1 request (error_response status rid reason)))"])
        (rule write_response_state)
    with refusing(2) s write_response_outcome [of env m1 request] show ?thesis by fastforce
  qed (use assms Inr in auto)
  with Inr show ?thesis by simp
qed


definition exampleDotted :: httpRequest where
  "exampleDotted = exampleHttp\<lparr>h_path := ''/a/../b''\<rparr>"

theorem invalid_requests_stop_here_witness:
  "\<exists>response. snd (serveHTTP exampleEnv exampleMiddleware exampleDotted) = Responded response"
proof -
  have p: "parseRemoteIP (h_remoteAddr exampleDotted) = Inr [10, 0, 0, 1]" by code_simp
  have v: "\<not> validInboundMetadata exampleDotted" by code_simp
  from invalid_requests_stop_here [OF disjI1 [OF v]] show ?thesis by (simp add: p)
qed

lemma handler_components [simp]:
  "mw_cache (fst (handleFailure env m request rid k)) = mw_cache m"
  "mw_breaker (fst (handleFailure env m request rid k)) = mw_breaker m"
  "mw_config (fst (handleFailure env m request rid k)) = mw_config m"
  "mw_agent (fst (handleFailure env m request rid k)) = mw_agent m"
  "mw_cache (fst (handleDecision env m request r)) = mw_cache m"
  "mw_breaker (fst (handleDecision env m request r)) = mw_breaker m"
  "mw_config (fst (handleDecision env m request r)) = mw_config m"
  "mw_agent (fst (handleDecision env m request r)) = mw_agent m"
  by (subst handlers_keep, simp)+

text \<open>
  C8. A failure ends as its mode says. When the breaker lets a request ask and the Agent fails, the
  request is forwarded if the failure mode of the error's kind (malformed or unavailable) is
  \<open>allow\<close>, and answered with status 503 otherwise; the breaker records one failure and nothing is
  cached.
\<close>

theorem failure_ends_as_its_mode_says:
  assumes "snd (looked_up env m q) = None" "snd (breaker_allow (mw_breaker m) (se_now env))"
    and "answer m env q = Inl err"
  shows "(if mode_of m (ae_kind err) = ''allow''
      then snd (ask_agent env m request q) = Forwarded request
      else \<exists>written. snd (ask_agent env m request q) = Responded written \<and> o_status written = 503)
     \<and> mw_cache (fst (ask_agent env m request q)) = fst (looked_up env m q)
     \<and> mw_breaker (fst (ask_agent env m request q))
       = breaker_failure (fst (breaker_allow (mw_breaker m) (se_now env))) (se_now env)"
proof -
  obtain c b where l: "looked_up env m q = (c, None)"
    and b: "breaker_allow (mw_breaker m) (se_now env) = (b, True)"
    using assms(1,2) by (metis (full_types) prod.collapse)
  let ?m = "m\<lparr>mw_cache := c, mw_breaker := breaker_failure b (se_now env)\<rparr>"
  have "mode_of ?m (ae_kind err) = mode_of m (ae_kind err)"
    by (cases "ae_kind err") (simp_all add: mode_of_def)
  then show ?thesis
    using failure_outcome [of ?m "ae_kind err" env request "q_requestID q"]
    unfolding ask_failed [OF l b assms(3)] l b by (auto split: if_splits)
qed

text \<open>An Agent that cannot be reached.\<close>

definition exampleOutage :: serveEnv where
  "exampleOutage = exampleEnv\<lparr>se_network := \<lambda>_. Inl ''refused''\<rparr>"

lemma outage_answer:
  "mw_agent m = exampleClient \<Longrightarrow> se_network env = se_network exampleOutage \<Longrightarrow>
     answer m env q = Inl (unavailable ''local agent request: refused'')"
  using evaluate_unreachable [OF _ exampleClient_ready(1), of "se_network exampleOutage" q "''refused''"]
  by (simp add: answer_def exampleOutage_def)

theorem failure_ends_as_its_mode_says_witness:
  "\<exists>written. snd (ask_agent exampleOutage exampleMiddleware exampleHttp exampleRequest) = Responded written
     \<and> o_status written = 503"
proof -
  have l: "snd (looked_up exampleOutage exampleMiddleware exampleRequest) = None"
    by (simp add: looked_up_def exampleMiddleware_def)
  have b: "snd (breaker_allow (mw_breaker exampleMiddleware) (se_now exampleOutage))"
    by (simp add: exampleMiddleware_def breaker_allow_def newCircuitBreaker_def)
  have a: "answer exampleMiddleware exampleOutage exampleRequest
      = Inl (unavailable ''local agent request: refused'')"
    by (rule outage_answer) (simp_all add: exampleMiddleware_def)
  have "mode_of exampleMiddleware (ae_kind (unavailable ''local agent request: refused'')) = ''deny''"
    by (simp add: mode_of_def unavailable_def exampleMiddleware_def)
  with failure_ends_as_its_mode_says [OF l b a, of exampleHttp] show ?thesis by simp
qed


text \<open>
  C23. An open breaker shields the Agent. While the breaker refuses, a request that is not in the
  cache ends as an unavailable Agent does, and nothing of the environment's Agent has any
  influence on it: it is not asked.
\<close>

theorem open_breaker_shields_agent:
  assumes "snd (looked_up env m q) = None" "\<not> snd (breaker_allow (mw_breaker m) (se_now env))"
  shows "ask_agent (env\<lparr>se_network := network\<rparr>) m request q = ask_agent env m request q
     \<and> (if mode_of m AgentUnavailable = ''allow'' then snd (ask_agent env m request q) = Forwarded request
        else \<exists>written. snd (ask_agent env m request q) = Responded written \<and> o_status written = 503)"
proof -
  obtain c b where l: "looked_up env m q = (c, None)"
    and b: "breaker_allow (mw_breaker m) (se_now env) = (b, False)"
    using assms by (metis (full_types) prod.collapse)
  let ?m = "m\<lparr>mw_cache := c, mw_breaker := b\<rparr>"
  have l': "looked_up (env\<lparr>se_network := network\<rparr>) m q = (c, None)" using l by (simp add: looked_up_def)
  have b': "breaker_allow (mw_breaker m) (se_now (env\<lparr>se_network := network\<rparr>)) = (b, False)" using b by simp
  have "handleFailure (env\<lparr>se_network := network\<rparr>) ?m request rid k = handleFailure env ?m request rid k" for rid k
    by (simp add: handleFailure_def write_response_def Let_def)
  then have same: "ask_agent (env\<lparr>se_network := network\<rparr>) m request q = ask_agent env m request q"
    unfolding ask_refused [OF l b] ask_refused [OF l' b'] .
  have "mode_of ?m AgentUnavailable = mode_of m AgentUnavailable" by (simp add: mode_of_def)
  then show ?thesis
    using failure_outcome [of ?m AgentUnavailable env request "q_requestID q"] same
    unfolding ask_refused [OF l b] by (auto split: if_splits)
qed

definition exampleOpen :: middleware where
  "exampleOpen = exampleMiddleware\<lparr>mw_breaker := breaker_failure (newCircuitBreaker 1 10) 5\<rparr>"

theorem open_breaker_shields_agent_witness:
  "\<exists>written. snd (ask_agent exampleEnv exampleOpen exampleHttp exampleRequest) = Responded written
     \<and> o_status written = 503"
proof -
  have l: "snd (looked_up exampleEnv exampleOpen exampleRequest) = None"
    by (simp add: looked_up_def exampleOpen_def exampleMiddleware_def)
  have b: "\<not> snd (breaker_allow (mw_breaker exampleOpen) (se_now exampleEnv))"
    by (simp add: exampleOpen_def breaker_allow_def breaker_failure_def newCircuitBreaker_def exampleEnv_def)
  have "mode_of exampleOpen AgentUnavailable = ''deny''"
    by (simp add: mode_of_def exampleOpen_def exampleMiddleware_def)
  with open_breaker_shields_agent [OF l b, of exampleNetwork exampleHttp] show ?thesis by simp
qed



lemma example_answer: "answer exampleMiddleware exampleEnv exampleInput = Inr exampleDeny"
proof -
  have "evaluate exampleClient exampleNetwork exampleInput
      = evaluate exampleClient (\<lambda>_. Inr (exampleReply (marshalResponse exampleDeny))) exampleInput"
    by (rule evaluate_network) (simp add: exampleNetwork_def evaluation_call_def exampleClient_def)
  then show ?thesis
    using exampleDeny_evaluated by (simp add: answer_def exampleMiddleware_def exampleEnv_def)
qed

text \<open>The cache serves another request in between.\<close>

definition exampleLater :: middleware where
  "exampleLater =
     (let m = fst (ask_agent exampleEnv exampleMiddleware exampleHttp exampleInput) in
      m\<lparr>mw_cache := fst (run_ops (cache_step (se_hash exampleEnv)) (mw_cache m)
          [CacheGet (exampleInput\<lparr>q_path := ''/other''\<rparr>) ''r3'' 8])\<rparr>)"


section \<open>A slow Agent\<close>

text \<open>Requests served one after another, and whether each of them was sent to the Agent.\<close>

definition asks_agent :: "middleware \<Rightarrow> serveEnv \<Rightarrow> evaluationRequest \<Rightarrow> bool" where
  "asks_agent m env q \<longleftrightarrow> snd (looked_up env m q) = None \<and> snd (breaker_allow (mw_breaker m) (se_now env))"

fun ask_all :: "middleware \<Rightarrow> (serveEnv \<times> httpRequest \<times> evaluationRequest) list \<Rightarrow> bool list" where
  "ask_all m [] = []"
| "ask_all m ((env, request, q) # calls) =
     asks_agent m env q # ask_all (fst (ask_agent env m request q)) calls"

text \<open>Each call starts at least \<open>d\<close> after the one before it started.\<close>

fun spaced :: "duration \<Rightarrow> gotime \<Rightarrow> (serveEnv \<times> httpRequest \<times> evaluationRequest) list \<Rightarrow> bool" where
  "spaced d t [] = True"
| "spaced d t ((env, request, q) # calls) \<longleftrightarrow>
     0 < se_now env \<and> t \<le> se_now env \<and> spaced d (se_now env + d) calls"

lemma ask_all_slow:
  assumes "mw_cache m = newDecisionCache capacity ttl" "\<not> probe (mw_breaker m)"
    and "openUntil (mw_breaker m) \<le> t" "openDuration (mw_breaker m) = d" "0 \<le> d" "spaced d t calls"
    and "\<And>env request q. (env, request, q) \<in> set calls \<Longrightarrow>
      \<exists>err. \<forall>m'. mw_agent m' = mw_agent m \<longrightarrow> answer m' env q = Inl err"
  shows "list_all id (ask_all m calls)"
  using assms
proof (induction calls arbitrary: m t)
  case (Cons x calls)
  obtain env request q where x: "x = (env, request, q)" by (cases x)
  let ?m' = "fst (ask_agent env m request q)" and ?now = "se_now env"
  have l: "looked_up env m q = (mw_cache m, None)" using Cons.prems(1) by (simp add: looked_up_def)
  have now: "0 < ?now" "t \<le> ?now" "spaced d (?now + d) calls" using Cons.prems(6) x by simp_all
  define b where "b = (if openUntil (mw_breaker m) = 0 then mw_breaker m else mw_breaker m\<lparr>probe := True\<rparr>)"
  have b: "breaker_allow (mw_breaker m) ?now = (b, True)"
      "openDuration b = d" "openUntil b = openUntil (mw_breaker m)"
    using Cons.prems(2-4) now(2) by (auto simp: breaker_allow_def b_def)
  obtain err where err: "\<forall>m'. mw_agent m' = mw_agent m \<longrightarrow> answer m' env q = Inl err"
    using Cons.prems(7) [of env request q] x by auto
  then have a: "ask_agent env m request q
      = handleFailure env (m\<lparr>mw_cache := mw_cache m, mw_breaker := breaker_failure b ?now\<rparr>) request
          (q_requestID q) (ae_kind err)"
    by (intro ask_failed [OF l b(1)]) simp
  have "list_all id (ask_all ?m' calls)"
  proof (rule Cons.IH [of ?m' "?now + d"])
    show "mw_cache ?m' = newDecisionCache capacity ttl" using Cons.prems(1) by (simp add: a)
    show "\<not> probe (mw_breaker ?m')" by (simp add: a breaker_failure_def Let_def)
    show "openUntil (mw_breaker ?m') \<le> ?now + d"
      using b(2,3) Cons.prems(3,5) now(2) by (simp add: a breaker_failure_def Let_def)
    show "openDuration (mw_breaker ?m') = d" using b(2) by (simp add: a breaker_failure_def Let_def)
    show "\<exists>err. \<forall>m'. mw_agent m' = mw_agent ?m' \<longrightarrow> answer m' env' q' = Inl err"
      if "(env', request', q') \<in> set calls" for env' request' q'
      using Cons.prems(7) [of env' request' q'] that by (simp add: a)
  qed (use now(3) Cons.prems(5) in simp_all)
  with l b(1) show ?case by (simp add: x asks_agent_def id_def)
qed simp


text \<open>
  C36. A slow Agent is never shut out. \<open>ServeHTTP\<close> reads the clock before it asks the Agent and reports
  the failure with that time, so the open period starts when the call started. If every call fails
  only after the open duration (a timeout of two seconds and an open duration of 100 milliseconds
  are both accepted), requests that follow one another are all sent to the Agent, however many have
  failed: the breaker opens, but never refuses one.
\<close>

theorem slow_agent_is_never_shut_out:
  assumes "mw_cache m = newDecisionCache capacity ttl" "mw_breaker m = newCircuitBreaker n d" "0 \<le> d"
    and "spaced d 0 calls"
    and "\<And>env request q. (env, request, q) \<in> set calls \<Longrightarrow>
      \<exists>err. \<forall>m'. mw_agent m' = mw_agent m \<longrightarrow> answer m' env q = Inl err"
  shows "list_all id (ask_all m calls)"
  by (rule ask_all_slow [of m capacity ttl 0 d calls]) (use assms in \<open>simp_all add: newCircuitBreaker_def\<close>)

definition exampleSlow :: middleware where
  "exampleSlow = exampleMiddleware\<lparr>mw_breaker := newCircuitBreaker 1 100000000\<rparr>"

theorem slow_agent_is_never_shut_out_witness:
  "ask_all exampleSlow
     [(exampleOutage, exampleHttp, exampleRequest),
      (exampleOutage\<lparr>se_now := 2000000007\<rparr>, exampleHttp, exampleRequest),
      (exampleOutage\<lparr>se_now := 4000000007\<rparr>, exampleHttp, exampleRequest)] = [True, True, True]"
proof -
  let ?calls = "[(exampleOutage, exampleHttp, exampleRequest),
      (exampleOutage\<lparr>se_now := 2000000007\<rparr>, exampleHttp, exampleRequest),
      (exampleOutage\<lparr>se_now := 4000000007\<rparr>, exampleHttp, exampleRequest)]"
  have c: "mw_cache exampleSlow = newDecisionCache 4 1000000000"
    "mw_breaker exampleSlow = newCircuitBreaker 1 100000000"
    by (simp_all add: exampleSlow_def exampleMiddleware_def)
  have s: "spaced 100000000 0 ?calls" by (simp add: exampleOutage_def exampleEnv_def)
  have "answer m' (exampleOutage\<lparr>se_now := t\<rparr>) q = Inl (unavailable ''local agent request: refused'')"
    "answer m' exampleOutage q = Inl (unavailable ''local agent request: refused'')"
    if "mw_agent m' = mw_agent exampleSlow" for m' t q
    using that by (simp_all add: outage_answer exampleSlow_def exampleMiddleware_def)
  then have "list_all id (ask_all exampleSlow ?calls)"
    by (intro slow_agent_is_never_shut_out [OF c _ s]) auto
  then show ?thesis by simp
qed

end
