(* ===== verification/Concurrency.thy ===== *)
theory Concurrency
  imports Middleware
begin

text \<open>
  Requests served concurrently. The system is the shared state of the middleware and the requests
  in flight, each with its environment and its place in \<open>serve_step\<close>. A request arrives, one
  request performs its next step, or the refresh loop changes the provider ranges; the theorems
  hold for every interleaving of any number of requests.
\<close>

section \<open>The system\<close>

record thread =
  th_env :: serveEnv
  th_request :: httpRequest
  th_control :: control

type_synonym system = "middleware \<times> thread list"

text \<open>Maps are ranged over in some order of their keys, and the clock is past the zero time.\<close>

definition legal_env :: "serveEnv \<Rightarrow> bool" where
  "legal_env env \<longleftrightarrow>
     is_range_order (se_sweepOrder env) \<and> is_range_order (se_evictOrder env) \<and> 0 < se_now env"

inductive sys_step :: "system \<Rightarrow> system \<Rightarrow> bool" where
  arrive: "legal_env env \<Longrightarrow>
    sys_step (m, ts) (m, ts @ [\<lparr>th_env = env, th_request = r, th_control = Arrived r\<rparr>])"
| advance: "i < length ts \<Longrightarrow> serve_step (th_env (ts ! i)) m (th_control (ts ! i)) = (m', c) \<Longrightarrow>
    sys_step (m, ts) (m', ts[i := (ts ! i)\<lparr>th_control := c\<rparr>])"
| refresh: "sys_step (m, ts) (m\<lparr>mw_providers := ps\<rparr>, ts)"

inductive reachable :: "middleware \<Rightarrow> system \<Rightarrow> bool" for m0 where
  start: "reachable m0 (m0, [])"
| step: "reachable m0 x \<Longrightarrow> sys_step x y \<Longrightarrow> reachable m0 y"

inductive_cases sys_stepE: "sys_step (m, ts) y"

inductive_simps start_simps: "reachable m0 (m, [])"

section \<open>The shared state\<close>

text \<open>One step of one request, as a transformation of the shared state.\<close>

definition shared_inv :: "int \<Rightarrow> duration \<Rightarrow> middleware \<Rightarrow> middleware \<Rightarrow> bool" where
  "shared_inv n d m0 m \<longleftrightarrow>
     keeps m0 m \<and> cache_inv (mw_cache m)
     \<and> maximumEntries (mw_cache m) = maximumEntries (mw_cache m0)
     \<and> maximumTTL (mw_cache m) = maximumTTL (mw_cache m0)
     \<and> breaker_inv n d (mw_breaker m)"

lemma shared_inv_pages [simp]: "shared_inv n d m0 (m\<lparr>mw_pages := p\<rparr>) = shared_inv n d m0 m"
  by (simp add: shared_inv_def keeps_def)

lemma shared_inv_log [simp]: "shared_inv n d m0 (m\<lparr>mw_clientIPLogAt := t\<rparr>) = shared_inv n d m0 m"
  by (simp add: shared_inv_def keeps_def)

lemma shared_inv_providers [simp]: "shared_inv n d m0 (m\<lparr>mw_providers := ps\<rparr>) = shared_inv n d m0 m"
  by (simp add: shared_inv_def keeps_def)

lemma shared_inv_cache:
  "shared_inv n d m0 m \<Longrightarrow> cache_inv c \<Longrightarrow> maximumEntries c = maximumEntries (mw_cache m) \<Longrightarrow>
     maximumTTL c = maximumTTL (mw_cache m) \<Longrightarrow> shared_inv n d m0 (m\<lparr>mw_cache := c\<rparr>)"
  by (simp add: shared_inv_def keeps_def)

lemma shared_inv_breaker:
  "shared_inv n d m0 m \<Longrightarrow> breaker_inv n d b \<Longrightarrow> shared_inv n d m0 (m\<lparr>mw_breaker := b\<rparr>)"
  by (simp add: shared_inv_def keeps_def)

lemma handler_inv:
  "shared_inv n d m0 (fst (handleFailure env m request requestID kind)) = shared_inv n d m0 m"
  "shared_inv n d m0 (fst (handleDecision env m request response)) = shared_inv n d m0 m"
  "shared_inv n d m0 (fst (write_response env m request response)) = shared_inv n d m0 m"
  by (subst handlers_keep write_response_state, simp)+

lemma breaker_moves:
  assumes "breaker_inv n d b" "0 < now"
  shows "breaker_inv n d (fst (breaker_allow b now))" "breaker_inv n d (breaker_failure b now)"
    "breaker_inv n d (breaker_success b)"
  using assms breaker_step_inv [of n d b "Allow now"] breaker_step_inv [of n d b "Failure now"]
    breaker_step_inv [of n d b Success] by simp_all

lemma begin_inv: "shared_inv n d m0 m \<Longrightarrow> shared_inv n d m0 (fst (begin_request env m request))"
  by (cases rule: begin_cases [of env m request]) auto

lemma serve_step_inv:
  assumes inv: "shared_inv n d m0 m" and env: "legal_env env"
  shows "shared_inv n d m0 (fst (serve_step env m c))"
proof (cases "(env, m, c)" rule: serve_step.cases)
  case (1 e m' r)
  with begin_inv [OF inv] show ?thesis by simp
next
  case (3 e m' r q)
  obtain c1 res where g: "cache_get (se_hash env) (mw_cache m) q (q_requestID q) (se_now env) = (c1, res)"
    by fastforce
  have "cache_inv c1" "maximumEntries c1 = maximumEntries (mw_cache m)" "maximumTTL c1 = maximumTTL (mw_cache m)"
    using cache_get_inv [of "mw_cache m" "se_hash env" q "q_requestID q" "se_now env"] inv
      cache_get_fields [of "se_hash env" "mw_cache m" q "q_requestID q" "se_now env"]
    by (simp_all add: g shared_inv_def)
  from shared_inv_cache [OF inv this] 3 g show ?thesis by (simp split: option.split)
next
  case (4 e m' r q)
  obtain b allowed where a: "breaker_allow (mw_breaker m) (se_now env) = (b, allowed)" by fastforce
  have "breaker_inv n d b"
    using breaker_moves(1) [of n d "mw_breaker m" "se_now env"] inv env
    by (simp add: shared_inv_def legal_env_def a)
  from shared_inv_breaker [OF inv this] 4 a show ?thesis by simp
next
  case (6 e m' r q err)
  have "breaker_inv n d (breaker_failure (mw_breaker m) (se_now env))"
    using breaker_moves(2) inv env by (simp add: shared_inv_def legal_env_def)
  from shared_inv_breaker [OF inv this] 6 show ?thesis by simp
next
  case (7 e m' r q resp)
  have "breaker_inv n d (breaker_success (mw_breaker m))"
    using breaker_moves(3) [of n d "mw_breaker m" "se_now env"] inv env
    by (simp add: shared_inv_def legal_env_def)
  from shared_inv_breaker [OF inv this] 7 show ?thesis by simp
next
  case (8 e m' r q resp)
  have "cache_inv (cache_put (se_hash env) (se_sweepOrder env) (se_evictOrder env) (mw_cache m) q resp
      (se_now env))"
    using inv env by (intro cache_put_inv) (auto simp: shared_inv_def legal_env_def)
  from shared_inv_cache [OF inv this] 8 show ?thesis by simp
qed (use inv in \<open>simp_all add: finish_def handler_inv\<close>)


section \<open>The requests\<close>

text \<open>
  The input a request is judged by: made of this request, with the configuration of the
  middleware, after the metadata check and outside the challenge endpoints.
\<close>

definition judged_by :: "middleware \<Rightarrow> serveEnv \<Rightarrow> httpRequest \<Rightarrow> evaluationRequest \<Rightarrow> bool" where
  "judged_by m env request input \<longleftrightarrow>
     validInboundMetadata request
     \<and> \<not> has_prefix (h_path request) (ch_pathPrefix (challengeC (mw_config m)) @ ''/'')
     \<and> (\<exists>requestID clientIP source body oversized.
          input = evaluation_input env m request requestID clientIP source (protocolType request)
            body oversized)"


text \<open>Why a request may reach the application: the Agent's word, or the configuration.\<close>

definition allowed_by_agent :: "middleware \<Rightarrow> serveEnv \<Rightarrow> httpRequest \<Rightarrow> bool" where
  "allowed_by_agent m env request \<longleftrightarrow>
     (\<exists>input response. judged_by m env request input \<and> answer m env input = Inr response
        \<and> r_decision response \<in> {''allow'', ''observe''})"

definition fails_open :: "middleware \<Rightarrow> bool" where
  "fails_open m \<longleftrightarrow>
     fm_agentUnavailable (failureMode (mw_config m)) = ''allow''
     \<or> fm_malformedResponse (failureMode (mw_config m)) = ''allow''"

definition allows_denied :: "middleware \<Rightarrow> bool" where
  "allows_denied m \<longleftrightarrow> fm_explicitLocalDeny (failureMode (mw_config m)) = ''allow''"

text \<open>What is known of a request at each place.\<close>

fun control_ok :: "middleware \<Rightarrow> serveEnv \<Rightarrow> httpRequest \<Rightarrow> control \<Rightarrow> bool" where
  "control_ok m env r0 (Arrived r) \<longleftrightarrow> r = r0"
| "control_ok m env r0 (Refusing r response) \<longleftrightarrow> True"
| "control_ok m env r0 (Looking r q) \<longleftrightarrow> r = r0 \<and> judged_by m env r0 q"
| "control_ok m env r0 (Asking r q) \<longleftrightarrow> r = r0 \<and> judged_by m env r0 q"
| "control_ok m env r0 (Calling r q) \<longleftrightarrow> r = r0 \<and> judged_by m env r0 q"
| "control_ok m env r0 (Returned r q res) \<longleftrightarrow> r = r0 \<and> judged_by m env r0 q \<and> answer m env q = res"
| "control_ok m env r0 (Storing r q response) \<longleftrightarrow>
     r = r0 \<and> judged_by m env r0 q \<and> answer m env q = Inr response"
| "control_ok m env r0 (Deciding r response) \<longleftrightarrow>
     r = r0
     \<and> (r_decision response \<in> {''block'', ''rate_limit''}
        \<or> (\<exists>q. judged_by m env r0 q \<and> answer m env q = Inr response))"
| "control_ok m env r0 (Failing r requestID kind) \<longleftrightarrow> r = r0"
| "control_ok m env r0 (Finished (Forwarded r)) \<longleftrightarrow>
     r = r0 \<and> (allowed_by_agent m env r0 \<or> fails_open m \<or> allows_denied m)"
| "control_ok m env r0 (Finished (Responded response)) \<longleftrightarrow> True"

lemma evaluation_input_keeps: "keeps m0 m \<Longrightarrow> evaluation_input env m = evaluation_input env m0"
  by (intro ext) (simp add: evaluation_input_def keeps_def)

lemma judged_by_keeps: "keeps m0 m \<Longrightarrow> judged_by m env r q = judged_by m0 env r q"
  using evaluation_input_keeps [of m0 m env] by (simp add: judged_by_def keeps_def)

lemma answer_keeps: "keeps m0 m \<Longrightarrow> answer m env q = answer m0 env q"
  by (simp add: answer_def keeps_def)

lemma decision_of_answer:
  assumes "answer m env q = Inr response"
  shows "r_decision response \<in> {''allow'', ''observe'', ''block'', ''challenge'', ''rate_limit'', ''error''}"
  using valid_decision(2) [OF evaluate_accepted [OF assms [unfolded answer_def]]]
  by (auto simp: decision_status_def)

lemma cached_is_deny:
  assumes "cache_inv c" "cache_get H c q rid now = (c', Some r)"
  shows "r_decision r \<in> {''block'', ''rate_limit''}"
  using store.get_deny [OF assms(1), of H q rid now r] assms(2) by simp

lemma deciding_ok:
  assumes "keeps m0 m" "control_ok m0 env r0 (Deciding r response)"
  shows "control_ok m0 env r0 (Finished (snd (handleDecision env m r response)))"
proof (cases "snd (handleDecision env m r response)")
  case (Forwarded r')
  have same: "mw_config m = mw_config m0" using assms(1) by (simp add: keeps_def)
  from decision_forwards [OF Forwarded] assms(2) same decision_of_answer [of m0 env _ response]
  show ?thesis unfolding Forwarded
    by (auto simp: allowed_by_agent_def fails_open_def allows_denied_def)
qed simp

lemma failing_ok:
  assumes "keeps m0 m"
  shows "control_ok m0 env r (Finished (snd (handleFailure env m r rid kind)))"
proof (cases "snd (handleFailure env m r rid kind)")
  case (Forwarded r')
  have same: "mw_config m = mw_config m0" using assms by (simp add: keeps_def)
  from Forwarded [unfolded failure_forwards] same show ?thesis
    unfolding Forwarded by (auto simp: fails_open_def split: if_splits)
qed simp

lemma begin_ok:
  assumes "keeps m0 m"
  shows "control_ok m0 env r (snd (begin_request env m r))"
proof (cases rule: begin_cases [of env m r])
  case (looking m1 rid clientIP source body oversized)
  then have "judged_by m env r (evaluation_input env m r rid clientIP source (protocolType r) body oversized)"
    unfolding judged_by_def by blast
  with looking(1) judged_by_keeps [OF assms] show ?thesis by simp
qed auto

lemma serve_step_ok:
  assumes inv: "shared_inv n d m0 m" and ok: "control_ok m0 env r0 c"
  shows "control_ok m0 env r0 (snd (serve_step env m c))"
proof -
  have k: "keeps m0 m" and cache: "cache_inv (mw_cache m)" using inv by (simp_all add: shared_inv_def)
  show ?thesis
  proof (cases "(env, m, c)" rule: serve_step.cases)
    case (1 e m' r)
    with ok begin_ok [OF k] show ?thesis by simp
  next
    case (2 e m' r response)
    then show ?thesis
      using write_response_outcome [of env m r response] by (auto simp: finish_def)
  next
    case (3 e m' r q)
    with ok cached_is_deny [OF cache] show ?thesis by (auto split: prod.split option.split)
  next
    case (4 e m' r q)
    with ok show ?thesis by (auto split: prod.split)
  next
    case (5 e m' r q)
    with ok answer_keeps [OF k, of env q] show ?thesis by (auto simp: answer_def)
  next
    case (9 e m' r response)
    with ok deciding_ok [OF k] show ?thesis by (simp add: finish_def)
  next
    case (10 e m' r rid kind)
    with ok failing_ok [OF k] show ?thesis by (simp add: finish_def)
  qed (use ok in auto)
qed

section \<open>Reachable states\<close>

definition thread_ok :: "middleware \<Rightarrow> thread \<Rightarrow> bool" where
  "thread_ok m t \<longleftrightarrow> legal_env (th_env t) \<and> control_ok m (th_env t) (th_request t) (th_control t)"

definition sys_inv :: "int \<Rightarrow> duration \<Rightarrow> middleware \<Rightarrow> system \<Rightarrow> bool" where
  "sys_inv n d m0 x \<longleftrightarrow> shared_inv n d m0 (fst x) \<and> list_all (thread_ok m0) (snd x)"

lemma sys_step_inv: "sys_step x y \<Longrightarrow> sys_inv n d m0 x \<Longrightarrow> sys_inv n d m0 y"
proof (induction rule: sys_step.induct)
  case (arrive env m ts r)
  then show ?case by (simp add: sys_inv_def thread_ok_def)
next
  case (advance i ts m m' c)
  let ?t = "ts ! i"
  have t: "thread_ok m0 ?t" and inv: "shared_inv n d m0 m"
    using advance by (auto simp: sys_inv_def list_all_length)
  have "shared_inv n d m0 m'" "thread_ok m0 (?t\<lparr>th_control := c\<rparr>)"
    using serve_step_inv [OF inv, of "th_env ?t" "th_control ?t"]
      serve_step_ok [OF inv, of "th_env ?t" "th_request ?t" "th_control ?t"] t advance(2)
    by (simp_all add: thread_ok_def)
  with advance show ?case
    by (auto simp: sys_inv_def list_all_length nth_list_update)
next
  case (refresh m ts ps)
  then show ?case by (simp add: sys_inv_def)
qed

lemma reachable_inv: "reachable m0 x \<Longrightarrow> sys_inv n d m0 (m0, []) \<Longrightarrow> sys_inv n d m0 x"
  by (induction rule: reachable.induct) (auto intro: sys_step_inv)


section \<open>Properties of every interleaving\<close>

text \<open>
  The shared state stays consistent. However many requests are served concurrently and however
  their steps interleave, the decision cache keeps its invariant and its bound, the breaker keeps
  its own, and the configuration, the policy and the Agent's address never change.
\<close>

lemma concurrent_state_is_consistent:
  assumes "reachable m0 (m, ts)"
    and "mw_cache m0 = newDecisionCache capacity ttl" "mw_breaker m0 = newCircuitBreaker n d"
    and "1 \<le> n" "0 \<le> d" "0 \<le> capacity"
  shows "cache_inv (mw_cache m) \<and> int (length (entries (mw_cache m))) \<le> capacity
     \<and> breaker_inv n d (mw_breaker m)
     \<and> mw_config m = mw_config m0 \<and> mw_agent m = mw_agent m0
     \<and> mw_forwarding m = mw_forwarding m0 \<and> mw_trusted m = mw_trusted m0"
proof -
  have "sys_inv n d m0 (m0, [])"
    using assms(2-5) new_inv new_breaker_inv by (simp add: sys_inv_def shared_inv_def)
  from reachable_inv [OF assms(1) this] have inv: "shared_inv n d m0 m" by (simp add: sys_inv_def)
  then have "int (length (entries (mw_cache m))) \<le> capacity"
    using cache_invD(4) [of "mw_cache m"] assms(2,6) by (simp add: shared_inv_def newDecisionCache_def)
  with inv show ?thesis by (simp add: shared_inv_def keeps_def)
qed

lemma example_reachable:
  "reachable exampleMiddleware
     (exampleMiddleware, [\<lparr>th_env = exampleEnv, th_request = r, th_control = Arrived r\<rparr>])"
proof -
  have "legal_env exampleEnv" by (simp add: legal_env_def exampleEnv_def)
  from reachable.step [OF reachable.start sys_step.arrive [OF this]] show ?thesis by simp
qed

text \<open>
  C1. Only what the Agent allowed is forwarded. When nothing fails open and denies are enforced, a
  request that reaches the application, in any interleaving with others, is the one that came in,
  with its body, and the Agent was asked about this very request and answered \<open>allow\<close> or
  \<open>observe\<close>: no cached decision, failure or race lets a request through.
\<close>

theorem only_allowed_requests_are_forwarded:
  assumes "reachable m0 (m, ts)"
    and "mw_cache m0 = newDecisionCache capacity ttl" "mw_breaker m0 = newCircuitBreaker n d"
    and "1 \<le> n" "0 \<le> d"
    and "\<not> fails_open m0" "\<not> allows_denied m0"
    and "t \<in> set ts" "th_control t = Finished (Forwarded r)"
  shows "r = th_request t \<and> allowed_by_agent m0 (th_env t) r"
proof -
  have "sys_inv n d m0 (m0, [])"
    using assms(2-5) new_inv new_breaker_inv by (simp add: sys_inv_def shared_inv_def)
  from reachable_inv [OF assms(1) this] assms(8) have "thread_ok m0 t"
    by (auto simp: sys_inv_def list_all_iff)
  with assms(6,7,9) show ?thesis by (simp add: thread_ok_def)
qed


text \<open>A request alone in the system: its run is reachable.\<close>

lemma reachable_steps:
  assumes "reachable m0 (m, [\<lparr>th_env = env, th_request = r, th_control = c\<rparr>])"
  shows "reachable m0 (fst (serve_steps k env (m, c)),
    [\<lparr>th_env = env, th_request = r, th_control = snd (serve_steps k env (m, c))\<rparr>])"
  using assms
proof (induction k arbitrary: m c)
  case (Suc k)
  obtain m' c' where s: "serve_step env m c = (m', c')" by fastforce
  have "sys_step (m, [\<lparr>th_env = env, th_request = r, th_control = c\<rparr>])
      (m', [\<lparr>th_env = env, th_request = r, th_control = c'\<rparr>])"
    using sys_step.advance [of 0 "[\<lparr>th_env = env, th_request = r, th_control = c\<rparr>]" m m' c'] s by simp
  from Suc.IH [OF reachable.step [OF Suc.prems this]] s show ?case by simp
qed simp

lemma reachable_serve:
  assumes "legal_env env"
  shows "reachable m0 (fst (serveHTTP env m0 r),
    [\<lparr>th_env = env, th_request = r, th_control = Finished (snd (serveHTTP env m0 r))\<rparr>])"
proof -
  have "reachable m0 (m0, [\<lparr>th_env = env, th_request = r, th_control = Arrived r\<rparr>])"
    using reachable.step [OF reachable.start sys_step.arrive [OF assms]] by simp
  from reachable_steps [OF this, of "Suc (Suc (Suc (Suc (Suc (Suc (Suc 0))))))"]
  show ?thesis unfolding serve_steps_Suc serve_step.simps begin_request_steps by (simp add: finish_def)
qed

definition exampleAllow :: evaluationResponse where
  "exampleAllow = emptyResponse\<lparr>r_decision := ''allow'', r_status := 200, r_requestID := ''r1'',
     r_publicReason := ''ok''\<rparr>"

definition exampleAllowEnv :: serveEnv where
  "exampleAllowEnv = exampleEnv\<lparr>se_network := \<lambda>_. Inr (exampleReply (marshalResponse exampleAllow))\<rparr>"

definition exampleGet :: httpRequest where
  "exampleGet = exampleHttp\<lparr>h_header := [(''X-Request-Id'', [''r1''])]\<rparr>"

lemma example_forwarded: "snd (serveHTTP exampleAllowEnv exampleMiddleware exampleGet) = Forwarded exampleGet"
proof -
  let ?m = exampleMiddleware and ?env = exampleAllowEnv and ?r = exampleGet
  have rid: "normalizedRequestID (se_random ?env) (se_stamp ?env) (header_get (h_header ?r) ''X-Request-ID'') = ''r1''"
  proof -
    have "header_get (h_header ?r) ''X-Request-ID'' = ''r1''" by code_simp
    moreover have "normalizedRequestID random stamp ''r1'' = ''r1''" for random stamp
    proof -
      have "trim_space ''r1'' = ''r1''" by code_simp
      then show ?thesis by (simp add: normalizedRequestID_def contains_any_def)
    qed
    ultimately show ?thesis by simp
  qed
  have p: "\<not> has_prefix (h_path ?r) (ch_pathPrefix (challengeC (mw_config ?m)) @ ''/'')"
    by (simp add: exampleGet_def exampleHttp_def exampleMiddleware_def createConfig_def)
  have v: "validInboundMetadata ?r" "parseRemoteIP (h_remoteAddr ?r) = Inr [10, 0, 0, 1]" by code_simp+
  have b: "snd (captureRequestBody ?r config protocol) = Inr ([], False)" for config protocol
    by (simp add: captureRequestBody_def exampleGet_def exampleHttp_def)
  obtain m1 q logAt where s: "begin_request ?env ?m ?r = (m1, Looking ?r q)" "q_requestID q = ''r1''"
      "m1 = ?m\<lparr>mw_clientIPLogAt := logAt\<rparr>"
    by (rule begin_looking [OF p v b, of ?env]) (auto simp: rid evaluation_input_def split: prod.splits)
  have k: "keeps ?m m1" using s(3) by (simp add: keeps_def)
  have e: "validateEvaluationResponse ''r1'' exampleAllow = None" "encodable exampleAllow"
    "int (length (marshalResponse exampleAllow)) \<le> maximumAgentResponseBytes" by code_simp+
  have "rp_status (exampleReply (marshalResponse exampleAllow)) = 200" by (simp add: exampleReply_def)
  then have a: "answer m1 ?env q = Inr exampleAllow"
    using response_well_formed [OF e(2,3)] e(1) s(2,3) exampleClient_ready(1)
    by (auto simp: answer_def evaluate_call.success_iff exampleMiddleware_def exampleAllowEnv_def)
  have l: "looked_up ?env m1 q = (mw_cache m1, None)"
    using s(3) by (simp add: looked_up_def exampleMiddleware_def)
  have "breaker_allow (mw_breaker m1) (se_now ?env) = (mw_breaker m1, True)"
    using s(3) by (simp add: breaker_allow_def exampleMiddleware_def newCircuitBreaker_def)
  from ask_answered [OF l this a, of ?r]
  have "snd (ask_agent ?env m1 ?r q) = Forwarded ?r"
    by (simp add: exampleAllow_def handleDecision_def)
  with serve_from_begin [OF s(1)] show ?thesis by simp
qed

theorem only_allowed_requests_are_forwarded_witness:
  "allowed_by_agent exampleMiddleware exampleAllowEnv exampleGet"
proof -
  have e: "legal_env exampleAllowEnv"
    by (simp add: legal_env_def exampleAllowEnv_def exampleEnv_def)
  have c: "mw_cache exampleMiddleware = newDecisionCache 4 1000000000"
    "mw_breaker exampleMiddleware = newCircuitBreaker 3 5000000000"
    "\<not> fails_open exampleMiddleware" "\<not> allows_denied exampleMiddleware"
    by (simp_all add: exampleMiddleware_def fails_open_def allows_denied_def)
  let ?t = "\<lparr>th_env = exampleAllowEnv, th_request = exampleGet,
      th_control = Finished (Forwarded exampleGet)\<rparr>"
  have r: "reachable exampleMiddleware (fst (serveHTTP exampleAllowEnv exampleMiddleware exampleGet), [?t])"
    using reachable_serve [OF e] unfolding example_forwarded [symmetric] .
  have "exampleGet = th_request ?t \<and> allowed_by_agent exampleMiddleware (th_env ?t) exampleGet"
    by (rule only_allowed_requests_are_forwarded [OF r c(1,2) _ _ c(3,4)]) simp_all
  then show ?thesis by simp
qed

section \<open>Every request ends\<close>

fun control_rank :: "control \<Rightarrow> nat" where
  "control_rank (Arrived r) = 7"
| "control_rank (Looking r q) = 6"
| "control_rank (Asking r q) = 5"
| "control_rank (Calling r q) = 4"
| "control_rank (Returned r q res) = 3"
| "control_rank (Storing r q response) = 2"
| "control_rank (Deciding r response) = 1"
| "control_rank (Refusing r response) = 1"
| "control_rank (Failing r requestID kind) = 1"
| "control_rank (Finished out) = 0"

lemma begin_rank: "control_rank (snd (begin_request env m r)) \<le> 6"
  by (cases rule: begin_cases [of env m r]) simp_all

lemma step_rank: "control_rank (snd (serve_step env m c)) \<le> control_rank c - 1"
  using begin_rank
  by (cases "(env, m, c)" rule: serve_step.cases) (auto simp: finish_def split: prod.split option.split)

text \<open>
  Every request ends. Whatever the other requests do to the shared state between its steps, a
  request has been forwarded or answered after seven steps of its own.
\<close>

lemma every_request_ends:
  "length ms = 7 \<Longrightarrow> \<exists>out. fold (\<lambda>m c. snd (serve_step env m c)) ms (Arrived request) = Finished out"
proof -
  assume len: "length ms = 7"
  have "control_rank (fold (\<lambda>m c. snd (serve_step env m c)) ms c) \<le> control_rank c - length ms" for c
  proof (induction ms arbitrary: c)
    case (Cons m ms)
    from Cons [of "snd (serve_step env m c)"] step_rank [of env m c] show ?case by simp
  qed simp
  from this [of "Arrived request"] len
  have "control_rank (fold (\<lambda>m c. snd (serve_step env m c)) ms (Arrived request)) = 0" by simp
  then show "\<exists>out. fold (\<lambda>m c. snd (serve_step env m c)) ms (Arrived request) = Finished out"
    by (cases "fold (\<lambda>m c. snd (serve_step env m c)) ms (Arrived request)") auto
qed

lemma every_request_ends_witness:
  "\<exists>out. fold (\<lambda>m c. snd (serve_step exampleEnv m c)) (replicate 7 exampleMiddleware) (Arrived exampleHttp)
     = Finished out"
  by (rule every_request_ends) simp

end
