(* ===== verification/GoTime.thy ===== *)
theory GoTime
  imports GoNet GoFloat
begin

text \<open>
  \<open>time.Duration.String\<close> and \<open>time.ParseDuration\<close>, with its \<open>uint64\<close> overflow checks and its float64 arithmetic for
  fractions. A positive float64 is a pair of a numerator and a denominator; the exponent is not
  bounded, as values beyond its range end up as the fraction 0 here too. An error is \<open>None\<close>.
\<close>

section \<open>Float64 arithmetic\<close>

type_synonym float64 = "int \<times> int"

function places_up :: "int \<Rightarrow> int \<Rightarrow> nat \<Rightarrow> nat" where
  "places_up n d k = (if n \<le> 0 \<or> d \<le> 0 \<or> d * 2 ^ 52 \<le> n * 2 ^ k then k else places_up n d (Suc k))"
  by pat_completeness auto
termination
proof (relation "measure (\<lambda>(n, d, k). nat (d * 2 ^ 52 - n * 2 ^ k))", goal_cases)
  case (2 n d k)
  have "n * 2 ^ k < n * 2 ^ Suc k" using 2 by simp
  with 2 show ?case by simp
qed simp

function places_down :: "int \<Rightarrow> int \<Rightarrow> nat \<Rightarrow> nat" where
  "places_down n d k = (if n \<le> 0 \<or> d \<le> 0 \<or> n < d * 2 ^ 53 * 2 ^ k then k else places_down n d (Suc k))"
  by pat_completeness auto
termination
proof (relation "measure (\<lambda>(n, d, k). nat (n + 1 - d * 2 ^ 53 * 2 ^ k))", goal_cases)
  case (2 n d k)
  have "d * 2 ^ 53 * 2 ^ k < d * 2 ^ 53 * 2 ^ Suc k" using 2 by simp
  with 2 show ?case by simp
qed simp

declare places_up.simps [simp del] places_down.simps [simp del]

text \<open>\<open>n / d\<close> rounded to 53 bits, for \<open>0 \<le> n\<close> and \<open>0 < d\<close>.\<close>

definition float_of :: "int \<Rightarrow> int \<Rightarrow> float64" where
  "float_of n d =
     (if n = 0 then (0, 1)
      else if d * 2 ^ 52 \<le> n
      then (let k = places_down n d 0 in (round_half_even n (d * 2 ^ k) * 2 ^ k, 1))
      else (let k = places_up n d 0 in (round_half_even (n * 2 ^ k) d, 2 ^ k)))"

definition float_mul :: "float64 \<Rightarrow> float64 \<Rightarrow> float64" where
  "float_mul x y = float_of (fst x * fst y) (snd x * snd y)"

definition float_div :: "float64 \<Rightarrow> float64 \<Rightarrow> float64" where
  "float_div x y = float_of (fst x * snd y) (snd x * fst y)"

definition float_trunc :: "float64 \<Rightarrow> int" where
  "float_trunc x = fst x div snd x"

section \<open>Parsing\<close>

fun leading_int :: "int \<Rightarrow> string \<Rightarrow> (int \<times> string) option" where
  "leading_int x [] = Some (x, [])"
| "leading_int x (c # s) =
     (if \<not> is_digit c then Some (x, c # s)
      else if 2 ^ 63 div 10 < x then None
      else if 2 ^ 63 < x * 10 + int (digit_value c) then None
      else leading_int (x * 10 + int (digit_value c)) s)"

text \<open>The digits of a fraction, its scale, and the rest; further digits are skipped after an overflow.\<close>

fun leading_fraction :: "int \<Rightarrow> float64 \<Rightarrow> bool \<Rightarrow> string \<Rightarrow> int \<times> float64 \<times> string" where
  "leading_fraction x scale overflow [] = (x, scale, [])"
| "leading_fraction x scale overflow (c # s) =
     (if \<not> is_digit c then (x, scale, c # s)
      else if overflow then leading_fraction x scale overflow s
      else if (2 ^ 63 - 1) div 10 < x then leading_fraction x scale True s
      else if 2 ^ 63 < x * 10 + int (digit_value c) then leading_fraction x scale True s
      else leading_fraction (x * 10 + int (digit_value c)) (float_mul scale (10, 1)) False s)"

definition duration_unit :: "string \<Rightarrow> int option" where
  "duration_unit u =
     (if u = ''ns'' then Some 1
      else if u \<in> {''us'', [CHR 0xC2, CHR 0xB5, CHR ''s''], [CHR 0xCE, CHR 0xBC, CHR ''s'']} then Some 1000
      else if u = ''ms'' then Some 1000000
      else if u = ''s'' then Some 1000000000
      else if u = ''m'' then Some 60000000000
      else if u = ''h'' then Some 3600000000000
      else None)"

definition unit_char :: "char \<Rightarrow> bool" where
  "unit_char c \<longleftrightarrow> \<not> (c = CHR ''.'' \<or> is_digit c)"

text \<open>The optional fraction: its digits, its scale, the rest, and whether there was a digit.\<close>

definition fraction_part :: "string \<Rightarrow> int \<times> float64 \<times> string \<times> bool" where
  "fraction_part s =
     (case s of
        [] \<Rightarrow> (0, (1, 1), [], False)
      | c # t \<Rightarrow>
          if c = CHR ''.''
          then (case leading_fraction 0 (1, 1) False t of (f, scale, rest) \<Rightarrow>
                  (f, scale, rest, length rest \<noteq> length t))
          else (0, (1, 1), s, False))"

text \<open>One number with its unit: its nanoseconds and the rest.\<close>

definition duration_term :: "string \<Rightarrow> (int \<times> string) option" where
  "duration_term s =
     (if s = [] \<or> \<not> (hd s = CHR ''.'' \<or> is_digit (hd s)) then None
      else case leading_int 0 s of None \<Rightarrow> None
      | Some (v, s1) \<Rightarrow>
          (case fraction_part s1 of (f, scale, s2, post) \<Rightarrow>
             if \<not> length s1 \<noteq> length s \<and> \<not> post then None
             else let u = takeWhile unit_char s2; rest = dropWhile unit_char s2 in
               if u = [] then None
               else case duration_unit u of None \<Rightarrow> None
               | Some unit \<Rightarrow>
                   if 2 ^ 63 div unit < v then None
                   else if 0 < f
                   then (let w = v * unit + float_trunc (float_mul (float_of f 1)
                                   (float_div (unit, 1) scale))
                         in if 2 ^ 63 < w then None else Some (w, rest))
                   else Some (v * unit, rest)))"

lemma leading_int_length: "leading_int x s = Some (v, r) \<Longrightarrow> length r \<le> length s"
  by (induction x s rule: leading_int.induct) (auto split: if_splits)

lemma leading_fraction_length: "leading_fraction x sc b s = (f, sc', r) \<Longrightarrow> length r \<le> length s"
  by (induction x sc b s rule: leading_fraction.induct) (auto split: if_splits)

lemma duration_term_length:
  assumes "duration_term s = Some (v, rest)"
  shows "length rest < length s"
proof -
  obtain v1 s1 where l: "leading_int 0 s = Some (v1, s1)"
    using assms by (auto simp: duration_term_def split: if_splits option.splits)
  obtain f scale s2 post where p: "fraction_part s1 = (f, scale, s2, post)" by (metis prod_cases4)
  have "length s2 \<le> length s1"
    using p leading_fraction_length
    by (auto simp: fraction_part_def split: list.splits if_splits prod.splits) (meson le_SucI)
  moreover have "rest = dropWhile unit_char s2" "takeWhile unit_char s2 \<noteq> []"
    using assms l p by (auto simp: duration_term_def Let_def split: if_splits option.splits)
  moreover from this have "length rest < length s2"
    by (metis append_Nil length_append less_add_same_cancel2 length_greater_0_conv takeWhile_dropWhile_id)
  ultimately show ?thesis using leading_int_length [OF l] by linarith
qed

text \<open>The sum of the terms, in \<open>uint64\<close>.\<close>

function duration_terms :: "int \<Rightarrow> string \<Rightarrow> int option" where
  "duration_terms d s =
     (if s = [] then Some d
      else case duration_term s of None \<Rightarrow> None
      | Some (v, rest) \<Rightarrow>
          if 2 ^ 63 < (d + v) mod 2 ^ 64 then None else duration_terms ((d + v) mod 2 ^ 64) rest)"
  by pat_completeness auto
termination
  by (relation "measure (\<lambda>(d, s). length s)") (auto dest: duration_term_length)

declare duration_terms.simps [simp del]

definition parse_duration :: "string \<Rightarrow> duration option" where
  "parse_duration orig =
     (let neg = (orig \<noteq> [] \<and> hd orig = CHR ''-'');
          s = (if orig \<noteq> [] \<and> (hd orig = CHR ''-'' \<or> hd orig = CHR ''+'') then tl orig else orig)
      in if s = ''0'' then Some 0
         else if s = [] then None
         else case duration_terms 0 s of None \<Rightarrow> None
         | Some d \<Rightarrow>
             if neg then Some (- d) else if 2 ^ 63 - 1 < d then None else Some d)"


section \<open>The text of a duration\<close>

text \<open>\<open>fmtFrac\<close>: the last \<open>prec\<close> digits behind a point, without trailing zeros.\<close>

fun last_digits :: "nat \<Rightarrow> int \<Rightarrow> string" where
  "last_digits 0 v = []"
| "last_digits (Suc prec) v = last_digits prec (v div 10) @ [digit_char (nat (v mod 10))]"

definition fmt_frac :: "nat \<Rightarrow> int \<Rightarrow> string" where
  "fmt_frac prec v =
     (let digits = rev (dropWhile (\<lambda>c. c = CHR ''0'') (rev (last_digits prec v))) in
      if digits = [] then [] else CHR ''.'' # digits)"

definition duration_string :: "duration \<Rightarrow> string" where
  "duration_string d =
     (let u = \<bar>d\<bar>;
          text0 =
            (if u = 0 then ''0s''
             else if u < 1000 then dec_of_int u @ ''ns''
             else if u < millisecond then dec_of_int (u div 1000) @ fmt_frac 3 u @ [CHR 0xC2, CHR 0xB5, CHR ''s'']
             else if u < second then dec_of_int (u div millisecond) @ fmt_frac 6 u @ ''ms''
             else let seconds = u div second; minutes = seconds div 60; hours = minutes div 60 in
               (if hours = 0 then [] else dec_of_int hours @ ''h'')
               @ (if minutes = 0 then [] else dec_of_int (minutes mod 60) @ ''m'')
               @ dec_of_int (seconds mod 60) @ fmt_frac 9 u @ ''s'')
      in if d < 0 then CHR ''-'' # text0 else text0)"

lemma duration_texts:
  "duration_string (100 * millisecond) = ''100ms''" "duration_string (2 * second) = ''2s''"
  "duration_string (24 * hour) = ''24h0m0s''" "duration_string (- (90500 * millisecond)) = ''-1m30.5s''"
  "duration_string 1 = ''1ns''" "duration_string 0 = ''0s''"
  by code_simp+

section \<open>Whole numbers of a unit\<close>

lemma digit_char_digit: "n < 10 \<Longrightarrow> is_digit (digit_char n) \<and> digit_value (digit_char n) = n"
proof -
  have "list_all (\<lambda>n. is_digit (digit_char n) \<and> digit_value (digit_char n) = n) [0..<10]" by code_simp
  then show "n < 10 \<Longrightarrow> is_digit (digit_char n) \<and> digit_value (digit_char n) = n" by (simp add: list_all_iff)
qed

lemma leading_int_append:
  "list_all is_digit w \<Longrightarrow> leading_int x (w @ s) = (case leading_int x w of None \<Rightarrow> None | Some (v, _) \<Rightarrow> leading_int v s)"
  by (induction x w rule: leading_int.induct) auto

lemma leading_int_dec: "int n \<le> 2 ^ 63 \<Longrightarrow> leading_int 0 (dec_of_nat n) = Some (int n, [])"
proof (induction n rule: dec_of_nat.induct)
  case (1 n)
  show ?case
  proof (cases "n < 10")
    case True
    then show ?thesis using digit_char_digit [of n] by (subst dec_of_nat.simps) simp
  next
    case False
    then have "leading_int 0 (dec_of_nat (n div 10)) = Some (int n div 10, [])"
      using 1 by (simp add: zdiv_int)
    moreover have "is_digit (digit_char (n mod 10))" "digit_value (digit_char (n mod 10)) = n mod 10"
      using digit_char_digit [of "n mod 10"] by simp_all
    moreover have "int n div 10 \<le> 2 ^ 63 div 10" using 1(2) by (rule zdiv_mono1) simp
    moreover have "int n div 10 * 10 + int (n mod 10) = int n" by (simp add: zmod_int)
    ultimately show ?thesis
      using False 1(2) leading_int_append [OF dec_of_nat_digits, of 0 "n div 10" "[digit_char (n mod 10)]"]
      by (subst dec_of_nat.simps) simp
  qed
qed

lemma leading_int_unit: "u \<noteq> [] \<Longrightarrow> list_all unit_char u \<Longrightarrow> leading_int x u = Some (x, u)"
  by (cases u) (auto simp: unit_char_def)

lemma duration_unit_chars:
  "duration_unit u = Some k \<Longrightarrow> u \<noteq> [] \<and> list_all unit_char u \<and> 0 < k"
  by (auto simp: duration_unit_def unit_char_def is_digit_def split: if_splits)

lemma duration_term_whole:
  assumes "duration_unit u = Some k" "int n * k \<le> 2 ^ 63"
  shows "duration_term (dec_of_nat n @ u) = Some (int n * k, [])"
proof -
  note u = duration_unit_chars [OF assms(1)]
  have "int n * 1 \<le> int n * k" using u by (intro mult_left_mono) simp_all
  then have n: "int n \<le> 2 ^ 63" using assms(2) by simp
  have ne: "dec_of_nat n \<noteq> []" by (subst dec_of_nat.simps) simp
  have "leading_int 0 (dec_of_nat n @ u) = Some (int n, u)"
    using leading_int_append [OF dec_of_nat_digits, of 0 n u] leading_int_dec [OF n] leading_int_unit u by simp
  moreover have "is_digit (hd (dec_of_nat n @ u))"
    using dec_of_nat_digits [of n] ne by (cases "dec_of_nat n") auto
  moreover have "fraction_part u = (0, (1, 1), u, False)"
    using u by (cases u) (auto simp: fraction_part_def unit_char_def)
  moreover have tw: "takeWhile unit_char u = u" "dropWhile unit_char u = []"
    using u unfolding takeWhile_eq_all_conv dropWhile_eq_Nil_conv list_all_iff by blast+
  moreover have "int n = int n * k div k" using u by simp
  then have "\<not> 2 ^ 63 div k < int n" using zdiv_mono1 [OF assms(2), of k] u by linarith
  ultimately show ?thesis
    using assms(1) u ne by (simp add: duration_term_def Let_def tw del: takeWhile_eq_all_conv)
qed

text \<open>A decimal number with a unit is that many nanoseconds.\<close>

lemma parse_duration_whole:
  assumes "duration_unit u = Some k" "int n * k < 2 ^ 63"
  shows "parse_duration (dec_of_nat n @ u) = Some (int n * k)"
proof -
  note u = duration_unit_chars [OF assms(1)]
  let ?s = "dec_of_nat n @ u"
  have ne: "dec_of_nat n \<noteq> []" by (subst dec_of_nat.simps) simp
  obtain c cs where c: "dec_of_nat n = c # cs" "is_digit c"
    using dec_of_nat_digits [of n] ne by (cases "dec_of_nat n") auto
  have sign: "c \<noteq> CHR ''-''" "c \<noteq> CHR ''+''" using c(2) by (auto simp: is_digit_def)
  have zero: "?s \<noteq> ''0''" using u c(1) by (cases cs) auto
  have t: "duration_term ?s = Some (int n * k, [])" using assms by (intro duration_term_whole) simp_all
  have "0 \<le> int n * k" using u by simp
  then have "duration_terms 0 ?s = duration_terms (int n * k) []"
    using ne assms(2) by (subst duration_terms.simps) (simp add: t)
  then have "duration_terms 0 ?s = Some (int n * k)" by (simp add: duration_terms.simps)
  then show ?thesis
    using c(1) assms(2) sign zero ne u unfolding parse_duration_def Let_def by simp
qed

end
