(* ===== verification/Setup.thy ===== *)
theory Setup
  imports Concurrency GoTime
begin

text \<open>
  Building the middleware (\<open>plugin.go\<close>): checking a configuration, the Agent's endpoint and the token
  file, the Agent client (\<open>newAgentClient\<close> of \<open>agent.go\<close>), and \<open>New\<close>.

  The problems of a configuration are the texts the code joins into its error. The environment: the file system of the token
  file and the order in which small literal maps are ranged over.
\<close>

section \<open>The Agent's endpoint and token\<close>

text \<open>The error, or \<open>None\<close> where the endpoint is accepted.\<close>

definition validateAgentEndpoint :: "string \<Rightarrow> string option" where
  "validateAgentEndpoint v =
     (case url_parse v of
        None \<Rightarrow> Some ''agent.endpoint is invalid''
      | Some parsed \<Rightarrow>
          if u_scheme parsed = ''unix'' then
            (if u_host parsed \<noteq> [] \<or> \<not> is_abs (u_path parsed) \<or> u_rawQuery parsed \<noteq> []
                \<or> u_fragment parsed \<noteq> []
             then Some ''agent.endpoint Unix socket must be an absolute unix:/// path'' else None)
          else if u_scheme parsed \<noteq> ''http'' \<and> u_scheme parsed \<noteq> ''https''
          then Some ''agent.endpoint must use http, https, or unix''
          else if u_user parsed \<or> u_host parsed = [] \<or> (u_path parsed \<noteq> [] \<and> u_path parsed \<noteq> ''/'')
             \<or> u_rawQuery parsed \<noteq> [] \<or> u_fragment parsed \<noteq> []
          then Some ''agent.endpoint must contain only a local origin''
          else let host = url_hostname parsed in
            case parse_ip host of
              Some ip \<Rightarrow>
                if \<not> localAgentIP ip
                then Some ''agent.endpoint IP must be local, private, or link-local'' else None
            | None \<Rightarrow>
                if host \<noteq> ''localhost'' \<and> contains_char host CHR ''.''
                then Some ''agent.endpoint DNS name must be localhost or a single-label private service name''
                else None)"

text \<open>What \<open>os.Stat\<close> tells of the token file: whether it is regular, its permissions, its size.\<close>

record tokenFiles =
  tf_stat :: "string \<Rightarrow> (bool \<times> int \<times> int) option"
  tf_read :: "string \<Rightarrow> string option"

datatype tokenError = TokenMetadata | TokenNotPrivate | TokenFileSize | TokenUnreadable | TokenText

definition readTokenFile :: "tokenFiles \<Rightarrow> string \<Rightarrow> tokenError + string" where
  "readTokenFile files path =
     (case tf_stat files path of
        None \<Rightarrow> Inl TokenMetadata
      | Some (regular, perm, bytes) \<Rightarrow>
          if \<not> regular \<or> perm mod 8 \<noteq> 0 then Inl TokenNotPrivate
          else if bytes < 32 \<or> 1025 < bytes then Inl TokenFileSize
          else case tf_read files path of
            None \<Rightarrow> Inl TokenUnreadable
          | Some data \<Rightarrow>
              let token = trim_space data in
              if length token < 32 \<or> 1024 < int (length token)
                 \<or> contains_any token [CHR 0x0D, CHR 0x0A]
              then Inl TokenText else Inr token)"

section \<open>The Agent client\<close>

text \<open>How the client connects: to a local address over TCP, or to a Unix socket.\<close>

datatype agentDial = DialLocal | DialSocket string

record agentTransport =
  tp_dial :: agentDial
  tp_http2 :: bool
  tp_connectTimeout :: duration

definition newAgentClient ::
    "string \<Rightarrow> string \<Rightarrow> duration \<Rightarrow> duration \<Rightarrow> duration \<Rightarrow> (agentClient \<times> agentTransport) option" where
  "newAgentClient endpoint token connectTimeout requestTimeout challengeTimeout =
     (case url_parse endpoint of
        None \<Rightarrow> None
      | Some parsed \<Rightarrow>
          let unix = (u_scheme parsed = ''unix'');
              base = (if unix then ''http://sokol-edge-agent'' else trim_suffix endpoint ''/'')
          in Some
            (\<lparr>agc_evaluateURL = base @ ''/v1/evaluate'',
              agc_challengeCreateURL = base @ ''/v1/challenge/create'',
              agc_challengeVerifyURL = base @ ''/v1/challenge/verify'',
              agc_token = token, agc_timeout = requestTimeout, agc_challengeTimeout = challengeTimeout\<rparr>,
             \<lparr>tp_dial = (if unix then DialSocket (path_clean (u_path parsed)) else DialLocal),
              tp_http2 = \<not> unix, tp_connectTimeout = connectTimeout\<rparr>))"


section \<open>The configuration\<close>

record runtimeConfig =
  rt_connectTimeout :: duration
  rt_requestTimeout :: duration
  rt_challengeTimeout :: duration
  rt_reloadInterval :: duration
  rt_maximumCacheTTL :: duration
  rt_openDuration :: duration
  rt_trusted :: "ipNet list"
  rt_responseRoot :: string

type_synonym problem = string

text \<open>\<open>parseDuration\<close> and \<open>parseNetworks\<close>: the value and the problems it adds.\<close>

definition out_of_range :: "string \<Rightarrow> duration \<Rightarrow> duration \<Rightarrow> problem" where
  "out_of_range name minimum maximum =
     name @ '' must be between '' @ duration_string minimum @ '' and '' @ duration_string maximum"

definition duration_problem :: "string \<Rightarrow> string \<Rightarrow> duration \<Rightarrow> duration \<Rightarrow> duration \<times> problem list" where
  "duration_problem name v minimum maximum =
     (case parse_duration v of
        None \<Rightarrow> (0, [out_of_range name minimum maximum])
      | Some parsed \<Rightarrow>
          if parsed < minimum \<or> maximum < parsed then (0, [out_of_range name minimum maximum])
          else (parsed, []))"

definition parse_networks :: "string \<Rightarrow> string list \<Rightarrow> ipNet list \<times> problem list" where
  "parse_networks name values0 =
     (List.map_filter (\<lambda>v. map_option snd (parse_cidr (trim_space v))) values0,
      map (\<lambda>v. name @ '' contains an invalid CIDR'')
        (filter (\<lambda>v. parse_cidr (trim_space v) = None) values0)
      @ (if 128 < length values0 then [name @ '' must not exceed 128 CIDRs''] else []))"

definition check :: "bool \<Rightarrow> string \<Rightarrow> problem list" where
  "check bad message = (if bad then [message] else [])"

text \<open>One problem for each named value that is bad, in the order of the map.\<close>

definition check_map :: "range_order \<Rightarrow> string gomap \<Rightarrow> (string \<Rightarrow> bool) \<Rightarrow> string \<Rightarrow> problem list" where
  "check_map ord m bad message =
     concat (map (\<lambda>name. check (case map_of m name of Some v \<Rightarrow> bad v | None \<Rightarrow> False) (name @ message))
       (ord (keys m)))"

definition check_all :: "string list \<Rightarrow> (string \<Rightarrow> bool) \<Rightarrow> string \<Rightarrow> problem list" where
  "check_all vs bad message = concat (map (\<lambda>v. check (bad v) message) vs)"

definition duration_checks :: "config \<Rightarrow> runtimeConfig \<times> problem list" where
  "duration_checks config =
     (case duration_problem ''agent.connectTimeout'' (ac_connectTimeout (agentC config)) millisecond second of
        (connect, p1) \<Rightarrow>
      case duration_problem ''agent.requestTimeout'' (ac_requestTimeout (agentC config)) millisecond
          maximumAgentTimeout of (request, p2) \<Rightarrow>
      case duration_problem ''challenge.requestTimeout'' (ch_requestTimeout (challengeC config)) millisecond
          maximumChallengeTimeout of (challenge, p3) \<Rightarrow>
      case duration_problem ''responses.reloadInterval'' (rs_reloadInterval (responsesC config)) second hour of
        (reload, p4) \<Rightarrow>
      case duration_problem ''cache.maximumTTL'' (cc_maximumTTL (cacheC config)) 0 maximumCacheTTL of
        (ttl, p5) \<Rightarrow>
      case duration_problem ''circuitBreaker.openDuration'' (cb_openDuration (circuitBreakerC config))
          (100 * millisecond) minute of (open, p6) \<Rightarrow>
        (\<lparr>rt_connectTimeout = connect, rt_requestTimeout = request, rt_challengeTimeout = challenge,
          rt_reloadInterval = reload, rt_maximumCacheTTL = ttl, rt_openDuration = open,
          rt_trusted = [], rt_responseRoot = []\<rparr>,
         p1 @ p2 @ p3
         @ check (0 < request \<and> request < connect) ''agent.connectTimeout must not exceed agent.requestTimeout''
         @ check (0 < challenge \<and> challenge < connect)
             ''agent.connectTimeout must not exceed challenge.requestTimeout''
         @ p4 @ p5 @ p6))"

definition agent_checks :: "range_order \<Rightarrow> config \<Rightarrow> problem list" where
  "agent_checks ord config =
     (case validateAgentEndpoint (ac_endpoint (agentC config)) of None \<Rightarrow> [] | Some e \<Rightarrow> [e])
     @ check (\<not> is_abs (ac_tokenFile (agentC config))) ''agent.tokenFile must be absolute''
     @ check_map ord [(''failureMode.agentUnavailable'', fm_agentUnavailable (failureMode config)),
           (''failureMode.malformedResponse'', fm_malformedResponse (failureMode config))]
         (\<lambda>v. v \<noteq> ''allow'' \<and> v \<noteq> ''deny'') '' must be allow or deny''
     @ check (fm_explicitLocalDeny (failureMode config) \<noteq> ''allow''
           \<and> fm_explicitLocalDeny (failureMode config) \<noteq> ''deny'')
         ''failureMode.explicitLocalDeny must be allow or deny''"

definition clientIP_checks :: "config \<Rightarrow> problem list" where
  "clientIP_checks config =
     check (ci_strategy (clientIPC config) \<notin> {''direct'', ''forwarded'', ''cloudflare'', ''bunny''})
       ''clientIP.strategy must be direct, forwarded, cloudflare, or bunny''
     @ check (\<not> validHeaderName (ci_cloudflareHeader (clientIPC config))
          \<or> \<not> validHeaderName (ci_bunnyHeader (clientIPC config)))
         ''client IP provider headers must be valid HTTP header names''"

definition body_checks :: "config \<Rightarrow> problem list" where
  "body_checks config =
     (let b = requestBodyC config in
      check (rb_maximumBytes b < 1 \<or> maximumBodyBytes < rb_maximumBytes b)
        ''requestBody.maximumBytes must be between 1 byte and 1 MiB''
      @ check (rb_oversizeAction b \<noteq> ''headers_only'' \<and> rb_oversizeAction b \<noteq> ''reject'')
          ''requestBody.oversizeAction must be headers_only or reject''
      @ check_all (rb_contentTypes b) (\<lambda>v. \<not> validContentTypePattern v)
          ''requestBody.contentTypes contains an invalid media type''
      @ check (32 < length (rb_contentTypes b)) ''requestBody.contentTypes must not exceed 32 entries''
      @ check_all (rb_bypassPathPrefix b) (\<lambda>v. \<not> validPathPrefix v)
          ''requestBody.bypassPathPrefixes contains an invalid path prefix''
      @ check (32 < length (rb_bypassPathPrefix b))
          ''requestBody.bypassPathPrefixes must not exceed 32 entries'')"

definition request_checks :: "range_order \<Rightarrow> config \<Rightarrow> problem list" where
  "request_checks ord config =
     (let r = requestC config in
      check_map ord [(''request.headerMode'', rq_headerMode r), (''request.cookieMode'', rq_cookieMode r)]
        (\<lambda>v. v \<noteq> forwardAll \<and> v \<noteq> forwardAllowlist) '' must be all or allowlist''
      @ check_all (rq_headers r)
          (\<lambda>h. \<not> validHeaderName h \<or> maximumForwardedNameBytes < int (length h) \<or> cookieRequestHeader h)
          ''request.headers contains an invalid header or Cookie; select cookies with request.cookies''
      @ check (64 < length (rq_headers r)) ''request.headers must not exceed 64 entries''
      @ check_all (rq_cookies r) (\<lambda>c. \<not> validCookieName c) ''request.cookies contains an invalid cookie name''
      @ check (64 < length (rq_cookies r)) ''request.cookies must not exceed 64 entries'')"

definition response_root :: "config \<Rightarrow> string" where
  "response_root config =
     (if is_abs (rs_root (responsesC config)) then path_clean (path_clean (rs_root (responsesC config))) else [])"

definition response_checks :: "range_order \<Rightarrow> config \<Rightarrow> problem list" where
  "response_checks ord config =
     (let r = responsesC config in
      check (\<not> is_abs (rs_root r)) ''responses.root must be an absolute path''
      @ check_map ord [(''responses.blockFile'', rs_blockFile r), (''responses.challengeFile'', rs_challengeFile r),
            (''responses.rateLimitFile'', rs_rateLimitFile r), (''responses.unavailableFile'', rs_unavailableFile r)]
          (\<lambda>v. \<not> validateRelativePagePath (response_root config) v) '' must remain inside responses.root''
      @ check (rs_maximumFileBytes r < 1 \<or> 4194304 < rs_maximumFileBytes r)
          ''responses.maximumFileBytes must be between 1 byte and 4 MiB''
      @ check (rs_defaultFormat r \<noteq> ''html'' \<and> rs_defaultFormat r \<noteq> ''json'')
          ''responses.defaultFormat must be html or json'')"

definition limit_checks :: "config \<Rightarrow> problem list" where
  "limit_checks config =
     check (cc_maximumEntries (cacheC config) < 0 \<or> 10000 < cc_maximumEntries (cacheC config))
       ''cache.maximumEntries must be between 0 and 10000''
     @ check (cb_failureThreshold (circuitBreakerC config) < 1 \<or> 100 < cb_failureThreshold (circuitBreakerC config))
         ''circuitBreaker.failureThreshold must be between 1 and 100''
     @ check (\<not> validPathPrefix (ch_pathPrefix (challengeC config)) \<or> ch_pathPrefix (challengeC config) = ''/''
          \<or> has_suffix (ch_pathPrefix (challengeC config)) ''/'')
         ''challenge.pathPrefix must be a non-root normalized path without a trailing slash''
     @ check (ch_maximumBodyBytes (challengeC config) < 1024 \<or> 262144 < ch_maximumBodyBytes (challengeC config))
         ''challenge.maximumBodyBytes must be between 1 KiB and 256 KiB''
     @ check (128 < length (resourceHint config)) ''resourceHint must not exceed 128 characters''"

definition validateConfig :: "range_order \<Rightarrow> config \<Rightarrow> string + runtimeConfig" where
  "validateConfig ord config =
     (case duration_checks config of (runtime, durations) \<Rightarrow>
        case parse_networks ''trustedProxies'' (trustedProxies config) of (trusted, networks) \<Rightarrow>
          let problems = durations @ agent_checks ord config @ clientIP_checks config @ networks
                @ body_checks config @ request_checks ord config @ response_checks ord config
                @ limit_checks config
          in if problems \<noteq> [] then Inl (join problems ''; '')
             else Inr (runtime\<lparr>rt_trusted := trusted, rt_responseRoot := response_root config\<rparr>))"

section \<open>New\<close>

datatype newError = NextMissing | ConfigMissing | ConfigInvalid string | TokenInvalid tokenError
  | ClientInvalid

text \<open>
  \<open>next\<close> is only compared with \<open>nil\<close>: \<open>has_next\<close> says whether it is there. The provider store is
  the one all middlewares of the process share.
\<close>

definition newMiddleware ::
    "range_order \<Rightarrow> tokenFiles \<Rightarrow> providerRangeStore \<Rightarrow> bool \<Rightarrow> config option
       \<Rightarrow> newError + middleware \<times> agentTransport" where
  "newMiddleware ord files providers has_next config =
     (if \<not> has_next then Inl NextMissing
      else case config of None \<Rightarrow> Inl ConfigMissing
      | Some c \<Rightarrow>
        (case validateConfig ord c of Inl e \<Rightarrow> Inl (ConfigInvalid e)
         | Inr runtime \<Rightarrow>
           (case readTokenFile files (ac_tokenFile (agentC c)) of Inl e \<Rightarrow> Inl (TokenInvalid e)
            | Inr token \<Rightarrow>
              (case newAgentClient (ac_endpoint (agentC c)) token (rt_connectTimeout runtime)
                   (rt_requestTimeout runtime) (rt_challengeTimeout runtime) of
                 None \<Rightarrow> Inl ClientInvalid
               | Some (client, transport) \<Rightarrow>
                   Inr (\<lparr>mw_config = c, mw_trusted = rt_trusted runtime, mw_agent = client,
                     mw_pages = newPageStore (responsesC c) (rt_responseRoot runtime) (rt_reloadInterval runtime),
                     mw_cache = newDecisionCache (cc_maximumEntries (cacheC c)) (rt_maximumCacheTTL runtime),
                     mw_breaker = newCircuitBreaker (cb_failureThreshold (circuitBreakerC c)) (rt_openDuration runtime),
                     mw_forwarding = newForwardingPolicy (requestC c),
                     mw_providers = Some providers, mw_clientIPLogAt = 0\<rparr>, transport)))))"

text \<open>
  \<open>New\<close> as a whole: a middleware that is built starts the refresh of the provider ranges, unless the
  context is cancelled or the refresh was started before.
\<close>

definition newPlugin ::
    "range_order \<Rightarrow> tokenFiles \<Rightarrow> providerRangeStore \<Rightarrow> bool \<Rightarrow> bool \<Rightarrow> config option \<Rightarrow> bool
       \<Rightarrow> (newError + middleware \<times> agentTransport) \<times> bool \<times> providerRangeUpdater option" where
  "newPlugin ord files providers cancelled has_next config refreshed =
     (case newMiddleware ord files providers has_next config of
        Inl e \<Rightarrow> (Inl e, refreshed, None)
      | Inr built \<Rightarrow> (Inr built, startDefaultProviderRefresh cancelled refreshed))"


section \<open>What acceptance means\<close>

lemma check_empty [simp]: "check bad message = [] \<longleftrightarrow> \<not> bad"
  by (simp add: check_def)

lemma check_all_empty [simp]: "check_all vs bad message = [] \<longleftrightarrow> (\<forall>v \<in> set vs. \<not> bad v)"
  by (simp add: check_all_def)

lemma check_map_empty:
  assumes "is_range_order ord" "wf_map m"
  shows "check_map ord m bad message = [] \<longleftrightarrow> (\<forall>(name, v) \<in> set m. \<not> bad v)"
proof -
  have "check_map ord m bad message = []
      \<longleftrightarrow> (\<forall>name \<in> set (keys m). \<not> (case map_of m name of Some v \<Rightarrow> bad v | None \<Rightarrow> False))"
    using range_order_set [OF assms(1)] by (simp add: check_map_def)
  also have "\<dots> \<longleftrightarrow> (\<forall>(name, v) \<in> set m. \<not> bad v)"
    using assms(2) by (auto split: option.splits dest: map_of_SomeD)
  finally show ?thesis .
qed

lemma duration_problem_empty:
  "duration_problem name v lo hi = (d, []) \<Longrightarrow> lo \<le> d \<and> d \<le> hi \<and> parse_duration v = Some d"
  by (auto simp: duration_problem_def split: option.splits if_splits)

lemma duration_checks_empty:
  assumes "duration_checks config = (rt, [])"
  shows "millisecond \<le> rt_connectTimeout rt" "rt_connectTimeout rt \<le> rt_requestTimeout rt"
    "rt_connectTimeout rt \<le> rt_challengeTimeout rt" "rt_connectTimeout rt \<le> second"
    "rt_requestTimeout rt \<le> maximumAgentTimeout" "rt_challengeTimeout rt \<le> maximumChallengeTimeout"
    "second \<le> rt_reloadInterval rt" "rt_reloadInterval rt \<le> hour"
    "0 \<le> rt_maximumCacheTTL rt" "rt_maximumCacheTTL rt \<le> maximumCacheTTL"
    "100 * millisecond \<le> rt_openDuration rt" "rt_openDuration rt \<le> minute"
proof -
  obtain d1 p1 d2 p2 d3 p3 d4 p4 d5 p5 d6 p6 where d:
    "duration_problem ''agent.connectTimeout'' (ac_connectTimeout (agentC config)) millisecond second = (d1, p1)"
    "duration_problem ''agent.requestTimeout'' (ac_requestTimeout (agentC config)) millisecond
       maximumAgentTimeout = (d2, p2)"
    "duration_problem ''challenge.requestTimeout'' (ch_requestTimeout (challengeC config)) millisecond
       maximumChallengeTimeout = (d3, p3)"
    "duration_problem ''responses.reloadInterval'' (rs_reloadInterval (responsesC config)) second hour = (d4, p4)"
    "duration_problem ''cache.maximumTTL'' (cc_maximumTTL (cacheC config)) 0 maximumCacheTTL = (d5, p5)"
    "duration_problem ''circuitBreaker.openDuration'' (cb_openDuration (circuitBreakerC config))
       (100 * millisecond) minute = (d6, p6)"
    by (metis prod.collapse)
  with assms have "p1 = []" "p2 = []" "p3 = []" "p4 = []" "p5 = []" "p6 = []"
    and c: "\<not> (0 < d2 \<and> d2 < d1)" "\<not> (0 < d3 \<and> d3 < d1)"
    and rt: "rt_connectTimeout rt = d1" "rt_requestTimeout rt = d2" "rt_challengeTimeout rt = d3"
      "rt_reloadInterval rt = d4" "rt_maximumCacheTTL rt = d5" "rt_openDuration rt = d6"
    unfolding duration_checks_def d prod.case by auto
  with d have b: "millisecond \<le> d1 \<and> d1 \<le> second" "millisecond \<le> d2 \<and> d2 \<le> maximumAgentTimeout"
    "millisecond \<le> d3 \<and> d3 \<le> maximumChallengeTimeout" "second \<le> d4 \<and> d4 \<le> hour"
    "0 \<le> d5 \<and> d5 \<le> maximumCacheTTL" "100 * millisecond \<le> d6 \<and> d6 \<le> minute"
    by (auto dest: duration_problem_empty)
  have "0 < d2" "0 < d3" using b by (simp_all add: millisecond_def)
  with b c show "millisecond \<le> rt_connectTimeout rt" "rt_connectTimeout rt \<le> rt_requestTimeout rt"
    "rt_connectTimeout rt \<le> rt_challengeTimeout rt" "rt_connectTimeout rt \<le> second"
    "rt_requestTimeout rt \<le> maximumAgentTimeout" "rt_challengeTimeout rt \<le> maximumChallengeTimeout"
    "second \<le> rt_reloadInterval rt" "rt_reloadInterval rt \<le> hour"
    "0 \<le> rt_maximumCacheTTL rt" "rt_maximumCacheTTL rt \<le> maximumCacheTTL"
    "100 * millisecond \<le> rt_openDuration rt" "rt_openDuration rt \<le> minute"
    unfolding rt by simp_all
qed

lemma accepted_config:
  assumes "validateConfig ord config = Inr rt"
  obtains rt0 trusted where "duration_checks config = (rt0, [])"
    "parse_networks ''trustedProxies'' (trustedProxies config) = (trusted, [])"
    "agent_checks ord config = []" "clientIP_checks config = []" "body_checks config = []"
    "request_checks ord config = []" "response_checks ord config = []" "limit_checks config = []"
    "rt = rt0\<lparr>rt_trusted := trusted, rt_responseRoot := response_root config\<rparr>"
proof -
  obtain rt0 durations where d: "duration_checks config = (rt0, durations)" by fastforce
  obtain trusted networks where n: "parse_networks ''trustedProxies'' (trustedProxies config) = (trusted, networks)"
    by fastforce
  show thesis
    using assms d n by (intro that [of rt0 trusted]) (auto simp: validateConfig_def Let_def split: if_splits)
qed


section \<open>Properties\<close>

lemma config_bounds:
  assumes "validateConfig ord config = Inr rt" "is_range_order ord"
  shows "0 < rt_connectTimeout rt \<and> rt_connectTimeout rt \<le> rt_requestTimeout rt
     \<and> rt_requestTimeout rt \<le> maximumAgentTimeout
     \<and> rt_connectTimeout rt \<le> rt_challengeTimeout rt \<and> rt_challengeTimeout rt \<le> maximumChallengeTimeout
     \<and> 0 < rt_reloadInterval rt \<and> 0 \<le> rt_maximumCacheTTL rt \<and> rt_maximumCacheTTL rt \<le> maximumCacheTTL
     \<and> 100 * millisecond \<le> rt_openDuration rt \<and> rt_openDuration rt \<le> minute
     \<and> 1 \<le> rb_maximumBytes (requestBodyC config) \<and> rb_maximumBytes (requestBodyC config) \<le> maximumBodyBytes
     \<and> 0 \<le> cc_maximumEntries (cacheC config) \<and> cc_maximumEntries (cacheC config) \<le> 10000
     \<and> 1 \<le> cb_failureThreshold (circuitBreakerC config) \<and> cb_failureThreshold (circuitBreakerC config) \<le> 100
     \<and> 1 \<le> rs_maximumFileBytes (responsesC config) \<and> rs_maximumFileBytes (responsesC config) \<le> 4194304
     \<and> 1024 \<le> ch_maximumBodyBytes (challengeC config) \<and> ch_maximumBodyBytes (challengeC config) \<le> 262144
     \<and> {fm_agentUnavailable (failureMode config), fm_malformedResponse (failureMode config),
         fm_explicitLocalDeny (failureMode config)} \<subseteq> {''allow'', ''deny''}
     \<and> is_abs (rs_root (responsesC config)) \<and> rt_responseRoot rt = response_root config
     \<and> (\<forall>name \<in> {rs_blockFile (responsesC config), rs_challengeFile (responsesC config),
           rs_rateLimitFile (responsesC config), rs_unavailableFile (responsesC config)}.
          validateRelativePagePath (rt_responseRoot rt) name)
     \<and> has_prefix (ch_pathPrefix (challengeC config)) ''/'' \<and> ch_pathPrefix (challengeC config) \<noteq> ''/''"
  using assms(1)
proof (rule accepted_config)
  fix rt0 trusted
  assume d: "duration_checks config = (rt0, [])"
    and a: "agent_checks ord config = []" and b: "body_checks config = []"
    and r: "response_checks ord config = []" and l: "limit_checks config = []"
    and rt: "rt = rt0\<lparr>rt_trusted := trusted, rt_responseRoot := response_root config\<rparr>"
  note dur = duration_checks_empty [OF d]
  have t: "0 < rt_connectTimeout rt" "rt_connectTimeout rt \<le> rt_requestTimeout rt"
    "rt_requestTimeout rt \<le> maximumAgentTimeout" "rt_connectTimeout rt \<le> rt_challengeTimeout rt"
    "rt_challengeTimeout rt \<le> maximumChallengeTimeout" "0 < rt_reloadInterval rt"
    "0 \<le> rt_maximumCacheTTL rt" "rt_maximumCacheTTL rt \<le> maximumCacheTTL"
    "100 * millisecond \<le> rt_openDuration rt" "rt_openDuration rt \<le> minute"
    using dur by (simp_all add: rt millisecond_def second_def)
  have m: "{fm_agentUnavailable (failureMode config), fm_malformedResponse (failureMode config),
         fm_explicitLocalDeny (failureMode config)} \<subseteq> {''allow'', ''deny''}"
    using a by (auto simp: agent_checks_def check_map_empty [OF assms(2)] split: option.splits)
  have p: "\<forall>name \<in> {rs_blockFile (responsesC config), rs_challengeFile (responsesC config),
           rs_rateLimitFile (responsesC config), rs_unavailableFile (responsesC config)}.
          validateRelativePagePath (response_root config) name"
    "is_abs (rs_root (responsesC config))" "1 \<le> rs_maximumFileBytes (responsesC config)"
    "rs_maximumFileBytes (responsesC config) \<le> 4194304"
    using r by (simp_all add: response_checks_def Let_def check_map_empty [OF assms(2)])
  have rr: "rt_responseRoot rt = response_root config" by (simp add: rt)
  have z: "1 \<le> rb_maximumBytes (requestBodyC config)" "rb_maximumBytes (requestBodyC config) \<le> maximumBodyBytes"
    using b by (simp_all add: body_checks_def Let_def)
  have y: "0 \<le> cc_maximumEntries (cacheC config)" "cc_maximumEntries (cacheC config) \<le> 10000"
    "1 \<le> cb_failureThreshold (circuitBreakerC config)" "cb_failureThreshold (circuitBreakerC config) \<le> 100"
    "1024 \<le> ch_maximumBodyBytes (challengeC config)" "ch_maximumBodyBytes (challengeC config) \<le> 262144"
    "has_prefix (ch_pathPrefix (challengeC config)) ''/''" "ch_pathPrefix (challengeC config) \<noteq> ''/''"
    using l by (simp_all add: limit_checks_def validPathPrefix_def)
  show ?thesis unfolding rr by (intro conjI t m p z y refl)
qed

text \<open>
  C34. An accepted configuration is bounded. It has timeouts of at most two and five seconds, no
  shorter than the connect timeout, a cache life of at most five seconds, an open period between
  100 milliseconds and a minute, and bounded body, page, cache and threshold sizes; every failure
  mode is \<open>allow\<close> or \<open>deny\<close>, the response root is absolute, every page name stays in it, and the
  challenge prefix begins with a slash and is not the root.
\<close>

theorem accepted_config_is_bounded:
  assumes "validateConfig ord config = Inr rt" "is_range_order ord"
  shows "0 < rt_connectTimeout rt \<and> rt_connectTimeout rt \<le> rt_requestTimeout rt
     \<and> rt_requestTimeout rt \<le> maximumAgentTimeout
     \<and> rt_connectTimeout rt \<le> rt_challengeTimeout rt \<and> rt_challengeTimeout rt \<le> maximumChallengeTimeout
     \<and> 0 < rt_reloadInterval rt \<and> 0 \<le> rt_maximumCacheTTL rt \<and> rt_maximumCacheTTL rt \<le> maximumCacheTTL
     \<and> 100 * millisecond \<le> rt_openDuration rt \<and> rt_openDuration rt \<le> minute
     \<and> 1 \<le> rb_maximumBytes (requestBodyC config) \<and> rb_maximumBytes (requestBodyC config) \<le> maximumBodyBytes
     \<and> 0 \<le> cc_maximumEntries (cacheC config) \<and> cc_maximumEntries (cacheC config) \<le> 10000
     \<and> 1 \<le> cb_failureThreshold (circuitBreakerC config) \<and> cb_failureThreshold (circuitBreakerC config) \<le> 100
     \<and> 1 \<le> rs_maximumFileBytes (responsesC config) \<and> rs_maximumFileBytes (responsesC config) \<le> 4194304
     \<and> 1024 \<le> ch_maximumBodyBytes (challengeC config) \<and> ch_maximumBodyBytes (challengeC config) \<le> 262144
     \<and> {fm_agentUnavailable (failureMode config), fm_malformedResponse (failureMode config),
         fm_explicitLocalDeny (failureMode config)} \<subseteq> {''allow'', ''deny''}
     \<and> is_abs (rs_root (responsesC config)) \<and> rt_responseRoot rt = response_root config
     \<and> (\<forall>name \<in> {rs_blockFile (responsesC config), rs_challengeFile (responsesC config),
           rs_rateLimitFile (responsesC config), rs_unavailableFile (responsesC config)}.
          validateRelativePagePath (rt_responseRoot rt) name)
     \<and> has_prefix (ch_pathPrefix (challengeC config)) ''/'' \<and> ch_pathPrefix (challengeC config) \<noteq> ''/''"
  by (rule config_bounds [OF assms])




lemma default_durations:
  "duration_checks createConfig =
     (\<lparr>rt_connectTimeout = 100 * millisecond, rt_requestTimeout = 500 * millisecond,
       rt_challengeTimeout = 2 * second, rt_reloadInterval = 30 * second, rt_maximumCacheTTL = second,
       rt_openDuration = 5 * second, rt_trusted = [], rt_responseRoot = []\<rparr>, [])"
proof -
  have "parse_duration ''100ms'' = Some 100000000" "parse_duration ''500ms'' = Some 500000000"
    "parse_duration ''2s'' = Some 2000000000" "parse_duration ''30s'' = Some 30000000000"
    "parse_duration ''1s'' = Some 1000000000" "parse_duration ''5s'' = Some 5000000000"
    by code_simp+
  then show ?thesis
    by (simp add: duration_checks_def duration_problem_def createConfig_def check_def time_defs
        maximumAgentTimeout_def maximumChallengeTimeout_def maximumCacheTTL_def)
qed

lemma default_values:
  "validateAgentEndpoint ''http://sokol-edge-agent:8080'' = None"
  "is_abs ''/run/secrets/sokol-plugin-token''"
  "validHeaderName ''CF-Connecting-IP''" "validHeaderName ''X-Real-IP''"
  "list_all validContentTypePattern [''application/json'', ''application/x-www-form-urlencoded'',
     ''application/xml'', ''text/xml'']"
  "list_all (\<lambda>h. validHeaderName h \<and> \<not> cookieRequestHeader h) legacyDefaultHeaders"
  "list_all (\<lambda>h. length h \<le> 128) legacyDefaultHeaders"
  "validCookieName defaultTrustCookieName"
  "is_abs ''/etc/traefik/sokol''" "path_clean (path_clean ''/etc/traefik/sokol'') = ''/etc/traefik/sokol''"
  "list_all (validateRelativePagePath ''/etc/traefik/sokol'')
     [''block.html'', ''challenge.html'', ''rate-limit.html'', ''unavailable.html'']"
  "\<not> has_suffix ''/.sokol'' ''/''"
  by code_simp+

lemma default_accepted:
  assumes "is_range_order ord"
  shows "validateConfig ord createConfig = Inr
     \<lparr>rt_connectTimeout = 100 * millisecond, rt_requestTimeout = 500 * millisecond,
      rt_challengeTimeout = 2 * second, rt_reloadInterval = 30 * second, rt_maximumCacheTTL = second,
      rt_openDuration = 5 * second, rt_trusted = [], rt_responseRoot = ''/etc/traefik/sokol''\<rparr>"
proof -
  note v = default_values [unfolded list_all_iff]
  have root: "response_root createConfig = ''/etc/traefik/sokol''"
    using default_values(9,10) by (simp add: response_root_def createConfig_def)
  have n: "parse_networks ''trustedProxies'' (trustedProxies createConfig) = ([], [])"
    by (simp add: parse_networks_def createConfig_def List.map_filter_def)
  have a: "agent_checks ord createConfig = []"
    using default_values(1,2) by (simp add: agent_checks_def check_map_empty [OF assms] createConfig_def)
  have c: "clientIP_checks createConfig = []"
    using default_values(3,4) by (simp add: clientIP_checks_def createConfig_def)
  have b: "body_checks createConfig = []"
    using v(5) by (simp add: body_checks_def Let_def createConfig_def maximumBodyBytes_def)
  have q: "request_checks ord createConfig = []"
    using v(6,7) default_values(8)
    by (simp add: request_checks_def Let_def check_map_empty [OF assms] createConfig_def
        forwardAll_def legacyDefaultHeaders_def maximumForwardedNameBytes_def)
  have r: "response_checks ord createConfig = []"
    using v(11) default_values(9)
    by (simp add: response_checks_def Let_def check_map_empty [OF assms] root) (simp add: createConfig_def)
  have l: "limit_checks createConfig = []"
    using default_values(12)
    by (simp add: limit_checks_def createConfig_def validPathPrefix_def contains_any_def)
  show ?thesis
    by (simp add: validateConfig_def default_durations n a c b q r l root)
qed

text \<open>
  The defaults are accepted. The configuration \<open>CreateConfig\<close> returns passes every check, in any
  order the maps are ranged over, and its durations mean what they say: 100 and 500 milliseconds
  for the Agent, two seconds for a challenge, a reload every 30 seconds, decisions cached for a
  second, the breaker open for five.
\<close>

lemma default_config_is_accepted:
  assumes "is_range_order ord"
  shows "validateConfig ord createConfig = Inr
     \<lparr>rt_connectTimeout = 100 * millisecond, rt_requestTimeout = 500 * millisecond,
      rt_challengeTimeout = 2 * second, rt_reloadInterval = 30 * second, rt_maximumCacheTTL = second,
      rt_openDuration = 5 * second, rt_trusted = [], rt_responseRoot = ''/etc/traefik/sokol''\<rparr>"
  by (rule default_accepted [OF assms])

lemma default_config_is_accepted_witness:
  "\<exists>rt. validateConfig rev createConfig = Inr rt \<and> rt_openDuration rt = 5 * second"
  using default_config_is_accepted [of rev] by simp


theorem accepted_config_is_bounded_witness:
  "\<exists>rt. validateConfig id createConfig = Inr rt \<and> rt_requestTimeout rt \<le> maximumAgentTimeout"
proof -
  have o: "is_range_order id" by simp
  from accepted_config_is_bounded [OF default_accepted [OF o] o] default_accepted [OF o]
  show ?thesis by blast
qed

lemma new_middleware_cases:
  assumes "newMiddleware ord files defaultStore has_next (Some c) = Inr (m0, transport)"
  obtains rt token where "validateConfig ord c = Inr rt"
    "readTokenFile files (ac_tokenFile (agentC c)) = Inr token"
    "newAgentClient (ac_endpoint (agentC c)) token (rt_connectTimeout rt) (rt_requestTimeout rt)
       (rt_challengeTimeout rt) = Some (mw_agent m0, transport)"
    "mw_config m0 = c" "mw_cache m0 = newDecisionCache (cc_maximumEntries (cacheC c)) (rt_maximumCacheTTL rt)"
    "mw_breaker m0 = newCircuitBreaker (cb_failureThreshold (circuitBreakerC c)) (rt_openDuration rt)"
  using assms by (auto simp: newMiddleware_def split: if_splits sum.splits option.splits prod.splits)

lemma token_text:
  "readTokenFile files path = Inr token \<Longrightarrow>
     32 \<le> length token \<and> int (length token) \<le> 1024 \<and> \<not> contains_any token [CHR 0x0D, CHR 0x0A]"
  by (auto simp: readTokenFile_def Let_def split: option.splits if_splits)

lemma new_client_fields:
  "newAgentClient endpoint token connect request challenge = Some (client, transport) \<Longrightarrow>
     agc_token client = token \<and> agc_timeout client = request \<and> agc_challengeTimeout client = challenge"
  by (auto simp: newAgentClient_def Let_def split: option.splits)

text \<open>
  C9. What \<open>New\<close> builds stays sound. A middleware that \<open>New\<close> returns serves any number of concurrent
  requests, in any interleaving of their steps, with a cache that keeps its invariant and the
  configured bound and a breaker that keeps its own; its configuration never changes, its calls
  take at most two (evaluations) or five seconds (challenges), and its token has 32 to 1024
  bytes on one line.
\<close>

theorem new_middleware_stays_sound:
  assumes "newMiddleware ord files defaultStore has_next (Some c) = Inr (m0, transport)"
    and "is_range_order ord" "reachable m0 (m, ts)"
  shows "cache_inv (mw_cache m)
     \<and> int (length (entries (mw_cache m))) \<le> cc_maximumEntries (cacheC c)
     \<and> (\<exists>d. breaker_inv (cb_failureThreshold (circuitBreakerC c)) d (mw_breaker m)
          \<and> 100 * millisecond \<le> d \<and> d \<le> minute)
     \<and> mw_config m = c
     \<and> agc_timeout (mw_agent m) \<le> maximumAgentTimeout
     \<and> agc_challengeTimeout (mw_agent m) \<le> maximumChallengeTimeout
     \<and> 32 \<le> length (agc_token (mw_agent m)) \<and> int (length (agc_token (mw_agent m))) \<le> 1024
     \<and> \<not> contains_any (agc_token (mw_agent m)) [CHR 0x0D, CHR 0x0A]"
proof -
  obtain rt token where v: "validateConfig ord c = Inr rt"
    and t: "readTokenFile files (ac_tokenFile (agentC c)) = Inr token"
    and client: "newAgentClient (ac_endpoint (agentC c)) token (rt_connectTimeout rt) (rt_requestTimeout rt)
       (rt_challengeTimeout rt) = Some (mw_agent m0, transport)"
    and m0: "mw_config m0 = c" "mw_cache m0 = newDecisionCache (cc_maximumEntries (cacheC c)) (rt_maximumCacheTTL rt)"
    "mw_breaker m0 = newCircuitBreaker (cb_failureThreshold (circuitBreakerC c)) (rt_openDuration rt)"
    by (rule new_middleware_cases [OF assms(1)])
  note b = config_bounds [OF v assms(2)]
  have d: "0 \<le> rt_openDuration rt" using b by (simp add: millisecond_def)
  have agent: "agc_token (mw_agent m0) = token" "agc_timeout (mw_agent m0) = rt_requestTimeout rt"
    "agc_challengeTimeout (mw_agent m0) = rt_challengeTimeout rt"
    using new_client_fields [OF client] by simp_all
  from concurrent_state_is_consistent [OF assms(3) m0(2,3) _ d] b m0(1) agent token_text [OF t]
  show ?thesis by auto
qed

definition exampleTokenFiles :: tokenFiles where
  "exampleTokenFiles = \<lparr>tf_stat = (\<lambda>_. Some (True, 416, 32)),
     tf_read = (\<lambda>_. Some (replicate 32 CHR ''s''))\<rparr>"

theorem new_middleware_stays_sound_witness:
  "\<exists>m0 transport. newMiddleware id exampleTokenFiles (newProviderRangeStore 0) True (Some createConfig)
       = Inr (m0, transport)
     \<and> cache_inv (mw_cache m0) \<and> agc_timeout (mw_agent m0) \<le> maximumAgentTimeout"
proof -
  let ?n = "newMiddleware id exampleTokenFiles (newProviderRangeStore 0) True (Some createConfig)"
  have o: "is_range_order id" by simp
  have t: "readTokenFile exampleTokenFiles path = Inr (replicate 32 CHR ''s'')" for path
  proof -
    have "trim_space (replicate 32 CHR ''s'') = replicate 32 CHR ''s''" by code_simp
    moreover have "\<not> contains_any (replicate 32 CHR ''s'') [CHR 0x0D, CHR 0x0A]" by code_simp
    ultimately show ?thesis by (simp add: readTokenFile_def exampleTokenFiles_def)
  qed
  have "url_parse ''http://sokol-edge-agent:8080'' \<noteq> None" by code_simp
  then obtain u where "url_parse ''http://sokol-edge-agent:8080'' = Some u" by blast
  moreover have "ac_endpoint (agentC createConfig) = ''http://sokol-edge-agent:8080''"
    by (simp add: createConfig_def)
  ultimately have "\<exists>x. ?n = Inr x"
    using default_accepted [OF o] t by (simp add: newMiddleware_def newAgentClient_def Let_def)
  then obtain m0 transport where n: "?n = Inr (m0, transport)" by auto
  from new_middleware_stays_sound [OF n o reachable.start] n show ?thesis by blast
qed


text \<open>
  The message says that the challenge prefix must be normalized; a prefix with dot segments is
  accepted, although no browser asks for such a path.
\<close>

lemma challenge_prefix_not_normalized:
  "limit_checks (createConfig\<lparr>challengeC := (challengeC createConfig)\<lparr>ch_pathPrefix := ''/a/../b''\<rparr>\<rparr>) = []
   \<and> path_clean ''/a/../b'' = ''/b''"
proof
  have "\<not> has_suffix ''/a/../b'' ''/''" by code_simp
  then show "limit_checks (createConfig\<lparr>challengeC := (challengeC createConfig)\<lparr>ch_pathPrefix := ''/a/../b''\<rparr>\<rparr>) = []"
    by (simp add: limit_checks_def createConfig_def validPathPrefix_def contains_any_def)
  show "path_clean ''/a/../b'' = ''/b''" by code_simp
qed

end
