(* ===== verification/RequestID.thy ===== *)
theory RequestID
  imports Concurrency
begin

text \<open>
  Request IDs on the way to the Agent and back. The middleware takes a client's \<open>X-Request-ID\<close>
  as it is, up to length and line breaks (\<open>normalizedRequestID\<close>, \<open>middleware.go\<close>); the JSON encoder
  replaces what is no UTF-8 in it, the decoder only yields UTF-8, and \<open>validateEvaluationResponse\<close>
  (\<open>agent.go\<close>) compares what it yields with the original. This theory follows such an ID to the
  Agent, through the failure modes and through the circuit breaker.
\<close>

section \<open>No answer fits\<close>

text \<open>Whatever an Agent answers, the decoder makes UTF-8 of it.\<close>

lemma accepted_id_decodes:
  assumes "evaluate c network input = Inr response"
  shows "valid_utf8 (q_requestID input)"
proof -
  from assms obtain r where r: "reply_value unmarshalResponse r = Some response"
    and v: "validateEvaluationResponse (q_requestID input) response = None"
    by (auto simp: evaluate_call.success_iff well_formed_def)
  from r obtain body where "unmarshalResponse body = Some response"
    by (auto simp: reply_value_def split: prod.splits nextValue.splits)
  then have "valid_utf8 (r_requestID response)" using decoded_response by (simp add: encodable_def)
  with valid_decision(1) [OF v] show ?thesis by simp
qed

section \<open>One request\<close>

lemma unanswered_is_forwarded:
  assumes "snd (looked_up env m q) = None" "\<exists>err. answer m env q = Inl err"
    and "mode_of m AgentUnavailable = ''allow''" "mode_of m AgentMalformed = ''allow''"
  shows "snd (ask_agent env m request q) = Forwarded request"
proof -
  obtain c where l: "looked_up env m q = (c, None)" using assms(1) by (cases "looked_up env m q") auto
  obtain b ok where b: "breaker_allow (mw_breaker m) (se_now env) = (b, ok)" by (cases "breaker_allow (mw_breaker m) (se_now env)")
  obtain err where a: "answer m env q = Inl err" using assms(2) by blast
  have f: "snd (handleFailure env (m\<lparr>mw_cache := c, mw_breaker := b'\<rparr>) request rid kind) = Forwarded request"
    for b' rid kind
    using assms(3,4) by (cases kind) (simp_all add: failure_forwards mode_of_def)
  show ?thesis
  proof (cases ok)
    case True
    with b ask_failed [OF l _ a] f show ?thesis by simp
  next
    case False
    with b ask_refused [OF l] f show ?thesis by simp
  qed
qed

text \<open>
  C12. A request ID that is no UTF-8 defeats the Agent. With the failure modes of the default
  configuration, a client that sends such an \<open>X-Request-ID\<close> (one byte \<open>0xFF\<close> is enough) reaches the
  application with any otherwise valid request that no cached deny answers, whatever the Agent
  answers: JSON has no text for that ID, so no response can carry it, every answer counts as
  malformed, and malformed answers fail open.
\<close>

theorem undecodable_request_id_is_forwarded:
  assumes "parseRemoteIP (h_remoteAddr request) = Inr direct" "validInboundMetadata request"
    and "\<not> has_prefix (h_path request) (ch_pathPrefix (challengeC (mw_config m)) @ ''/'')"
    and "snd (captureRequestBody request (requestBodyC (mw_config m)) (protocolType request)) = Inr (body, False)"
    and "rid = trim_space (header_get (h_header request) ''X-Request-ID'')"
    and "\<not> valid_utf8 rid" "length rid \<le> 128" "\<not> contains_any rid [CHR 0x0D, CHR 0x0A, CHR 0x00]"
    and "failureMode (mw_config m) = failureMode createConfig"
    and "\<And>q. snd (looked_up env m q) = None"
  shows "snd (serveHTTP env m request) = Forwarded request"
proof -
  have n: "normalizedRequestID (se_random env) (se_stamp env) (header_get (h_header request) ''X-Request-ID'') = rid"
    using assms(5-8) by (cases rid) (auto simp: normalizedRequestID_def Let_def Suc_le_eq)
  obtain m1 q logAt where s: "begin_request env m request = (m1, Looking request q)" "q_requestID q = rid"
      "m1 = m\<lparr>mw_clientIPLogAt := logAt\<rparr>"
    by (rule begin_looking [OF assms(3,2,1,4), of env]) (auto simp: n evaluation_input_def split: prod.splits)
  have "snd (looked_up env m1 q) = None" using assms(10) s(3) by (simp add: looked_up_def)
  moreover have "\<exists>err. answer m1 env q = Inl err"
    using accepted_id_decodes [of _ _ q] assms(6) s(2) by (cases "answer m1 env q") (auto simp: answer_def)
  moreover have "mode_of m1 AgentUnavailable = ''allow''" "mode_of m1 AgentMalformed = ''allow''"
    using assms(9) s(3) by (simp_all add: mode_of_def createConfig_def)
  ultimately have "snd (ask_agent env m1 request q) = Forwarded request"
    by (rule unanswered_is_forwarded)
  with serve_from_begin [OF s(1)] show ?thesis by simp
qed

definition exampleBypass :: httpRequest where
  "exampleBypass = exampleHttp\<lparr>h_header := [(''X-Request-Id'', [[CHR 0xFF]])]\<rparr>"

definition exampleDefault :: middleware where
  "exampleDefault = exampleMiddleware\<lparr>mw_config := createConfig\<rparr>"

theorem undecodable_request_id_is_forwarded_witness:
  "snd (serveHTTP exampleEnv exampleDefault exampleBypass)
   = Forwarded exampleBypass"
proof -
  have v: "parseRemoteIP (h_remoteAddr exampleBypass) = Inr [10, 0, 0, 1]" "validInboundMetadata exampleBypass"
    by code_simp+
  have p: "\<not> has_prefix (h_path exampleBypass) (ch_pathPrefix (challengeC (mw_config exampleDefault)) @ ''/'')"
    by (simp add: exampleBypass_def exampleHttp_def exampleDefault_def exampleMiddleware_def createConfig_def)
  have b: "snd (captureRequestBody exampleBypass config protocol) = Inr ([], False)" for config protocol
    by (simp add: captureRequestBody_def exampleBypass_def exampleHttp_def)
  have i: "[CHR 0xFF] = trim_space (header_get (h_header exampleBypass) ''X-Request-ID'')"
    "\<not> valid_utf8 [CHR 0xFF]" by code_simp+
  have l: "snd (looked_up exampleEnv exampleDefault q) = None" for q
    by (simp add: looked_up_def exampleDefault_def exampleMiddleware_def)
  show ?thesis
    by (rule undecodable_request_id_is_forwarded [OF v p b i _ _ _ l])
      (simp_all add: exampleDefault_def)
qed

section \<open>Everybody's requests\<close>

text \<open>A request with such an ID, as the middleware finds it.\<close>

definition undecodable :: "middleware \<Rightarrow> serveEnv \<Rightarrow> httpRequest \<Rightarrow> bool" where
  "undecodable m env request \<longleftrightarrow>
     (\<exists>direct. parseRemoteIP (h_remoteAddr request) = Inr direct) \<and> validInboundMetadata request
     \<and> \<not> has_prefix (h_path request) (ch_pathPrefix (challengeC (mw_config m)) @ ''/'')
     \<and> (\<exists>body. snd (captureRequestBody request (requestBodyC (mw_config m)) (protocolType request)) = Inr (body, False))
     \<and> (let rid = trim_space (header_get (h_header request) ''X-Request-ID'') in
          \<not> valid_utf8 rid \<and> length rid \<le> 128 \<and> \<not> contains_any rid [CHR 0x0D, CHR 0x0A, CHR 0x00])"

fun serve_all :: "middleware \<Rightarrow> (serveEnv \<times> httpRequest) list \<Rightarrow> middleware" where
  "serve_all m [] = m"
| "serve_all m ((env, request) # calls) = serve_all (fst (serveHTTP env m request)) calls"

lemma undecodable_step:
  assumes "undecodable m env request" "mw_cache m = newDecisionCache capacity ttl"
    and "openUntil (mw_breaker m) = 0"
  shows "mw_breaker (fst (serveHTTP env m request)) = breaker_failure (mw_breaker m) (se_now env)
     \<and> mw_cache (fst (serveHTTP env m request)) = mw_cache m
     \<and> mw_config (fst (serveHTTP env m request)) = mw_config m"
proof -
  let ?rid = "trim_space (header_get (h_header request) ''X-Request-ID'')"
  from assms(1) obtain direct body where u: "parseRemoteIP (h_remoteAddr request) = Inr direct"
      "validInboundMetadata request" "\<not> has_prefix (h_path request) (ch_pathPrefix (challengeC (mw_config m)) @ ''/'')"
      "snd (captureRequestBody request (requestBodyC (mw_config m)) (protocolType request)) = Inr (body, False)"
    and rid: "\<not> valid_utf8 ?rid" "length ?rid \<le> 128" "\<not> contains_any ?rid [CHR 0x0D, CHR 0x0A, CHR 0x00]"
    by (auto simp: undecodable_def Let_def)
  from rid have n: "normalizedRequestID (se_random env) (se_stamp env)
      (header_get (h_header request) ''X-Request-ID'') = ?rid"
    by (cases ?rid) (auto simp: normalizedRequestID_def Let_def Suc_le_eq)
  obtain m1 q logAt where s: "begin_request env m request = (m1, Looking request q)" "q_requestID q = ?rid"
      "m1 = m\<lparr>mw_clientIPLogAt := logAt\<rparr>"
    by (rule begin_looking [OF u(3,2,1,4), of env]) (auto simp: n evaluation_input_def split: prod.splits)
  have l: "looked_up env m1 q = (mw_cache m, None)" using assms(2) s(3) by (simp add: looked_up_def)
  have b: "breaker_allow (mw_breaker m1) (se_now env) = (mw_breaker m, True)"
    using assms(3) s(3) by (simp add: breaker_allow_def)
  obtain err where a: "answer m1 env q = Inl err"
    using accepted_id_decodes [of _ _ q] rid(1) s(2) by (cases "answer m1 env q") (auto simp: answer_def)
  from serve_from_begin [OF s(1)] have "serveHTTP env m request = ask_agent env m1 request q" by simp
  with ask_failed [OF l b a, of request] s(3) show ?thesis by simp
qed

lemma undecodable_cong: "mw_config m' = mw_config m \<Longrightarrow> undecodable m' env request = undecodable m env request"
  by (simp add: undecodable_def)

lemma serve_all_undecodable:
  assumes "mw_cache m = newDecisionCache capacity ttl" "openUntil (mw_breaker m) = 0" "\<not> probe (mw_breaker m)"
    and "failureThreshold (mw_breaker m) = failures (mw_breaker m) + int (length calls)"
    and "\<And>env request. (env, request) \<in> set calls \<Longrightarrow> undecodable m env request"
    and "calls \<noteq> []"
  shows "openUntil (mw_breaker (serve_all m calls)) = se_now (fst (last calls)) + openDuration (mw_breaker m)
     \<and> mw_cache (serve_all m calls) = newDecisionCache capacity ttl
     \<and> mw_config (serve_all m calls) = mw_config m"
  using assms
proof (induction calls arbitrary: m)
  case (Cons x calls)
  obtain env request where x: "x = (env, request)" by (cases x)
  let ?m = "fst (serveHTTP env m request)"
  have "undecodable m env request" using Cons.prems(5) x by simp
  from undecodable_step [OF this Cons.prems(1,2)] Cons.prems(1)
  have s: "mw_breaker ?m = breaker_failure (mw_breaker m) (se_now env)" "mw_cache ?m = newDecisionCache capacity ttl"
    "mw_config ?m = mw_config m" by simp_all
  show ?case
  proof (cases "calls = []")
    case True
    with s Cons.prems(3,4) x show ?thesis by (simp add: breaker_failure_def Let_def)
  next
    case False
    have b: "openUntil (mw_breaker ?m) = 0" "\<not> probe (mw_breaker ?m)"
      "failureThreshold (mw_breaker ?m) = failures (mw_breaker ?m) + int (length calls)"
      "openDuration (mw_breaker ?m) = openDuration (mw_breaker m)"
      using s(1) Cons.prems(2-4) False x by (auto simp: breaker_failure_def Let_def)
    have "undecodable ?m env' request'" if "(env', request') \<in> set calls" for env' request'
      using Cons.prems(5) [of env' request'] that by (simp add: undecodable_cong [OF s(3)])
    from Cons.IH [OF s(2) b(1-3) this False] show ?thesis using False x s(3) b(4) by simp
  qed
qed simp

text \<open>
  C13. A few such requests switch the Agent off for everybody. As many of them as the failure threshold
  of the circuit breaker, the first requests a middleware with the default failure modes serves,
  open the breaker; until its open duration is over, every request of every client that gets as far
  as the Agent is forwarded without asking it.
\<close>

theorem undecodable_request_ids_open_the_gate:
  assumes "mw_breaker m = newCircuitBreaker n d" "mw_cache m = newDecisionCache capacity ttl"
    and "failureMode (mw_config m) = failureMode createConfig"
    and "int (length calls) = n" "calls \<noteq> []" "0 < se_now (fst (last calls))" "0 \<le> d"
    and "\<And>env request. (env, request) \<in> set calls \<Longrightarrow> undecodable m env request"
    and "se_now env' < se_now (fst (last calls)) + d"
  shows "snd (ask_agent env' (serve_all m calls) request' q) = Forwarded request'
     \<and> ask_agent (env'\<lparr>se_network := network\<rparr>) (serve_all m calls) request' q
       = ask_agent env' (serve_all m calls) request' q"
proof -
  let ?m = "serve_all m calls"
  have st: "openUntil (mw_breaker ?m) = se_now (fst (last calls)) + d" "mw_cache ?m = newDecisionCache capacity ttl"
    "mw_config ?m = mw_config m"
    using serve_all_undecodable [OF assms(2) _ _ _ assms(8,5)] assms(1,4) by (simp_all add: newCircuitBreaker_def)
  then have b: "breaker_allow (mw_breaker ?m) (se_now env') = (mw_breaker ?m, False)"
    using assms(6,7,9) by (simp add: breaker_allow_def)
  have l: "looked_up env'' ?m q = (mw_cache ?m, None)" for env'' using st(2) by (simp add: looked_up_def)
  have f: "handleFailure env'' m' request' rid AgentUnavailable = (m', Forwarded request')"
    if "mw_config m' = mw_config m" for env'' m' rid
    using assms(3) that by (simp add: handleFailure_def Let_def createConfig_def)
  show ?thesis
    using ask_refused [OF l b, of request'] ask_refused [OF l, of "env'\<lparr>se_network := network\<rparr>"] b f st(3)
    by simp
qed

theorem undecodable_request_ids_open_the_gate_witness:
  "snd (ask_agent (exampleEnv\<lparr>se_now := 8\<rparr>)
      (serve_all exampleDefault (replicate 3 (exampleEnv, exampleBypass)))
      exampleHttp exampleInput) = Forwarded exampleHttp"
proof -
  let ?env = exampleEnv
  have "parseRemoteIP (h_remoteAddr exampleBypass) = Inr [10, 0, 0, 1]" "validInboundMetadata exampleBypass"
    "trim_space (header_get (h_header exampleBypass) ''X-Request-ID'') = [CHR 0xFF]"
    "\<not> valid_utf8 [CHR 0xFF]" by code_simp+
  moreover have "\<not> has_prefix (h_path exampleBypass) (ch_pathPrefix (challengeC (mw_config exampleDefault)) @ ''/'')"
    by (simp add: exampleBypass_def exampleHttp_def exampleDefault_def exampleMiddleware_def createConfig_def)
  moreover have "snd (captureRequestBody exampleBypass config protocol) = Inr ([], False)" for config protocol
    by (simp add: captureRequestBody_def exampleBypass_def exampleHttp_def)
  ultimately have "undecodable exampleDefault ?env exampleBypass"
    by (simp add: undecodable_def)
  then have u: "undecodable exampleDefault env request"
    if "(env, request) \<in> set (replicate 3 (?env, exampleBypass))" for env request
    using that by simp
  have "mw_breaker exampleDefault = newCircuitBreaker 3 5000000000"
    "mw_cache exampleDefault = newDecisionCache 4 1000000000"
    "failureMode (mw_config exampleDefault) = failureMode createConfig"
    by (simp_all add: exampleDefault_def exampleMiddleware_def)
  note m = this
  let ?calls = "replicate 3 (?env, exampleBypass)" and ?later = "exampleEnv\<lparr>se_now := 8\<rparr>"
  have "snd (ask_agent ?later (serve_all exampleDefault ?calls) exampleHttp exampleInput) = Forwarded exampleHttp
     \<and> ask_agent (?later\<lparr>se_network := exampleNetwork\<rparr>) (serve_all exampleDefault ?calls) exampleHttp exampleInput
       = ask_agent ?later (serve_all exampleDefault ?calls) exampleHttp exampleInput"
  proof (rule undecodable_request_ids_open_the_gate [OF m])
    show "int (length ?calls) = 3" "?calls \<noteq> []" "(0 :: int) \<le> 5000000000" by simp_all
    show "0 < se_now (fst (last ?calls))" "se_now ?later < se_now (fst (last ?calls)) + 5000000000"
      by (simp_all add: exampleEnv_def)
  qed (rule u)
  then show ?thesis by blast
qed

end
