(* ===== verification/Spec2Isabelle.thy ===== *)
theory Spec2Isabelle
  imports Setup RequestID
begin

text \<open>
  A verification development for the Sokol plugin of the Traefik reverse proxy: all of its Go code
  under \<open>src/\<close>, as definitions that compute, and what is proved about them.

  \<^bold>\<open>The program.\<close> The plugin is a middleware: Traefik hands it each request, and it either passes the
  request on to the application or answers it. \<open>New\<close> (\<open>plugin.go\<close>) checks the configuration, reads the
  token of the local Agent and builds a \<open>Middleware\<close>. \<open>ServeHTTP\<close> (\<open>middleware.go\<close>) then, for each
  request: finds the client's address (\<open>client_ip.go\<close>, with the CDN ranges of \<open>provider_ranges.go\<close>);
  serves the challenge endpoints itself (\<open>challenge.go\<close>); refuses ambiguous metadata; captures a part
  of the body (\<open>body.go\<close>); selects headers and cookies (\<open>forwarding.go\<close>); looks for a cached decision
  and asks the circuit breaker (\<open>cache.go\<close>); asks the Agent over HTTP and JSON (\<open>agent.go\<close>); and
  passes the request on, or writes an enforcement response as JSON or as a page (\<open>responses.go\<close>). The
  cache, the breaker, the time of the last log line and the provider ranges are shared by all
  requests; each is behind its own mutex.

  \<^bold>\<open>Theories and code.\<close>

  \<^item> \<open>Prelude\<close>: Go's maps, times, durations and wrap-around; the fact collections; the locales
    \<open>object_invariant\<close> and \<open>object_refinement\<close> for objects that perform operations one at a time.
  \<^item> The standard library as far as the program calls it: \<open>GoStrings\<close> (\<open>strings\<close>, \<open>utf8\<close>, \<open>strconv\<close>,
    \<open>textproto\<close>), \<open>GoNet\<close> (\<open>net\<close>, \<open>netip\<close>), \<open>GoURL\<close> (\<open>net/url\<close>), \<open>GoPath\<close> (\<open>path/filepath\<close>), \<open>GoMime\<close>
    (\<open>mime\<close>), \<open>GoFloat\<close> (\<open>ParseFloat\<close>), \<open>GoTime\<close> (\<open>ParseDuration\<close>, \<open>Duration.String\<close>), \<open>GoHttp\<close> and
    \<open>GoWriter\<close> (requests, headers, cookies, responses), \<open>GoJson\<close> (\<open>encoding/json\<close>), with the facts
    about the last in \<open>Utf8\<close> and \<open>GoJsonFacts\<close>.
  \<^item> \<open>Config\<close>: the configuration structs and \<open>CreateConfig\<close> of \<open>plugin.go\<close>, the constants of
    \<open>forwarding.go\<close>. \<open>Validation\<close>: \<open>validHeaderName\<close> to \<open>validateRelativePagePath\<close> of \<open>plugin.go\<close>.
  \<^item> \<open>Messages\<close>, \<open>Wire\<close>: the message structs of \<open>agent.go\<close> and \<open>challenge.go\<close>, and their JSON form, field
    tag by field tag.
  \<^item> \<open>Cache\<close>, \<open>Breaker\<close>: \<open>decisionCache\<close> with its two maps and its revision, the request fingerprint,
    and \<open>circuitBreaker\<close>, all of \<open>cache.go\<close>; one definition for each step of \<open>put\<close>.
  \<^item> \<open>ProviderRanges\<close>, \<open>ClientIP\<close>: the range store, the parsing of lists, the updater and its start
    (\<open>provider_ranges.go\<close>); \<open>extractClientIPWithSource\<close> and what it calls (\<open>client_ip.go\<close>).
  \<^item> \<open>Body\<close>, \<open>Metadata\<close>, \<open>Forwarding\<close>: \<open>captureRequestBody\<close> (\<open>body.go\<close>); \<open>normalizedRequestID\<close> to
    \<open>protocolType\<close> (\<open>middleware.go\<close>); \<open>forwardingPolicy\<close> (\<open>forwarding.go\<close>).
  \<^item> \<open>Agent\<close>: \<open>agentClient\<close> with \<open>evaluate\<close>, \<open>challengeCreate\<close>, \<open>challengeVerify\<close>,
    \<open>validateEvaluationResponse\<close> and \<open>dialLocalAgent\<close> (\<open>agent.go\<close>).
  \<^item> \<open>Pages\<close>, \<open>Responses\<close>: the built-in pages byte for byte, \<open>pageStore\<close> with its reload interval, content
    negotiation, the template (\<open>responses.go\<close>). \<open>Challenge\<close>: the endpoints of \<open>challenge.go\<close>.
  \<^item> \<open>Middleware\<close>: \<open>ServeHTTP\<close>, \<open>handleDecision\<close>, \<open>handleFailure\<close> (\<open>middleware.go\<close>), as the function
    \<open>serveHTTP\<close> and as the steps \<open>serve_step\<close> between which other requests may run. \<open>Concurrency\<close>: the
    step relation \<open>sys_step\<close> of any number of requests over the shared state, and its reachable states.
  \<^item> \<open>Setup\<close>: \<open>validateConfig\<close> check by check, \<open>validateAgentEndpoint\<close>, \<open>readTokenFile\<close> (\<open>plugin.go\<close>),
    \<open>newAgentClient\<close> (\<open>agent.go\<close>), \<open>New\<close> (\<open>newMiddleware\<close>, \<open>newPlugin\<close>).
  \<^item> \<open>RequestID\<close>: what an \<open>X-Request-ID\<close> that is no UTF-8 does to all of this.

  A Go struct is a record, with a prefix for its field names; a method with a pointer receiver takes
  the record and returns it updated; a Go map is an association list with distinct keys; an error is
  \<open>Inl\<close> or \<open>None\<close>. Where Go ranges over a map the order is an argument, and a property holds for every
  order unless it says otherwise. A \<open>int\<close> or a \<open>time.Duration\<close> is an \<open>int\<close>, with \<open>wrap64\<close> written out
  where a product could leave 64 bits; what the JSON decoder yields is proved to be in range.
\<close>

text \<open>
  \<^bold>\<open>The environment.\<close> These are arguments: the network between the plugin and the Agent (a function from
  the request sent to an error or a reply, whose body is a stream that may fail, and whose reads may
  run ahead of the decoder); the resolver and the connections of the dialer; the network and the
  \<open>encoding/xml\<close> decoder the provider ranges come through; the file system of pages and of the token;
  random bytes, clock readings and their formatted forms; the hash function of the cache; the
  iteration orders of maps. Only two properties assume anything of the hash: that the inputs hashed
  for two requests do not collide (the cache key), and that no other decision put in the meantime has
  the fingerprint or the composite key of the stored one (the cached deny). The page property
  assumes that absolute paths resolve to absolute ones, as \<open>filepath.EvalSymlinks\<close> documents. No safety
  property assumes anything of the Agent, the peers or the network.

  \<^bold>\<open>What is proved.\<close> The numbered texts state the properties, in order of importance.

  \<^item> The gate: with both failure modes and denies enforced, in every interleaving, only a request that
    the Agent was asked about and allowed reaches the application, as it came in (\<open>Concurrency\<close>). A
    failure ends as its mode says, and the breaker counts it once; an accepted cacheable deny answers
    equal requests whatever becomes of the Agent, until the cache fills up or a newer decision
    replaces it; invalid requests go nowhere, unless the peer's address cannot be read and the
    failure mode is \<open>allow\<close> (\<open>Middleware\<close>). What \<open>New\<close> builds keeps all invariants (\<open>Setup\<close>). Lemmas relate
    the two forms of the handler: the steps of a request served alone are \<open>serveHTTP\<close> (\<open>Middleware\<close>),
    and at most seven of them are taken (\<open>Concurrency\<close>).
  \<^item> The components: what a cache hit was stored for, and the cache's invariant and bound; the
    breaker as a three-phase machine (a refinement); the client address against spoofing, branch by
    branch; body capture as the identity for the application; the bounds on all that is forwarded and
    what the two framing headers add to them, through one contract for both loops
    (\<open>bounded_collector\<close>); the contract of the Agent calls
    (\<open>classified_call\<close>), the checks on a response, the dialer; pages inside their root, the security
    headers of every enforcement response, the template's URL as a round trip; when a challenge
    endpoint sets the trust cookie, and what the Agent was asked and answered before; the provider ranges' last known good.
  \<^item> The wire: what any request's bytes do to the message (nothing but the replacement of invalid
    UTF-8), the type of what is decoded (\<open>Wire\<close>). Responses have an encoder, \<open>marshalResponse\<close>, for the
    examples: it writes what an Agent would send, and a lemma reads it back.
  \<^item> What goes wrong, stated as theorems: one request header bypasses the Agent with the default
    failure modes, and a few such requests bypass it for everybody (\<open>RequestID\<close>); an Agent that fails
    slowly is never shut out (\<open>Middleware\<close>); a challenge issued for some paths can never be solved
    (\<open>Challenge\<close>); an unreadable peer address skips the metadata checks (\<open>Middleware\<close>); the framing
    headers are forwarded outside the bounds and the allowlist (\<open>Forwarding\<close>). Lemmas beside them show
    smaller deviations: the fingerprint does not separate
    headers from cookies, a wide public range may contain private addresses, unparsed cookies are
    dropped without the flag, the template depends on the map order, a prefix with dot segments is
    accepted.

  The laws of an interface are the assumptions of its locale, and its interpretation on the model's
  definitions proves them: \<open>breaker_object\<close>, \<open>cache_object\<close> and \<open>store\<close> (the cache as a store of
  decisions), \<open>header_loop\<close> and \<open>cookie_loop\<close>, \<open>evaluate_call\<close>, \<open>challenge_request\<close>, \<open>create_call\<close> and
  \<open>verify_call\<close>.

  \<^bold>\<open>Bounds.\<close> Nothing runs on fuel: every loop ends on its data, the parsers because the text gets
  shorter. A request's seven steps are the rank of its place in \<open>serve_step\<close> (\<open>control_rank\<close>). The
  nesting depth of 10000 and the size limits are those of the code and its library.

  \<^bold>\<open>Not modelled.\<close> The HTTP transport and server below the messages (connections, TLS, redirects,
  timeouts as elapsed time): what they do is the environment's choice. The XML decoder: its tables of
  name characters are not at hand. The text of log lines and of the Agent error that only reaches the
  log beyond its message. The goroutine of the provider refresh is a list of refreshes, and each is a
  step between the others' steps. The tests, the Yaegi and Traefik harnesses, the release scripts
  and the static pages hold no logic of the plugin.
\<close>

end
